(* ===== verification/Prelude.thy ===== *)
theory Prelude
  imports Main "HOL-Library.Word"
begin

text \<open>
  What the components of the relayer share: names for the machine types, the pieces of the Rust
  standard library the code uses (results, strings, decimal numbers, integer parsing), and the
  rule collections the component theories extend.

  Conventions.
  \<^item> A Rust \<open>String\<close> is a HOL \<open>string\<close>, read as its UTF-8 bytes: \<open>char\<close> has 256 values, so
    \<open>length\<close> is \<open>str::len\<close> and \<open>as_bytes\<close> below is \<open>str::as_bytes\<close>.
  \<^item> \<open>i64\<close>, \<open>u64\<close> and \<open>u8\<close> are words. Arithmetic wraps, as it does in the release profile of the
    crate (no overflow checks); \<open>sint\<close> reads a signed value.
  \<^item> \<open>Result<T, E>\<close> is the sum type with \<open>Inl\<close> for \<open>Err\<close>; \<open>Option<T>\<close> is \<open>option\<close>.
\<close>

type_synonym u8 = "8 word"
type_synonym u64 = "64 word"
type_synonym i64 = "64 word"
type_synonym bytes = "8 word list"
type_synonym ('e, 'a) result = "'e + 'a"

named_theorems frame_simps \<open>what an operation leaves unchanged\<close>
named_theorems inv_intros \<open>preservation of the component invariants\<close>

section \<open>Results\<close>

definition map_err :: "('e \<Rightarrow> 'f) \<Rightarrow> ('e, 'a) result \<Rightarrow> ('f, 'a) result" where
  "map_err f r = (case r of Inl e \<Rightarrow> Inl (f e) | Inr x \<Rightarrow> Inr x)"

definition is_ok :: "('e, 'a) result \<Rightarrow> bool" where
  "is_ok r \<longleftrightarrow> (case r of Inl _ \<Rightarrow> False | Inr _ \<Rightarrow> True)"

definition ok :: "('e, 'a) result \<Rightarrow> 'a option" where
  "ok r = (case r of Inl _ \<Rightarrow> None | Inr x \<Rightarrow> Some x)"

definition ok_or :: "'e \<Rightarrow> 'a option \<Rightarrow> ('e, 'a) result" where
  "ok_or e v = (case v of None \<Rightarrow> Inl e | Some x \<Rightarrow> Inr x)"

definition unwrap_or :: "'a \<Rightarrow> 'a option \<Rightarrow> 'a" where
  "unwrap_or d v = (case v of None \<Rightarrow> d | Some x \<Rightarrow> x)"

lemma map_err_simps [simp]:
  "map_err f (Inl e) = Inl (f e)" "map_err f (Inr x) = Inr x"
  by (simp_all add: map_err_def)

lemma is_ok_simps [simp]: "\<not> is_ok (Inl e)" "is_ok (Inr x)"
  by (simp_all add: is_ok_def)

lemma ok_simps [simp]: "ok (Inl e) = None" "ok (Inr x) = Some x"
  by (simp_all add: ok_def)

lemma ok_or_simps [simp]: "ok_or e None = Inl e" "ok_or e (Some x) = Inr x"
  by (simp_all add: ok_or_def)

lemma unwrap_or_simps [simp]: "unwrap_or d None = d" "unwrap_or d (Some x) = x"
  by (simp_all add: unwrap_or_def)

lemma map_err_Inr_iff [simp]: "map_err f r = Inr x \<longleftrightarrow> r = Inr x"
  by (cases r) simp_all

lemma ok_Some_iff [simp]: "ok r = Some x \<longleftrightarrow> r = Inr x"
  by (cases r) simp_all

lemma ok_or_Inr_iff [simp]: "ok_or e v = Inr x \<longleftrightarrow> v = Some x"
  by (cases v) simp_all

text \<open>The \<open>?\<close> operator: an error returns from the function, a value goes on.\<close>

definition bind_result :: "('e, 'a) result \<Rightarrow> ('a \<Rightarrow> ('e, 'b) result) \<Rightarrow> ('e, 'b) result" where
  "bind_result r f = (case r of Inl e \<Rightarrow> Inl e | Inr x \<Rightarrow> f x)"

lemma bind_result_simps [simp]:
  "bind_result (Inl e) f = Inl e" "bind_result (Inr x) f = f x"
  by (simp_all add: bind_result_def)

lemma bind_result_Inr_iff: "bind_result r f = Inr y \<longleftrightarrow> (\<exists>x. r = Inr x \<and> f x = Inr y)"
  by (cases r) simp_all

lemma bind_result_Inl_iff:
  "bind_result r f = Inl e \<longleftrightarrow> r = Inl e \<or> (\<exists>x. r = Inr x \<and> f x = Inl e)"
  by (cases r) simp_all

lemma map_err_Inl_iff: "map_err f r = Inl e \<longleftrightarrow> (\<exists>d. r = Inl d \<and> e = f d)"
  by (cases r) auto

lemma bind_result_cong [fundef_cong]:
  "r = r' \<Longrightarrow> (\<And>x. r' = Inr x \<Longrightarrow> f x = f' x) \<Longrightarrow> bind_result r f = bind_result r' f'"
  by (cases r') simp_all

lemma ok_or_Inl_iff [simp]: "ok_or e v = Inl d \<longleftrightarrow> v = None \<and> d = e"
  by (cases v) auto

text \<open>\<open>iter.collect::<Result<Vec<_>, _>>()\<close>: the first error stops the collection.\<close>

fun collect_results :: "('a \<Rightarrow> ('e, 'b) result) \<Rightarrow> 'a list \<Rightarrow> ('e, 'b list) result" where
  "collect_results f [] = Inr []"
| "collect_results f (x # xs) =
     (case f x of
        Inl e \<Rightarrow> Inl e
      | Inr y \<Rightarrow> (case collect_results f xs of Inl e \<Rightarrow> Inl e | Inr ys \<Rightarrow> Inr (y # ys)))"

lemma collect_results_Inr:
  "collect_results f xs = Inr ys \<longleftrightarrow> list_all2 (\<lambda>x y. f x = Inr y) xs ys"
proof (induction xs arbitrary: ys)
  case Nil
  then show ?case by auto
next
  case (Cons x xs)
  then show ?case
    by (cases "f x"; cases "collect_results f xs") (force simp: list_all2_Cons1)+
qed

section \<open>Strings\<close>

definition as_bytes :: "string \<Rightarrow> bytes" where
  "as_bytes s = map of_char s"

lemma length_as_bytes [simp]: "length (as_bytes s) = length s"
  by (simp add: as_bytes_def)

lemma of_char_u8_inject: "(of_char c :: u8) = of_char d \<longleftrightarrow> c = d"
proof
  assume "(of_char c :: u8) = of_char d"
  then have "(of_nat (of_char c) :: u8) = of_nat (of_char d)"
    by (simp only: of_nat_of_char)
  then have "unat (of_nat (of_char c) :: u8) = unat (of_nat (of_char d) :: u8)"
    by (rule arg_cong)
  moreover have "unat (of_nat (of_char e) :: u8) = of_char e" for e
    using nat_of_char_less_256 [of e] by (simp only: unat_of_nat) simp
  ultimately have "(of_char c :: nat) = of_char d" by simp
  then show "c = d" by simp
qed simp

lemma as_bytes_inject [simp]: "as_bytes s = as_bytes t \<longleftrightarrow> s = t"
proof -
  have "inj (of_char :: char \<Rightarrow> u8)"
    by (rule injI) (simp only: of_char_u8_inject)
  then show ?thesis by (simp add: as_bytes_def inj_map_eq_map)
qed

definition starts_with :: "string \<Rightarrow> string \<Rightarrow> bool" where
  "starts_with s p \<longleftrightarrow> take (length p) s = p"

lemma starts_with_iff: "starts_with s p \<longleftrightarrow> (\<exists>t. s = p @ t)"
  by (metis append_eq_conv_conj append_take_drop_id starts_with_def)

lemma starts_with_shorter:
  "p \<noteq> [] \<Longrightarrow> starts_with s p \<Longrightarrow> length s - length p < length s"
  by (cases s; cases p) (auto simp: starts_with_def)

fun str_contains :: "string \<Rightarrow> string \<Rightarrow> bool" where
  "str_contains [] p = starts_with [] p"
| "str_contains (c # s) p = (starts_with (c # s) p \<or> str_contains s p)"

lemma str_contains_iff: "str_contains s p \<longleftrightarrow> (\<exists>u t. s = u @ p @ t)"
proof (induction s)
  case Nil
  then show ?case by (simp add: starts_with_iff)
next
  case (Cons c s)
  have "(\<exists>u t. c # s = u @ p @ t) \<longleftrightarrow> (\<exists>t. c # s = p @ t) \<or> (\<exists>u t. s = u @ p @ t)"
    by (metis append_Cons append_Nil list.inject neq_Nil_conv)
  with Cons show ?case by (simp add: starts_with_iff)
qed

text \<open>
  \<open>str::split\<close> with a non-empty pattern: the pieces between the leftmost non-overlapping matches.
\<close>

function split_from :: "string \<Rightarrow> string \<Rightarrow> string \<Rightarrow> string list" where
  "split_from p acc s =
     (if p \<noteq> [] \<and> starts_with s p then rev acc # split_from p [] (drop (length p) s)
      else (case s of [] \<Rightarrow> [rev acc] | c # cs \<Rightarrow> split_from p (c # acc) cs))"
  by pat_completeness auto
termination
  by (relation "measure (\<lambda>(p, acc, s). length s)") (auto simp: starts_with_shorter)

declare split_from.simps [simp del]

definition str_split :: "string \<Rightarrow> string \<Rightarrow> string list" where
  "str_split s p = split_from p [] s"

lemma split_from_not_Nil [simp]: "split_from p acc s \<noteq> []"
  by (induction p acc s rule: split_from.induct)
    (subst split_from.simps, auto split: list.splits)

lemma str_split_not_Nil [simp]: "str_split s p \<noteq> []"
  by (simp add: str_split_def)

text \<open>No match left: the rest is one piece.\<close>

lemma split_from_no_match:
  "p \<noteq> [] \<Longrightarrow> \<not> str_contains s p \<Longrightarrow> split_from p acc s = [rev acc @ s]"
proof (induction s arbitrary: acc)
  case Nil
  then show ?case by (subst split_from.simps) (simp add: starts_with_def)
next
  case (Cons c s)
  from Cons.prems have no: "\<not> starts_with (c # s) p" and rest: "\<not> str_contains s p" by simp_all
  have "split_from p acc (c # s) = split_from p (c # acc) s"
    using no by (subst split_from.simps) simp
  also have "\<dots> = [rev (c # acc) @ s]"
    by (rule Cons.IH [OF Cons.prems(1) rest])
  finally show ?case by simp
qed

text \<open>
  \<open>str::trim\<close> on strings that come out of an HTTP header (visible ASCII, space and tab): the
  ASCII part of \<open>White_Space\<close> is all that can occur there.
\<close>

definition is_ascii_space :: "char \<Rightarrow> bool" where
  "is_ascii_space c \<longleftrightarrow> (let n = (of_char c :: nat) in n = 32 \<or> (9 \<le> n \<and> n \<le> 13))"

definition trim :: "string \<Rightarrow> string" where
  "trim s = rev (dropWhile is_ascii_space (rev (dropWhile is_ascii_space s)))"

text \<open>\<open>str::to_lowercase\<close> on ASCII, which is all that occurs in Move type names and package ids.\<close>

definition to_lower_char :: "char \<Rightarrow> char" where
  "to_lower_char c =
     (let n = (of_char c :: nat) in if 65 \<le> n \<and> n \<le> 90 then char_of (n + 32) else c)"

definition to_lowercase :: "string \<Rightarrow> string" where
  "to_lowercase s = map to_lower_char s"

lemma to_lowercase_append [simp]: "to_lowercase (s @ t) = to_lowercase s @ to_lowercase t"
  by (simp add: to_lowercase_def)

lemma length_to_lowercase [simp]: "length (to_lowercase s) = length s"
  by (simp add: to_lowercase_def)

text \<open>\<open>str::trim_start_matches(p)\<close>: the prefix \<open>p\<close> is removed as often as it occurs.\<close>

function trim_start_matches :: "string \<Rightarrow> string \<Rightarrow> string" where
  "trim_start_matches p s =
     (if p \<noteq> [] \<and> starts_with s p then trim_start_matches p (drop (length p) s) else s)"
  by pat_completeness auto
termination
  by (relation "measure (\<lambda>(p, s). length s)") (auto simp: starts_with_shorter)

declare trim_start_matches.simps [simp del]

section \<open>Decimal numbers\<close>

definition digit_char :: "nat \<Rightarrow> char" where
  "digit_char d = char_of (48 + d)"

definition is_digit :: "char \<Rightarrow> bool" where
  "is_digit c \<longleftrightarrow> 48 \<le> (of_char c :: nat) \<and> (of_char c :: nat) \<le> 57"

definition digit_val :: "char \<Rightarrow> nat" where
  "digit_val c = of_char c - 48"

lemma of_digit_char: "d < 10 \<Longrightarrow> of_char (digit_char d) = 48 + d"
  by (simp add: digit_char_def of_char_of)

lemma digit_char_props [simp]:
  "d < 10 \<Longrightarrow> is_digit (digit_char d)" "d < 10 \<Longrightarrow> digit_val (digit_char d) = d"
  by (simp_all add: is_digit_def digit_val_def of_digit_char)

fun show_nat :: "nat \<Rightarrow> string" where
  "show_nat n =
     (if n < 10 then [digit_char n] else show_nat (n div 10) @ [digit_char (n mod 10)])"

declare show_nat.simps [simp del]

definition show_int :: "int \<Rightarrow> string" where
  "show_int i = (if i < 0 then ''-'' @ show_nat (nat (- i)) else show_nat (nat i))"

text \<open>\<open>Display\<close> of an \<open>i64\<close>.\<close>

definition show_i64 :: "i64 \<Rightarrow> string" where
  "show_i64 w = show_int (sint w)"

fun digits_value :: "nat \<Rightarrow> string \<Rightarrow> nat" where
  "digits_value acc [] = acc"
| "digits_value acc (c # cs) = digits_value (10 * acc + digit_val c) cs"

lemma digits_value_snoc: "digits_value acc (s @ [c]) = 10 * digits_value acc s + digit_val c"
  by (induction s arbitrary: acc) simp_all

lemma show_nat_digits: "\<forall>c\<in>set (show_nat n). is_digit c"
proof (induction n rule: show_nat.induct)
  case (1 n)
  then show ?case by (subst show_nat.simps) auto
qed

lemma show_nat_not_Nil [simp]: "show_nat n \<noteq> []"
  by (subst show_nat.simps) simp

lemma digits_value_show_nat: "digits_value 0 (show_nat n) = n"
proof (induction n rule: show_nat.induct)
  case (1 n)
  then show ?case
    by (cases "n < 10"; subst show_nat.simps) (simp_all add: digits_value_snoc)
qed

text \<open>
  \<open>str::parse\<close> for an integer type with the given bounds: an optional sign (\<open>-\<close> for signed types
  only), then one or more digits, then a range check.
\<close>

definition parse_digits :: "string \<Rightarrow> nat option" where
  "parse_digits s = (if s \<noteq> [] \<and> list_all is_digit s then Some (digits_value 0 s) else None)"

definition parse_signed :: "string \<Rightarrow> int option" where
  "parse_signed s =
     (case s of
        [] \<Rightarrow> None
      | c # cs \<Rightarrow>
          (if c = CHR ''-'' then map_option (\<lambda>n. - int n) (parse_digits cs)
           else if c = CHR ''+'' then map_option int (parse_digits cs)
           else map_option int (parse_digits s)))"

definition parse_i64 :: "string \<Rightarrow> i64 option" where
  "parse_i64 s =
     (case parse_signed s of
        None \<Rightarrow> None
      | Some i \<Rightarrow> (if - (2 ^ 63) \<le> i \<and> i < 2 ^ 63 then Some (word_of_int i) else None))"

definition parse_unsigned :: "nat \<Rightarrow> string \<Rightarrow> nat option" where
  "parse_unsigned width s =
     (let body = (case s of [] \<Rightarrow> [] | c # cs \<Rightarrow> if c = CHR ''+'' then cs else s)
      in case parse_digits body of
           None \<Rightarrow> None
         | Some n \<Rightarrow> (if n < 2 ^ width then Some n else None))"

lemma is_digit_not_sign:
  "is_digit c \<Longrightarrow> c \<noteq> CHR ''-''" "is_digit c \<Longrightarrow> c \<noteq> CHR ''+''" "is_digit c \<Longrightarrow> c \<noteq> CHR '':''"
  by (auto simp: is_digit_def)

lemma parse_digits_show_nat [simp]: "parse_digits (show_nat n) = Some n"
  using show_nat_digits [of n] by (simp add: parse_digits_def list_all_iff digits_value_show_nat)

lemma parse_signed_show_int: "parse_signed (show_int i) = Some i"
proof (cases "i < 0")
  case True
  then show ?thesis by (simp add: show_int_def parse_signed_def)
next
  case False
  obtain c cs where c: "show_nat (nat i) = c # cs" by (cases "show_nat (nat i)") auto
  with show_nat_digits [of "nat i"] have "is_digit c" by simp
  from is_digit_not_sign [OF this] c False parse_digits_show_nat [of "nat i"] show ?thesis
    by (simp add: show_int_def parse_signed_def)
qed

lemma sint_i64_bounds: "- (2 ^ 63) \<le> sint (w :: i64)" "sint (w :: i64) < 2 ^ 63"
  using sint_ge [of w] sint_lt [of w] by simp_all

lemma parse_show_i64: "parse_i64 (show_i64 w) = Some w"
  using sint_i64_bounds [of w] by (simp add: parse_i64_def show_i64_def parse_signed_show_int)

lemma show_i64_inject [simp]: "show_i64 v = show_i64 w \<longleftrightarrow> v = w"
  by (metis option.inject parse_show_i64)

lemma show_i64_no_colon: "CHR '':'' \<notin> set (show_i64 w)"
  using show_nat_digits [of "nat (- sint w)"] show_nat_digits [of "nat (sint w)"]
  by (auto simp: show_i64_def show_int_def dest: is_digit_not_sign)

text \<open>The padding of \<open>{:>w}\<close> and \<open>{: >w}\<close> on the left; it never truncates.\<close>

definition pad_left :: "nat \<Rightarrow> string \<Rightarrow> string" where
  "pad_left w s = replicate (w - length s) CHR '' '' @ s"

lemma length_pad_left [simp]: "length (pad_left w s) = max w (length s)"
  by (simp add: pad_left_def)

section \<open>Colon-separated text\<close>

text \<open>
  The messages that clients sign are fields joined by colons. A field without colons can be read
  back from either end.
\<close>

lemma append_sep_inject:
  assumes "u @ c # s = v @ c # t" and "c \<notin> set u" and "c \<notin> set v"
  shows "u = v \<and> s = t"
  using assms
proof (induction u arbitrary: v)
  case Nil
  then show ?case by (cases v) auto
next
  case (Cons x u)
  then obtain y v' where v: "v = y # v'" by (cases v) auto
  with Cons show ?case by auto
qed

lemma append_sep_inject_right:
  assumes "u @ c # s = v @ c # t" and "c \<notin> set s" and "c \<notin> set t"
  shows "u = v \<and> s = t"
proof -
  have "rev s @ c # rev u = rev t @ c # rev v"
    using arg_cong [OF assms(1), of rev] by simp
  from append_sep_inject [OF this] assms(2,3) show ?thesis by simp
qed

section \<open>Lists\<close>

lemma map_filter_set: "set (List.map_filter f xs) = {y. \<exists>x\<in>set xs. f x = Some y}"
  by (induction xs) (auto simp: List.map_filter_simps split: option.splits)

lemma sorted_map_take: "sorted (map f xs) \<Longrightarrow> sorted (map f (take n xs))"
  by (metis sorted_wrt_take take_map)

end
