(* ===== verification/Externals.thy ===== *)
theory Externals
  imports Prelude
begin

text \<open>
  The third-party crates the relayer calls, as parameters: one record of functions that every
  definition calling them takes as its argument \<open>X\<close>. Nothing is assumed of the fields here. What
  the code relies on is stated where it is used: as a locale (\<open>hex_codec\<close>) or as a named hypothesis
  of the property.

  \<open>ref_externs\<close> is one concrete instance, used by the witnesses and the interpretations: a hex codec
  with the documented behaviour of the \<open>hex\<close> crate, and small stand-ins for the cryptography.
\<close>

type_synonym uuid = "128 word"

text \<open>A \<open>chrono::DateTime<Utc>\<close>: nanoseconds since the epoch.\<close>

type_synonym datetime = int

record 'us externs =
  x_hex_encode :: "bytes \<Rightarrow> string"
  x_hex_decode :: "string \<Rightarrow> (string, bytes) result"
  x_uuid_display :: "uuid \<Rightarrow> string"
  x_header_to_str :: "bytes \<Rightarrow> string option"
  x_user_sig_from_bytes :: "bytes \<Rightarrow> (string, 'us) result"
  x_verify_personal :: "bytes \<Rightarrow> 'us \<Rightarrow> (string, unit) result"
  x_blake2b256 :: "bytes \<Rightarrow> bytes"
  x_unix_secs :: "datetime \<Rightarrow> i64"
  x_unix_millis :: "datetime \<Rightarrow> i64"

section \<open>The contract of the hex codec\<close>

locale hex_codec =
  fixes enc :: "bytes \<Rightarrow> string"
    and dec :: "string \<Rightarrow> (string, bytes) result"
  assumes dec_enc: "dec (enc bs) = Inr bs"
    and length_enc: "length (enc bs) = 2 * length bs"
    and length_dec: "dec s = Inr bs \<Longrightarrow> length s = 2 * length bs"
    and dec_no_colon: "dec s = Inr bs \<Longrightarrow> CHR '':'' \<notin> set s"
begin

lemma enc_inject: "enc bs = enc cs \<longleftrightarrow> bs = cs"
  by (metis dec_enc sum.inject(2))

lemma enc_no_colon: "CHR '':'' \<notin> set (enc bs)"
  by (rule dec_no_colon [OF dec_enc])

end

section \<open>A codec with the documented behaviour of the hex crate\<close>

definition hex_digit :: "nat \<Rightarrow> char" where
  "hex_digit n = (if n < 10 then char_of (48 + n) else char_of (87 + n))"

definition hex_encode :: "bytes \<Rightarrow> string" where
  "hex_encode bs = concat (map (\<lambda>b. [hex_digit (unat b div 16), hex_digit (unat b mod 16)]) bs)"

definition hex_val :: "char \<Rightarrow> nat option" where
  "hex_val c =
     (let n = (of_char c :: nat)
      in if 48 \<le> n \<and> n \<le> 57 then Some (n - 48)
         else if 97 \<le> n \<and> n \<le> 102 then Some (n - 87)
         else if 65 \<le> n \<and> n \<le> 70 then Some (n - 55)
         else None)"

fun hex_pairs :: "nat \<Rightarrow> string \<Rightarrow> (string, bytes) result" where
  "hex_pairs i (c # d # cs) =
     (case hex_val c of
        None \<Rightarrow> Inl (''Invalid character at position '' @ show_nat i)
      | Some h \<Rightarrow>
          (case hex_val d of
             None \<Rightarrow> Inl (''Invalid character at position '' @ show_nat (Suc i))
           | Some l \<Rightarrow>
               (case hex_pairs (i + 2) cs of
                  Inl e \<Rightarrow> Inl e
                | Inr bs \<Rightarrow> Inr (of_nat (16 * h + l) # bs))))"
| "hex_pairs i _ = Inr []"

definition hex_decode :: "string \<Rightarrow> (string, bytes) result" where
  "hex_decode s = (if odd (length s) then Inl ''Odd number of digits'' else hex_pairs 0 s)"

lemma hex_val_digit: "n < 16 \<Longrightarrow> hex_val (hex_digit n) = Some n"
  by (auto simp: hex_val_def hex_digit_def Let_def of_char_of)

lemma u8_nibbles: "(of_nat (16 * (unat (b :: u8) div 16) + unat b mod 16) :: u8) = b"
  by (simp add: mult.commute [of 16])

lemma u8_nibble_less: "unat (b :: u8) div 16 < 16" "unat (b :: u8) mod 16 < 16"
  using unsigned_less [of b, where ?'a = nat] by simp_all

lemma hex_pairs_encode: "hex_pairs i (hex_encode bs) = Inr bs"
proof (induction bs arbitrary: i)
  case Nil
  then show ?case by (simp add: hex_encode_def)
next
  case (Cons b bs)
  have "hex_encode (b # bs) =
      hex_digit (unat b div 16) # hex_digit (unat b mod 16) # hex_encode bs"
    by (simp add: hex_encode_def)
  then show ?case
    by (simp only: hex_pairs.simps hex_val_digit [OF u8_nibble_less(1)]
        hex_val_digit [OF u8_nibble_less(2)] option.case Cons.IH sum.case u8_nibbles)
qed

lemma length_hex_encode [simp]: "length (hex_encode bs) = 2 * length bs"
  by (induction bs) (simp_all add: hex_encode_def)

lemma hex_pairs_length: "hex_pairs i s = Inr bs \<Longrightarrow> even (length s) \<Longrightarrow> length s = 2 * length bs"
  by (induction i s arbitrary: bs rule: hex_pairs.induct)
    (auto split: option.splits sum.splits)

lemma hex_val_colon: "hex_val CHR '':'' = None"
  by (simp add: hex_val_def)

lemma hex_pairs_no_colon:
  "hex_pairs i s = Inr bs \<Longrightarrow> even (length s) \<Longrightarrow> CHR '':'' \<notin> set s"
  by (induction i s arbitrary: bs rule: hex_pairs.induct)
    (auto split: option.splits sum.splits simp: hex_val_colon)

interpretation hx: hex_codec hex_encode hex_decode
proof unfold_locales
  show "hex_decode (hex_encode bs) = Inr bs" for bs
    by (simp add: hex_decode_def hex_pairs_encode)
  show "length (hex_encode bs) = 2 * length bs" for bs
    by simp
  show "hex_decode s = Inr bs \<Longrightarrow> length s = 2 * length bs" for s bs
    by (auto simp: hex_decode_def hex_pairs_length split: if_splits)
  show "hex_decode s = Inr bs \<Longrightarrow> CHR '':'' \<notin> set s" for s bs
    by (auto simp: hex_decode_def hex_pairs_no_colon split: if_splits)
qed

section \<open>A concrete instance of all parameters\<close>

text \<open>
  The stand-in for \<open>verify_personal_message\<close> accepts a serialized signature whose first signature
  byte is the sum of the message bytes; the stand-in for Blake2b-256 keeps the first 32 bytes. They
  have no cryptographic strength and serve to evaluate the model.
\<close>

definition ref_verify :: "bytes \<Rightarrow> bytes \<Rightarrow> (string, unit) result" where
  "ref_verify m sg = (if take 1 (drop 1 sg) = [sum_list m] then Inr () else Inl ''invalid signature'')"

definition ref_header_to_str :: "bytes \<Rightarrow> string option" where
  "ref_header_to_str bs =
     (if list_all (\<lambda>b. (32 \<le> b \<and> b < 127) \<or> b = 9) bs then Some (map (\<lambda>b. char_of (unat b)) bs)
      else None)"

definition ref_externs :: "bytes externs" where
  "ref_externs =
     \<lparr> x_hex_encode = hex_encode,
       x_hex_decode = hex_decode,
       x_uuid_display = (\<lambda>u. show_nat (unat u)),
       x_header_to_str = ref_header_to_str,
       x_user_sig_from_bytes = Inr,
       x_verify_personal = ref_verify,
       x_blake2b256 = (\<lambda>bs. take 32 bs),
       x_unix_secs = (\<lambda>t. word_of_int (t div 1000000000)),
       x_unix_millis = (\<lambda>t. word_of_int (t div 1000000)) \<rparr>"

lemma ref_externs_sel [simp]:
  "x_hex_encode ref_externs = hex_encode"
  "x_hex_decode ref_externs = hex_decode"
  "x_uuid_display ref_externs = (\<lambda>u. show_nat (unat u))"
  "x_header_to_str ref_externs = ref_header_to_str"
  "x_user_sig_from_bytes ref_externs = Inr"
  "x_verify_personal ref_externs = ref_verify"
  "x_blake2b256 ref_externs = (\<lambda>bs. take 32 bs)"
  "x_unix_secs ref_externs = (\<lambda>t. word_of_int (t div 1000000000))"
  "x_unix_millis ref_externs = (\<lambda>t. word_of_int (t div 1000000))"
  by (simp_all add: ref_externs_def)

end
