(* ===== verification/Message_Model.thy ===== *)
theory Message_Model
  imports Prelude Externals
begin

text \<open>
  \<open>src/relayer/src/models\<close>: messages, their synchronisation status and attachments (\<open>message.rs\<close>,
  \<open>attachment.rs\<close>), and the membership record of \<open>membership.rs\<close>. \<open>Utc::now()\<close> and \<open>Uuid::new_v4()\<close>
  are arguments.
\<close>

record attachment =
  att_storage_id :: string
  att_nonce :: bytes
  att_encrypted_metadata :: bytes
  att_metadata_nonce :: bytes

datatype sync_status = SyncPending | Synced | UpdatePending | Updated | DeletePending | Deleted

definition default_sync_status :: sync_status where
  "default_sync_status = SyncPending"

fun sync_status_display :: "sync_status \<Rightarrow> string" where
  "sync_status_display SyncPending = ''SYNC_PENDING''"
| "sync_status_display Synced = ''SYNCED''"
| "sync_status_display UpdatePending = ''UPDATE_PENDING''"
| "sync_status_display Updated = ''UPDATED''"
| "sync_status_display DeletePending = ''DELETE_PENDING''"
| "sync_status_display Deleted = ''DELETED''"

record message =
  msg_id :: uuid
  msg_group_id :: string
  msg_order :: "i64 option"
  msg_sender_wallet_addr :: string
  msg_encrypted_msg :: bytes
  msg_nonce :: bytes
  msg_key_version :: i64
  msg_created_at :: datetime
  msg_updated_at :: datetime
  msg_sync_status :: sync_status
  msg_quilt_patch_id :: "string option"
  msg_attachments :: "attachment list"
  msg_signature :: bytes
  msg_public_key :: bytes

definition message_new ::
  "datetime \<Rightarrow> uuid \<Rightarrow> string \<Rightarrow> string \<Rightarrow> bytes \<Rightarrow> bytes \<Rightarrow> i64 \<Rightarrow> attachment list \<Rightarrow> bytes \<Rightarrow> bytes \<Rightarrow> message" where
  "message_new now uuid group_id sender_wallet_addr encrypted_msg nonce key_version attachments
      signature public_key =
     \<lparr> msg_id = uuid,
       msg_group_id = group_id,
       msg_order = None,
       msg_sender_wallet_addr = sender_wallet_addr,
       msg_encrypted_msg = encrypted_msg,
       msg_nonce = nonce,
       msg_key_version = key_version,
       msg_created_at = now,
       msg_updated_at = now,
       msg_sync_status = default_sync_status,
       msg_quilt_patch_id = None,
       msg_attachments = attachments,
       msg_signature = signature,
       msg_public_key = public_key \<rparr>"

definition set_order :: "i64 \<Rightarrow> message \<Rightarrow> message" where
  "set_order order m = m\<lparr>msg_order := Some order\<rparr>"

definition mark_synced :: "datetime \<Rightarrow> string \<Rightarrow> message \<Rightarrow> message" where
  "mark_synced now quilt_patch_id m =
     m\<lparr>msg_sync_status := Synced, msg_quilt_patch_id := Some quilt_patch_id, msg_updated_at := now\<rparr>"

definition mark_for_deletion :: "datetime \<Rightarrow> message \<Rightarrow> message" where
  "mark_for_deletion now m = m\<lparr>msg_sync_status := DeletePending, msg_updated_at := now\<rparr>"

definition update_content ::
  "datetime \<Rightarrow> bytes \<Rightarrow> bytes \<Rightarrow> i64 \<Rightarrow> attachment list \<Rightarrow> bytes \<Rightarrow> bytes \<Rightarrow> message \<Rightarrow> message" where
  "update_content now encrypted_msg nonce key_version attachments signature public_key m =
     m\<lparr> msg_encrypted_msg := encrypted_msg,
        msg_nonce := nonce,
        msg_key_version := key_version,
        msg_attachments := attachments,
        msg_signature := signature,
        msg_public_key := public_key,
        msg_sync_status := UpdatePending,
        msg_updated_at := now \<rparr>"

text \<open>The identity of a message: what no operation on a stored message may change.\<close>

definition same_identity :: "message \<Rightarrow> message \<Rightarrow> bool" where
  "same_identity m n \<longleftrightarrow> msg_id n = msg_id m \<and> msg_group_id n = msg_group_id m \<and>
     msg_order n = msg_order m \<and> msg_sender_wallet_addr n = msg_sender_wallet_addr m \<and>
     msg_created_at n = msg_created_at m"

lemma same_identity_refl [simp]: "same_identity m m"
  by (simp add: same_identity_def)

lemma same_identity_trans [trans]: "same_identity a b \<Longrightarrow> same_identity b c \<Longrightarrow> same_identity a c"
  by (simp add: same_identity_def)

lemma same_identity_ops [simp]:
  "same_identity m (mark_for_deletion now m)"
  "same_identity m (mark_synced now q m)"
  "same_identity m (update_content now e n k a s p m)"
  by (simp_all add: same_identity_def mark_for_deletion_def mark_synced_def update_content_def)

section \<open>models/membership.rs\<close>

record group_membership =
  gm_group_id :: string
  gm_member_address :: string
  gm_created_at :: datetime
  gm_last_synced_at :: datetime

definition group_membership_new :: "datetime \<Rightarrow> string \<Rightarrow> string \<Rightarrow> group_membership" where
  "group_membership_new now group_id member_address =
     \<lparr>gm_group_id = group_id, gm_member_address = member_address,
      gm_created_at = now, gm_last_synced_at = now\<rparr>"

definition group_membership_touch :: "datetime \<Rightarrow> group_membership \<Rightarrow> group_membership" where
  "group_membership_touch now g = g\<lparr>gm_last_synced_at := now\<rparr>"

end
