(* ===== verification/Storage_Adapter.thy ===== *)
theory Storage_Adapter
  imports Message_Model
begin

text \<open>
  \<open>src/relayer/src/storage/adapter.rs\<close>: the storage errors, the trait \<open>StorageAdapter\<close> as a record of
  operations over a state type, and what its callers may rely on, as the locale \<open>storage_contract\<close>.
  The abstract state of a storage is its table of messages by id.
\<close>

datatype storage_error =
    NotFound uuid
  | GroupNotFound string
  | DuplicateId uuid
  | DuplicateNonce
  | OperationFailed string

fun storage_error_display :: "'us externs \<Rightarrow> storage_error \<Rightarrow> string" where
  "storage_error_display X (NotFound mid) = ''Message not found: '' @ x_uuid_display X mid"
| "storage_error_display X (GroupNotFound g) = ''Group not found: '' @ g"
| "storage_error_display X (DuplicateId mid) = ''Duplicate message ID: '' @ x_uuid_display X mid"
| "storage_error_display X DuplicateNonce =
     ''Duplicate nonce: a message with this nonce already exists''"
| "storage_error_display X (OperationFailed msg) = ''Storage operation failed: '' @ msg"

type_synonym 'a storage_result = "(storage_error, 'a) result"

record 's storage_adapter =
  sa_health_check :: "'s \<Rightarrow> unit storage_result"
  sa_create_message :: "message \<Rightarrow> 's \<Rightarrow> message storage_result \<times> 's"
  sa_get_message :: "uuid \<Rightarrow> 's \<Rightarrow> message storage_result"
  sa_get_messages_by_group ::
    "string \<Rightarrow> i64 option \<Rightarrow> i64 option \<Rightarrow> nat \<Rightarrow> 's \<Rightarrow> message list storage_result"
  sa_update_message ::
    "datetime \<Rightarrow> uuid \<Rightarrow> bytes \<Rightarrow> bytes \<Rightarrow> i64 \<Rightarrow> attachment list \<Rightarrow> bytes \<Rightarrow> bytes \<Rightarrow> 's
     \<Rightarrow> message storage_result \<times> 's"
  sa_delete_message :: "datetime \<Rightarrow> uuid \<Rightarrow> 's \<Rightarrow> message storage_result \<times> 's"
  sa_update_sync_status ::
    "datetime \<Rightarrow> uuid \<Rightarrow> sync_status \<Rightarrow> string option \<Rightarrow> 's \<Rightarrow> message storage_result \<times> 's"
  sa_get_messages_by_sync_status :: "sync_status \<Rightarrow> nat \<Rightarrow> 's \<Rightarrow> message list storage_result"

section \<open>The abstract operations on the table\<close>

type_synonym message_table = "uuid \<rightharpoonup> message"

definition order_key :: "message \<Rightarrow> int" where
  "order_key m = sint (unwrap_or 0 (msg_order m))"

text \<open>The order filter of a page request: both bounds exclusive, applied together.\<close>

definition in_page :: "i64 option \<Rightarrow> i64 option \<Rightarrow> message \<Rightarrow> bool" where
  "in_page after_order before_order m \<longleftrightarrow>
     (case after_order of None \<Rightarrow> True | Some a \<Rightarrow> sint a < order_key m) \<and>
     (case before_order of None \<Rightarrow> True | Some b \<Rightarrow> order_key m < sint b)"

definition nonce_used :: "message_table \<Rightarrow> bytes \<Rightarrow> bool" where
  "nonce_used t n \<longleftrightarrow> (\<exists>m\<in>ran t. msg_nonce m = n)"

definition nonce_used_by_other :: "message_table \<Rightarrow> uuid \<Rightarrow> bytes \<Rightarrow> bool" where
  "nonce_used_by_other t mid n \<longleftrightarrow> (\<exists>j m. j \<noteq> mid \<and> t j = Some m \<and> msg_nonce m = n)"

definition set_sync_status :: "datetime \<Rightarrow> sync_status \<Rightarrow> string option \<Rightarrow> message \<Rightarrow> message" where
  "set_sync_status now status quilt_patch_id m =
     (let m1 = m\<lparr>msg_sync_status := status, msg_updated_at := now\<rparr>
      in case quilt_patch_id of
           None \<Rightarrow> m1
         | Some patch_id \<Rightarrow> m1\<lparr>msg_quilt_patch_id := Some patch_id\<rparr>)"

lemma same_identity_set_sync_status [simp]: "same_identity m (set_sync_status now st q m)"
  by (cases q) (simp_all add: same_identity_def set_sync_status_def Let_def)

text \<open>Every message that is in the first table is in the second, with the same identity.\<close>

definition keeps_identities :: "message_table \<Rightarrow> message_table \<Rightarrow> bool" where
  "keeps_identities t u \<longleftrightarrow> (\<forall>mid m. t mid = Some m \<longrightarrow> (\<exists>n. u mid = Some n \<and> same_identity m n))"

lemma keeps_identities_refl [simp]: "keeps_identities t t"
  by (simp add: keeps_identities_def)

lemma keeps_identities_trans [trans]:
  "keeps_identities t u \<Longrightarrow> keeps_identities u v \<Longrightarrow> keeps_identities t v"
  unfolding keeps_identities_def by (meson same_identity_trans)

lemma keeps_identities_new: "t mid = None \<Longrightarrow> keeps_identities t (t(mid \<mapsto> m))"
  by (auto simp: keeps_identities_def)

lemma keeps_identities_upd: "t mid = Some m \<Longrightarrow> same_identity m n \<Longrightarrow> keeps_identities t (t(mid \<mapsto> n))"
  by (auto simp: keeps_identities_def)

section \<open>The contract\<close>

text \<open>
  \<open>room s g\<close>: the group still has an unused order number. \<open>fresh_order\<close> in \<open>create_ok\<close>: the number a
  new message gets is above every number already given in its group.
\<close>

locale storage_contract =
  fixes SA :: "'s storage_adapter"
    and inv :: "'s \<Rightarrow> bool"
    and table :: "'s \<Rightarrow> message_table"
    and room :: "'s \<Rightarrow> string \<Rightarrow> bool"
  assumes health: "sa_health_check SA s = Inr ()"
    and get: "inv s \<Longrightarrow> sa_get_message SA mid s = ok_or (NotFound mid) (table s mid)"
    and keyed: "inv s \<Longrightarrow> table s mid = Some m \<Longrightarrow> msg_id m = mid"
    and create_inv: "inv s \<Longrightarrow> room s (msg_group_id m) \<Longrightarrow> inv (snd (sa_create_message SA m s))"
    and create_dup_id: "inv s \<Longrightarrow> table s (msg_id m) \<noteq> None \<Longrightarrow>
      fst (sa_create_message SA m s) = Inl (DuplicateId (msg_id m)) \<and>
      table (snd (sa_create_message SA m s)) = table s"
    and create_dup_nonce: "inv s \<Longrightarrow> table s (msg_id m) = None \<Longrightarrow> nonce_used (table s) (msg_nonce m) \<Longrightarrow>
      fst (sa_create_message SA m s) = Inl DuplicateNonce \<and>
      table (snd (sa_create_message SA m s)) = table s"
    and create_ok: "inv s \<Longrightarrow> table s (msg_id m) = None \<Longrightarrow> \<not> nonce_used (table s) (msg_nonce m) \<Longrightarrow>
      room s (msg_group_id m) \<Longrightarrow>
      \<exists>o'. fst (sa_create_message SA m s) = Inr (set_order o' m) \<and>
        table (snd (sa_create_message SA m s)) = (table s)(msg_id m \<mapsto> set_order o' m) \<and>
        0 < sint o' \<and>
        (\<forall>n\<in>ran (table s). msg_group_id n = msg_group_id m \<longrightarrow> order_key n < sint o')"
    and update_inv: "inv s \<Longrightarrow> inv (snd (sa_update_message SA now mid e n k a sg pk s))"
    and update_missing: "inv s \<Longrightarrow> table s mid = None \<Longrightarrow>
      sa_update_message SA now mid e n k a sg pk s = (Inl (NotFound mid), s)"
    and update_dup_nonce: "inv s \<Longrightarrow> table s mid = Some m \<Longrightarrow> nonce_used_by_other (table s) mid n \<Longrightarrow>
      sa_update_message SA now mid e n k a sg pk s = (Inl DuplicateNonce, s)"
    and update_ok: "inv s \<Longrightarrow> table s mid = Some m \<Longrightarrow> \<not> nonce_used_by_other (table s) mid n \<Longrightarrow>
      fst (sa_update_message SA now mid e n k a sg pk s) = Inr (update_content now e n k a sg pk m) \<and>
      table (snd (sa_update_message SA now mid e n k a sg pk s)) =
        (table s)(mid \<mapsto> update_content now e n k a sg pk m)"
    and delete_inv: "inv s \<Longrightarrow> inv (snd (sa_delete_message SA now mid s))"
    and delete_missing: "inv s \<Longrightarrow> table s mid = None \<Longrightarrow>
      sa_delete_message SA now mid s = (Inl (NotFound mid), s)"
    and delete_ok: "inv s \<Longrightarrow> table s mid = Some m \<Longrightarrow>
      fst (sa_delete_message SA now mid s) = Inr (mark_for_deletion now m) \<and>
      table (snd (sa_delete_message SA now mid s)) = (table s)(mid \<mapsto> mark_for_deletion now m)"
    and sync_inv: "inv s \<Longrightarrow> inv (snd (sa_update_sync_status SA now mid st q s))"
    and sync_missing: "inv s \<Longrightarrow> table s mid = None \<Longrightarrow>
      sa_update_sync_status SA now mid st q s = (Inl (NotFound mid), s)"
    and sync_ok: "inv s \<Longrightarrow> table s mid = Some m \<Longrightarrow>
      fst (sa_update_sync_status SA now mid st q s) = Inr (set_sync_status now st q m) \<and>
      table (snd (sa_update_sync_status SA now mid st q s)) = (table s)(mid \<mapsto> set_sync_status now st q m)"
    and by_group: "inv s \<Longrightarrow>
      \<exists>page. sa_get_messages_by_group SA g aft bef limit s = Inr (take limit page) \<and>
        set page = {m \<in> ran (table s). msg_group_id m = g \<and> in_page aft bef m} \<and>
        sorted_wrt (<) (map order_key page)"
    and by_status: "inv s \<Longrightarrow>
      \<exists>found. sa_get_messages_by_sync_status SA st limit s = Inr (take limit found) \<and>
        set found = {m \<in> ran (table s). msg_sync_status m = st} \<and> distinct (map msg_id found)"
begin

section \<open>What follows for every client\<close>

text \<open>No operation loses a message or changes its identity.\<close>

lemma create_keeps: "inv s \<Longrightarrow> room s (msg_group_id m) \<Longrightarrow>
    keeps_identities (table s) (table (snd (sa_create_message SA m s)))"
  using create_dup_id [of s m] create_dup_nonce [of s m] create_ok [of s m]
  by (cases "table s (msg_id m)"; cases "nonce_used (table s) (msg_nonce m)")
    (auto intro: keeps_identities_new)

lemma update_keeps: "inv s \<Longrightarrow>
    keeps_identities (table s) (table (snd (sa_update_message SA now mid e n k a sg pk s)))"
  using update_missing [of s mid] update_dup_nonce [of s mid _ n] update_ok [of s mid _ n]
  by (cases "table s mid"; cases "nonce_used_by_other (table s) mid n")
    (auto intro: keeps_identities_upd)

lemma delete_keeps: "inv s \<Longrightarrow>
    keeps_identities (table s) (table (snd (sa_delete_message SA now mid s)))"
  using delete_missing [of s mid] delete_ok [of s mid]
  by (cases "table s mid") (auto intro: keeps_identities_upd)

lemma sync_keeps: "inv s \<Longrightarrow>
    keeps_identities (table s) (table (snd (sa_update_sync_status SA now mid st q s)))"
  using sync_missing [of s mid] sync_ok [of s mid]
  by (cases "table s mid") (auto intro: keeps_identities_upd)

text \<open>A page only holds messages of its group and at most \<open>limit\<close> of them.\<close>

lemma by_group_sound:
  "inv s \<Longrightarrow> sa_get_messages_by_group SA g aft bef limit s = Inr ms \<Longrightarrow>
     length ms \<le> limit \<and> (\<forall>m\<in>set ms. m \<in> ran (table s) \<and> msg_group_id m = g \<and> in_page aft bef m)"
  using by_group [of s g aft bef limit] by (auto dest: in_set_takeD)

end

end
