(* ===== verification/Messages_Dto.thy ===== *)
theory Messages_Dto
  imports Storage_Adapter
begin

text \<open>
  \<open>src/relayer/src/handlers/messages\<close>, the data of the HTTP interface: requests (\<open>request.rs\<close>),
  responses (\<open>response.rs\<close>) and the error type with its HTTP statuses (\<open>error.rs\<close>).
  Parsing the JSON of a request and printing that of a response is \<open>serde\<close>'s; the records here are
  what it parses into and prints from.
\<close>

section \<open>request.rs\<close>

record attachment_request =
  ar_storage_id :: string
  ar_nonce :: string
  ar_encrypted_metadata :: string
  ar_metadata_nonce :: string

definition try_into_attachment ::
  "'us externs \<Rightarrow> attachment_request \<Rightarrow> (string, attachment) result" where
  "try_into_attachment X r =
     (case map_err (\<lambda>e. ''Invalid hex in attachment nonce: '' @ e) (x_hex_decode X (ar_nonce r)) of
        Inl e \<Rightarrow> Inl e
      | Inr nonce \<Rightarrow>
          if length nonce \<noteq> 12 then
            Inl (''Attachment nonce must be exactly 12 bytes, got '' @ show_nat (length nonce))
          else
            (case map_err (\<lambda>e. ''Invalid hex in attachment encrypted_metadata: '' @ e)
                    (x_hex_decode X (ar_encrypted_metadata r)) of
               Inl e \<Rightarrow> Inl e
             | Inr encrypted_metadata \<Rightarrow>
                 (case map_err (\<lambda>e. ''Invalid hex in attachment metadata_nonce: '' @ e)
                         (x_hex_decode X (ar_metadata_nonce r)) of
                    Inl e \<Rightarrow> Inl e
                  | Inr metadata_nonce \<Rightarrow>
                      if length metadata_nonce \<noteq> 12 then
                        Inl (''Attachment metadata_nonce must be exactly 12 bytes, got ''
                          @ show_nat (length metadata_nonce))
                      else
                        Inr \<lparr>att_storage_id = ar_storage_id r, att_nonce = nonce,
                             att_encrypted_metadata = encrypted_metadata,
                             att_metadata_nonce = metadata_nonce\<rparr>)))"

record create_message_request =
  cr_group_id :: string
  cr_encrypted_text :: string
  cr_nonce :: string
  cr_key_version :: i64
  cr_sender_address :: string
  cr_message_signature :: string
  cr_attachments :: "attachment_request list"

record update_message_request =
  ur_message_id :: uuid
  ur_group_id :: string
  ur_sender_address :: string
  ur_encrypted_text :: string
  ur_nonce :: string
  ur_key_version :: i64
  ur_message_signature :: string
  ur_attachments :: "attachment_request list"

record get_messages_query =
  q_message_id :: "uuid option"
  q_group_id :: "string option"
  q_after_order :: "i64 option"
  q_before_order :: "i64 option"
  q_limit :: "nat option"

lemma try_into_attachment_Inr_iff:
  "try_into_attachment X r = Inr a \<longleftrightarrow>
     x_hex_decode X (ar_nonce r) = Inr (att_nonce a) \<and> length (att_nonce a) = 12 \<and>
     x_hex_decode X (ar_encrypted_metadata r) = Inr (att_encrypted_metadata a) \<and>
     x_hex_decode X (ar_metadata_nonce r) = Inr (att_metadata_nonce a) \<and>
     length (att_metadata_nonce a) = 12 \<and> att_storage_id a = ar_storage_id r"
  by (cases a) (auto simp: try_into_attachment_def split: sum.splits)

section \<open>response.rs\<close>

record attachment_response =
  ao_storage_id :: string
  ao_nonce :: string
  ao_encrypted_metadata :: string
  ao_metadata_nonce :: string

definition attachment_response_from :: "'us externs \<Rightarrow> attachment \<Rightarrow> attachment_response" where
  "attachment_response_from X att =
     \<lparr> ao_storage_id = att_storage_id att,
       ao_nonce = x_hex_encode X (att_nonce att),
       ao_encrypted_metadata = x_hex_encode X (att_encrypted_metadata att),
       ao_metadata_nonce = x_hex_encode X (att_metadata_nonce att) \<rparr>"

record message_response =
  mr_message_id :: uuid
  mr_group_id :: string
  mr_order :: i64
  mr_encrypted_text :: string
  mr_nonce :: string
  mr_key_version :: i64
  mr_sender_address :: string
  mr_created_at :: i64
  mr_updated_at :: i64
  mr_attachments :: "attachment_response list"
  mr_is_edited :: bool
  mr_is_deleted :: bool
  mr_sync_status :: string
  mr_quilt_patch_id :: "string option"
  mr_signature :: string
  mr_public_key :: string

definition message_response_from :: "'us externs \<Rightarrow> message \<Rightarrow> message_response" where
  "message_response_from X msg =
     (let is_edited = (msg_updated_at msg \<noteq> msg_created_at msg);
          is_deleted = (msg_sync_status msg \<in> {DeletePending, Deleted})
      in \<lparr> mr_message_id = msg_id msg,
           mr_group_id = msg_group_id msg,
           mr_order = unwrap_or 0 (msg_order msg),
           mr_encrypted_text = x_hex_encode X (msg_encrypted_msg msg),
           mr_nonce = x_hex_encode X (msg_nonce msg),
           mr_key_version = msg_key_version msg,
           mr_sender_address = msg_sender_wallet_addr msg,
           mr_created_at = x_unix_secs X (msg_created_at msg),
           mr_updated_at = x_unix_secs X (msg_updated_at msg),
           mr_attachments = map (attachment_response_from X) (msg_attachments msg),
           mr_is_edited = is_edited,
           mr_is_deleted = is_deleted,
           mr_sync_status = sync_status_display (msg_sync_status msg),
           mr_quilt_patch_id = msg_quilt_patch_id msg,
           mr_signature = x_hex_encode X (msg_signature msg),
           mr_public_key = x_hex_encode X (msg_public_key msg) \<rparr>)"

record create_message_response =
  cresp_message_id :: uuid

record messages_list_response =
  lr_messages :: "message_response list"
  lr_has_next :: bool

datatype empty_response = EmptyResponse

datatype get_messages_response = Single message_response | Listing messages_list_response

text \<open>What a client needs to check a message itself: all fields it signed can be read back.\<close>

lemma attachment_response_request:
  assumes "hex_codec (x_hex_encode X) (x_hex_decode X)"
    and "length (att_nonce a) = 12" and "length (att_metadata_nonce a) = 12"
  shows "try_into_attachment X
    \<lparr>ar_storage_id = ao_storage_id (attachment_response_from X a),
     ar_nonce = ao_nonce (attachment_response_from X a),
     ar_encrypted_metadata = ao_encrypted_metadata (attachment_response_from X a),
     ar_metadata_nonce = ao_metadata_nonce (attachment_response_from X a)\<rparr> = Inr a"
  using assms
  by (simp add: try_into_attachment_Inr_iff attachment_response_from_def hex_codec.dec_enc)

section \<open>error.rs\<close>

datatype api_error =
    ApiNotFound string
  | BadRequest string
  | Conflict string
  | Internal string
  | Unauthorized string
  | Forbidden string

type_synonym status_code = nat

fun api_error_into_response :: "api_error \<Rightarrow> status_code \<times> string" where
  "api_error_into_response (ApiNotFound msg) = (404, msg)"
| "api_error_into_response (BadRequest msg) = (400, msg)"
| "api_error_into_response (Conflict msg) = (409, msg)"
| "api_error_into_response (Internal msg) = (500, msg)"
| "api_error_into_response (Unauthorized msg) = (401, msg)"
| "api_error_into_response (Forbidden msg) = (403, msg)"

fun api_error_from_storage :: "'us externs \<Rightarrow> storage_error \<Rightarrow> api_error" where
  "api_error_from_storage X (NotFound mid) =
     ApiNotFound (''Message not found: '' @ x_uuid_display X mid)"
| "api_error_from_storage X (GroupNotFound g) = ApiNotFound (''Group not found: '' @ g)"
| "api_error_from_storage X (DuplicateId mid) =
     Conflict (''Duplicate message ID: '' @ x_uuid_display X mid)"
| "api_error_from_storage X DuplicateNonce =
     Conflict ''Duplicate nonce: a message with this nonce already exists''"
| "api_error_from_storage X (OperationFailed msg) = Internal msg"

section \<open>Properties\<close>

text \<open>
  C28. A response gives back what is stored: decoding the hex fields of the response for a message yields
  exactly its ciphertext, nonce, signature and public key, and reading the response's attachments as
  request attachments yields its attachments (all nonces of stored attachments have 12 bytes). Its id,
  group, sender, key version and patch id are the stored ones, its order is the stored one (0 for a
  message without an order), its times are the stored ones in seconds, and its status is the name of
  the stored status. A message shows as edited exactly when its two times differ, and as deleted
  exactly in the two deletion states.
\<close>
theorem response_returns_message:
  assumes "hex_codec (x_hex_encode X) (x_hex_decode X)"
    and "\<forall>a\<in>set (msg_attachments m). length (att_nonce a) = 12 \<and> length (att_metadata_nonce a) = 12"
  shows "let r = message_response_from X m in
    x_hex_decode X (mr_encrypted_text r) = Inr (msg_encrypted_msg m) \<and>
    x_hex_decode X (mr_nonce r) = Inr (msg_nonce m) \<and>
    x_hex_decode X (mr_signature r) = Inr (msg_signature m) \<and>
    x_hex_decode X (mr_public_key r) = Inr (msg_public_key m) \<and>
    collect_results (try_into_attachment X)
      (map (\<lambda>a. \<lparr>ar_storage_id = ao_storage_id a, ar_nonce = ao_nonce a,
                 ar_encrypted_metadata = ao_encrypted_metadata a,
                 ar_metadata_nonce = ao_metadata_nonce a\<rparr>) (mr_attachments r)) = Inr (msg_attachments m) \<and>
    mr_message_id r = msg_id m \<and> mr_group_id r = msg_group_id m \<and>
    mr_sender_address r = msg_sender_wallet_addr m \<and> mr_key_version r = msg_key_version m \<and>
    mr_quilt_patch_id r = msg_quilt_patch_id m \<and>
    mr_order r = (case msg_order m of None \<Rightarrow> 0 | Some k \<Rightarrow> k) \<and>
    mr_created_at r = x_unix_secs X (msg_created_at m) \<and> mr_updated_at r = x_unix_secs X (msg_updated_at m) \<and>
    mr_sync_status r = sync_status_display (msg_sync_status m) \<and>
    (mr_is_edited r \<longleftrightarrow> msg_updated_at m \<noteq> msg_created_at m) \<and>
    (mr_is_deleted r \<longleftrightarrow> msg_sync_status m = DeletePending \<or> msg_sync_status m = Deleted)"
proof -
  have "list_all2 (\<lambda>x y. try_into_attachment X x = Inr y)
      (map ((\<lambda>a. \<lparr>ar_storage_id = ao_storage_id a, ar_nonce = ao_nonce a,
                 ar_encrypted_metadata = ao_encrypted_metadata a,
                 ar_metadata_nonce = ao_metadata_nonce a\<rparr>) \<circ> attachment_response_from X) atts) atts"
    if "\<forall>a\<in>set atts. length (att_nonce a) = 12 \<and> length (att_metadata_nonce a) = 12" for atts
    using that attachment_response_request [OF assms(1)] by (induction atts) auto
  with assms(2) show ?thesis
    by (simp add: Let_def message_response_from_def hex_codec.dec_enc [OF assms(1)] collect_results_Inr
        unwrap_or_def)
qed

lemma response_returns_message_witness:
  "hex_decode (mr_encrypted_text (message_response_from ref_externs
     (message_new 0 7 ''g'' ''a'' [1, 2] [3] 1 [] [] []))) = Inr [1, 2]"
  using response_returns_message [of ref_externs "message_new 0 7 ''g'' ''a'' [1, 2] [3] 1 [] [] []"]
    hx.hex_codec_axioms
  by (simp add: Let_def message_new_def)

end
