(* ===== verification/Enclave.thy ===== *)
theory Enclave
  imports Externals
begin

text \<open>
  \<open>src/relayer/src/enclave.rs\<close>: the ring buffer behind \<open>GET /logs\<close>, the signed intent messages, and
  the enclave routes. \<open>EnclaveKeyPair\<close>, \<open>bcs\<close> and the attestation call are third-party: a record of
  the key pair's two functions, and arguments.
\<close>

section \<open>The log ring buffer\<close>

record log_buffer =
  lb_lines :: "string list"
  lb_capacity :: nat

definition log_buffer_new :: "nat \<Rightarrow> log_buffer" where
  "log_buffer_new capacity = \<lparr>lb_lines = [], lb_capacity = capacity\<rparr>"

text \<open>
  \<open>pop_front\<close> of an empty deque does nothing, so a buffer of capacity 0 still takes its first line.
\<close>

definition log_push :: "string \<Rightarrow> log_buffer \<Rightarrow> log_buffer" where
  "log_push line b =
     (let buf = (if lb_capacity b \<le> length (lb_lines b) then tl (lb_lines b) else lb_lines b)
      in b\<lparr>lb_lines := buf @ [line]\<rparr>)"

definition log_recent :: "nat \<Rightarrow> log_buffer \<Rightarrow> string list" where
  "log_recent n b = rev (take n (rev (lb_lines b)))"

text \<open>The last \<open>n\<close> elements of a list.\<close>

definition last_n :: "nat \<Rightarrow> 'a list \<Rightarrow> 'a list" where
  "last_n n xs = drop (length xs - n) xs"

lemma length_last_n [simp]: "length (last_n n xs) = min n (length xs)"
  by (simp add: last_n_def)

lemma last_n_last_n: "last_n n (last_n c xs) = last_n (min n c) xs"
  by (simp add: last_n_def min_def) (cases "length xs \<le> c"; simp)

lemma log_recent_last_n: "log_recent n b = last_n n (lb_lines b)"
  by (simp add: log_recent_def last_n_def rev_take)

lemma log_push_last_n:
  "0 < lb_capacity b \<Longrightarrow> lb_lines b = last_n (lb_capacity b) xs \<Longrightarrow>
     lb_lines (log_push line b) = last_n (lb_capacity b) (xs @ [line])"
  by (cases "lb_capacity b \<le> length xs")
    (simp_all add: log_push_def last_n_def Let_def drop_Suc Suc_diff_le tl_drop)

lemma log_push_capacity [simp, frame_simps]: "lb_capacity (log_push line b) = lb_capacity b"
  by (simp add: log_push_def Let_def)

definition log_all :: "string list \<Rightarrow> log_buffer \<Rightarrow> log_buffer" where
  "log_all ls b = fold log_push ls b"

lemma log_all_simps [simp]:
  "log_all [] b = b" "log_all (ls @ [l]) b = log_push l (log_all ls b)"
  by (simp_all add: log_all_def)

lemma log_all_capacity [simp]: "lb_capacity (log_all ls b) = lb_capacity b"
  by (induction ls rule: rev_induct) simp_all

lemma log_all_last_n: "0 < c \<Longrightarrow> lb_lines (log_all ls (log_buffer_new c)) = last_n c ls"
proof (induction ls rule: rev_induct)
  case Nil
  then show ?case by (simp add: log_buffer_new_def last_n_def)
next
  case (snoc l ls)
  then show ?case
    using log_push_last_n [of "log_all ls (log_buffer_new c)" ls l]
    by (simp add: log_buffer_new_def)
qed

section \<open>Signed intent messages\<close>

datatype intent_scope = Generic | SignName | MessageDelivery

fun intent_scope_repr :: "intent_scope \<Rightarrow> u8" where
  "intent_scope_repr Generic = 0"
| "intent_scope_repr SignName = 1"
| "intent_scope_repr MessageDelivery = 2"

record 'a intent_message =
  im_intent :: intent_scope
  im_timestamp_ms :: u64
  im_data :: 'a

record 'a processed_data_response =
  pd_response :: 'a
  pd_signature :: string
  pd_enclave_public_key :: string

record enclave_key_pair =
  kp_sign :: "bytes \<Rightarrow> bytes"
  kp_public_key_bytes :: bytes

text \<open>
  \<open>bcs\<close> is the serializer at the payload type; \<open>None\<close> is the panic of the \<open>expect\<close>.
\<close>

definition to_signed_response ::
  "'us externs \<Rightarrow> ('a intent_message \<Rightarrow> (string, bytes) result) \<Rightarrow> enclave_key_pair \<Rightarrow> 'a \<Rightarrow> u64
   \<Rightarrow> intent_scope \<Rightarrow> 'a intent_message processed_data_response option" where
  "to_signed_response X bcs kp payload timestamp_ms intent =
     (let intent_msg = \<lparr>im_intent = intent, im_timestamp_ms = timestamp_ms, im_data = payload\<rparr>
      in case bcs intent_msg of
           Inl _ \<Rightarrow> None
         | Inr signing_payload \<Rightarrow>
             (let sig = kp_sign kp signing_payload
              in Some \<lparr> pd_response = intent_msg,
                        pd_signature = x_hex_encode X sig,
                        pd_enclave_public_key = x_hex_encode X (kp_public_key_bytes kp) \<rparr>))"

section \<open>The enclave routes\<close>

datatype enclave_error = GenericError string

fun enclave_error_into_response :: "enclave_error \<Rightarrow> nat \<times> string" where
  "enclave_error_into_response (GenericError e) = (500, e)"

definition get_attestation ::
  "(bytes \<Rightarrow> bytes \<Rightarrow> (string, string) result) \<Rightarrow> enclave_key_pair \<Rightarrow> (enclave_error, string) result" where
  "get_attestation attest kp =
     map_err (\<lambda>e. GenericError (''attestation failed: '' @ e)) (attest (kp_public_key_bytes kp) [])"

record enclave_health_response =
  eh_public_key :: string
  eh_status :: string

definition enclave_health ::
  "'us externs \<Rightarrow> enclave_key_pair \<Rightarrow> (enclave_error, enclave_health_response) result" where
  "enclave_health X kp =
     Inr \<lparr>eh_public_key = x_hex_encode X (kp_public_key_bytes kp), eh_status = ''ok''\<rparr>"

record logs_response =
  logs_lines :: "string list"
  logs_count :: nat

definition get_logs :: "nat option \<Rightarrow> log_buffer \<Rightarrow> (enclave_error, logs_response) result" where
  "get_logs lines_param b =
     (let n = min (unwrap_or 100 lines_param) 1000;
          lines = log_recent n b
      in Inr \<lparr>logs_lines = lines, logs_count = length lines\<rparr>)"

lemma logs_are_the_last_lines:
  "get_logs q (log_all ls (log_buffer_new 1000)) =
     Inr \<lparr>logs_lines = last_n (min (unwrap_or 100 q) 1000) ls,
          logs_count = min (min (unwrap_or 100 q) 1000) (length ls)\<rparr>"
  by (simp add: get_logs_def log_recent_last_n log_all_last_n last_n_last_n Let_def min.assoc)

section \<open>Properties\<close>

text \<open>
  A signed reply can be checked by its reader: the signature and key fields decode to the enclave
  key's signature over exactly the BCS bytes of the intent message in the reply, and to that public
  key; the message carries the scope, the time and the payload the handler passed. The only other
  outcome is the panic when the serializer fails.
\<close>
lemma signed_reply_covers_response:
  assumes "hex_codec (x_hex_encode X) (x_hex_decode X)"
  shows "(to_signed_response X bcs kp payload t scope = None \<longleftrightarrow>
      (\<exists>e. bcs \<lparr>im_intent = scope, im_timestamp_ms = t, im_data = payload\<rparr> = Inl e)) \<and>
    (\<forall>r. to_signed_response X bcs kp payload t scope = Some r \<longrightarrow>
      pd_response r = \<lparr>im_intent = scope, im_timestamp_ms = t, im_data = payload\<rparr> \<and>
      (\<exists>bs. bcs (pd_response r) = Inr bs \<and> x_hex_decode X (pd_signature r) = Inr (kp_sign kp bs)) \<and>
      x_hex_decode X (pd_enclave_public_key r) = Inr (kp_public_key_bytes kp))"
  by (auto simp: to_signed_response_def Let_def hex_codec.dec_enc [OF assms] split: sum.splits)

lemma signed_reply_covers_response_witness:
  "\<exists>r. to_signed_response ref_externs (\<lambda>m. Inr [im_data m])
       \<lparr>kp_sign = rev, kp_public_key_bytes = [7]\<rparr> (5 :: u8) 9 MessageDelivery = Some r \<and>
     hex_decode (pd_signature r) = Inr [5] \<and> hex_decode (pd_enclave_public_key r) = Inr [7]"
proof -
  let ?kp = "\<lparr>kp_sign = rev, kp_public_key_bytes = [7]\<rparr>" and ?bcs = "\<lambda>m. Inr [im_data m] :: (string, bytes) result"
  obtain r where r: "to_signed_response ref_externs ?bcs ?kp (5 :: u8) 9 MessageDelivery = Some r"
    by (simp add: to_signed_response_def)
  then show ?thesis
    using signed_reply_covers_response [of ref_externs ?bcs ?kp 5 9 MessageDelivery] hx.hex_codec_axioms
    by auto
qed

end
