(* ===== verification/Auth_Types.thy ===== *)
theory Auth_Types
  imports Externals
begin

text \<open>
  The data of \<open>src/relayer/src/auth\<close>: signature schemes (\<open>schemes.rs\<close>), messaging permissions
  (\<open>permissions.rs\<close>), and the authentication context and errors (\<open>types.rs\<close>).
\<close>

section \<open>schemes.rs\<close>

datatype signature_scheme = Ed25519 | Secp256k1 | Secp256r1

definition from_flag :: "u8 \<Rightarrow> signature_scheme option" where
  "from_flag f =
     (if f = 0 then Some Ed25519
      else if f = 1 then Some Secp256k1
      else if f = 2 then Some Secp256r1
      else None)"

fun scheme_flag :: "signature_scheme \<Rightarrow> u8" where
  "scheme_flag Ed25519 = 0"
| "scheme_flag Secp256k1 = 1"
| "scheme_flag Secp256r1 = 2"

fun public_key_length :: "signature_scheme \<Rightarrow> nat" where
  "public_key_length Ed25519 = 32"
| "public_key_length Secp256k1 = 33"
| "public_key_length Secp256r1 = 33"

definition signature_length :: "signature_scheme \<Rightarrow> nat" where
  "signature_length _ = 64"

fun scheme_display :: "signature_scheme \<Rightarrow> string" where
  "scheme_display Ed25519 = ''Ed25519''"
| "scheme_display Secp256k1 = ''Secp256k1''"
| "scheme_display Secp256r1 = ''Secp256r1''"

lemma from_flag_scheme_flag [simp]: "from_flag (scheme_flag s) = Some s"
  by (cases s) (simp_all add: from_flag_def)

lemma from_flag_Some_iff: "from_flag f = Some s \<longleftrightarrow> f = scheme_flag s"
  by (cases s) (auto simp: from_flag_def split: if_splits)

lemma scheme_flag_inject [simp]: "scheme_flag s = scheme_flag t \<longleftrightarrow> s = t"
  by (metis from_flag_scheme_flag option.inject)

section \<open>permissions.rs\<close>

datatype messaging_permission =
  MessagingSender | MessagingReader | MessagingEditor | MessagingDeleter

lemma UNIV_messaging_permission:
  "UNIV = {MessagingSender, MessagingReader, MessagingEditor, MessagingDeleter}"
proof (rule UNIV_eq_I)
  show "x \<in> {MessagingSender, MessagingReader, MessagingEditor, MessagingDeleter}" for x
    by (cases x) simp_all
qed

instantiation messaging_permission :: enum
begin
definition "enum_messaging_permission = [MessagingSender, MessagingReader, MessagingEditor, MessagingDeleter]"
definition "enum_all_messaging_permission P \<longleftrightarrow>
  P MessagingSender \<and> P MessagingReader \<and> P MessagingEditor \<and> P MessagingDeleter"
definition "enum_ex_messaging_permission P \<longleftrightarrow>
  P MessagingSender \<or> P MessagingReader \<or> P MessagingEditor \<or> P MessagingDeleter"
instance
proof
  show "(UNIV :: messaging_permission set) = set enum_class.enum"
    by (simp add: enum_messaging_permission_def UNIV_messaging_permission)
  show "distinct (enum_class.enum :: messaging_permission list)"
    by (simp add: enum_messaging_permission_def)
  show "enum_class.enum_all P \<longleftrightarrow> Ball UNIV P" for P :: "messaging_permission \<Rightarrow> bool"
    by (simp add: enum_all_messaging_permission_def UNIV_messaging_permission)
  show "enum_class.enum_ex P \<longleftrightarrow> Bex UNIV P" for P :: "messaging_permission \<Rightarrow> bool"
    by (simp add: enum_ex_messaging_permission_def UNIV_messaging_permission)
qed
end

fun permission_as_str :: "messaging_permission \<Rightarrow> string" where
  "permission_as_str MessagingSender = ''MessagingSender''"
| "permission_as_str MessagingReader = ''MessagingReader''"
| "permission_as_str MessagingEditor = ''MessagingEditor''"
| "permission_as_str MessagingDeleter = ''MessagingDeleter''"

text \<open>
  \<open>split("::")\<close> always yields a piece, so \<open>last()?\<close> never returns early.
\<close>

definition from_type_name :: "string \<Rightarrow> messaging_permission option" where
  "from_type_name type_name =
     (let permission_name = last (str_split type_name ''::'')
      in if permission_name = ''MessagingSender'' then Some MessagingSender
         else if permission_name = ''MessagingReader'' then Some MessagingReader
         else if permission_name = ''MessagingEditor'' then Some MessagingEditor
         else if permission_name = ''MessagingDeleter'' then Some MessagingDeleter
         else None)"

lemma from_type_name_Some_iff:
  "from_type_name t = Some p \<longleftrightarrow> last (str_split t ''::'') = permission_as_str p"
  by (cases p) (auto simp: from_type_name_def Let_def split: if_splits)

section \<open>types.rs\<close>

record auth_context =
  ac_sender_address :: string
  ac_public_key :: bytes
  ac_scheme :: signature_scheme
  ac_authorized_group :: "string option"

datatype auth_error =
    MissingSignature
  | MissingPublicKey
  | MissingTimestamp
  | InvalidTimestamp string
  | RequestExpired i64 i64 i64  \<comment> \<open>timestamp, server time, ttl seconds\<close>
  | InvalidSignatureFormat string
  | InvalidPublicKeyFormat string
  | SignatureVerificationFailed string
  | AddressMismatch string string  \<comment> \<open>expected, got\<close>
  | NotGroupMember string string  \<comment> \<open>address, group id\<close>

fun auth_error_display :: "auth_error \<Rightarrow> string" where
  "auth_error_display MissingSignature = ''Missing X-Signature header''"
| "auth_error_display MissingPublicKey = ''Missing X-Public-Key header''"
| "auth_error_display MissingTimestamp = ''Missing timestamp''"
| "auth_error_display (InvalidTimestamp e) = ''Invalid timestamp: '' @ e"
| "auth_error_display (RequestExpired ts srv ttl) =
     ''Request expired: timestamp '' @ show_i64 ts @ '' is more than '' @ show_i64 ttl
       @ ''s from server time '' @ show_i64 srv"
| "auth_error_display (InvalidSignatureFormat e) = ''Invalid signature format: '' @ e"
| "auth_error_display (InvalidPublicKeyFormat e) = ''Invalid public key format: '' @ e"
| "auth_error_display (SignatureVerificationFailed e) = ''Signature verification failed: '' @ e"
| "auth_error_display (AddressMismatch expected got) =
     ''Address mismatch: expected '' @ expected @ '', got '' @ got"
| "auth_error_display (NotGroupMember address group_id) =
     ''Address '' @ address @ '' is not a member of group '' @ group_id"

section \<open>Type names\<close>

text \<open>After a separator, the rest of a name without colons is its last piece.\<close>

lemma last_split_from:
  assumes "u \<noteq> [] \<longrightarrow> last u \<noteq> CHR '':''" and "CHR '':'' \<notin> set v"
  shows "last (split_from ''::'' acc (u @ ''::'' @ v)) = v"
  using assms(1)
proof (induction u arbitrary: acc rule: length_induct)
  case (1 u)
  have tail: "split_from ''::'' a v = [rev a @ v]" for a
    using assms(2) by (intro split_from_no_match) (auto simp: str_contains_iff)
  show ?case
  proof (cases u)
    case Nil
    then show ?thesis
      by (subst split_from.simps) (simp add: starts_with_def tail numeral_2_eq_2)
  next
    case (Cons c u1)
    show ?thesis
    proof (cases "starts_with u ''::''")
      case True
      then obtain u2 where u: "u = ''::'' @ u2" by (auto simp: starts_with_iff)
      with "1.prems" have "u2 \<noteq> []" "last u2 \<noteq> CHR '':''" by (auto split: if_splits)
      with "1.IH" u have "last (split_from ''::'' [] (u2 @ ''::'' @ v)) = v" by simp
      then show ?thesis
        unfolding u by (subst split_from.simps) (simp add: starts_with_def numeral_2_eq_2)
    next
      case False
      have "\<not> starts_with (u @ ''::'' @ v) ''::''"
        using False "1.prems" Cons by (cases u1) (auto simp: starts_with_def)
      moreover have "last (split_from ''::'' (c # acc) (u1 @ ''::'' @ v)) = v"
        using "1.IH" [rule_format, of u1 "c # acc"] "1.prems" Cons by (auto split: if_splits)
      ultimately show ?thesis
        using Cons by (subst split_from.simps) simp
    qed
  qed
qed

lemma permission_no_colon: "CHR '':'' \<notin> set (permission_as_str p)"
  by (cases p) simp_all

text \<open>
  C36. A fully qualified Move type name ending in \<open>::<permission>\<close> is recognised as that permission
  (when the module path before the separator does not itself end in a colon), whatever the path; so
  is the bare permission name.
\<close>
theorem type_name_round_trip:
  assumes "path \<noteq> [] \<longrightarrow> last path \<noteq> CHR '':''"
  shows "from_type_name (path @ ''::'' @ permission_as_str p) = Some p \<and>
    from_type_name (permission_as_str p) = Some p"
proof -
  have "str_split (permission_as_str p) ''::'' = [permission_as_str p]"
    using permission_no_colon [of p]
    by (auto simp: str_split_def str_contains_iff intro!: split_from_no_match [where acc = "[]", simplified])
  then show ?thesis
    unfolding from_type_name_Some_iff
    using last_split_from [OF assms permission_no_colon, of "[]"] by (simp add: str_split_def)
qed

lemma type_name_round_trip_witness:
  "from_type_name ''0xab::messaging::MessagingReader'' = Some MessagingReader"
  using type_name_round_trip [of "''0xab::messaging''" MessagingReader] by simp

end
