(* ===== verification/Signature.thy ===== *)
theory Signature
  imports Auth_Types
begin

text \<open>
  \<open>src/relayer/src/auth/signature.rs\<close>: the replay window, signature verification over the serialized
  Sui signature, and the derivation of the Sui address from a public key.
\<close>

section \<open>validate_timestamp\<close>

text \<open>
  The clock is an argument. \<open>now - timestamp\<close> and \<open>abs\<close> are the wrapping operations of the release
  profile: \<open>i64::MIN.abs()\<close> is \<open>i64::MIN\<close>.
\<close>

definition i64_abs :: "i64 \<Rightarrow> i64" where
  "i64_abs w = (if sint w < 0 then - w else w)"

definition validate_timestamp :: "i64 \<Rightarrow> i64 \<Rightarrow> i64 \<Rightarrow> (auth_error, unit) result" where
  "validate_timestamp now timestamp ttl_seconds =
     (let diff = i64_abs (now - timestamp)
      in if sint ttl_seconds < sint diff then Inl (RequestExpired timestamp now ttl_seconds)
         else Inr ())"

section \<open>verify_signature\<close>

definition serialized_signature :: "signature_scheme \<Rightarrow> bytes \<Rightarrow> bytes \<Rightarrow> bytes" where
  "serialized_signature scheme signature_bytes public_key_bytes =
     scheme_flag scheme # signature_bytes @ public_key_bytes"

definition verify_signature ::
  "'us externs \<Rightarrow> bytes \<Rightarrow> bytes \<Rightarrow> bytes \<Rightarrow> signature_scheme \<Rightarrow> (auth_error, unit) result" where
  "verify_signature X message signature_bytes public_key_bytes scheme =
     (if length signature_bytes \<noteq> 64 then
        Inl (InvalidSignatureFormat (''Expected 64 bytes, got '' @ show_nat (length signature_bytes)))
      else let expected_len = public_key_length scheme in
        if length public_key_bytes \<noteq> expected_len then
          Inl (InvalidPublicKeyFormat (''Expected '' @ show_nat expected_len @ '' bytes for ''
            @ scheme_display scheme @ '', got '' @ show_nat (length public_key_bytes)))
        else
          (case map_err (\<lambda>e. InvalidSignatureFormat (''Failed to parse signature: '' @ e))
                  (x_user_sig_from_bytes X (serialized_signature scheme signature_bytes public_key_bytes)) of
             Inl e \<Rightarrow> Inl e
           | Inr user_signature \<Rightarrow>
               map_err SignatureVerificationFailed (x_verify_personal X message user_signature)))"

section \<open>Address derivation\<close>

definition derive_sui_address ::
  "'us externs \<Rightarrow> bytes \<Rightarrow> signature_scheme \<Rightarrow> (auth_error, string) result" where
  "derive_sui_address X public_key_bytes scheme =
     (let expected_len = public_key_length scheme in
      if length public_key_bytes \<noteq> expected_len then
        Inl (InvalidPublicKeyFormat (''Expected '' @ show_nat expected_len @ '' bytes for ''
          @ scheme_display scheme @ '', got '' @ show_nat (length public_key_bytes)))
      else Inr (''0x'' @ x_hex_encode X (x_blake2b256 X (scheme_flag scheme # public_key_bytes))))"

definition verify_address_matches_pubkey ::
  "'us externs \<Rightarrow> string \<Rightarrow> bytes \<Rightarrow> signature_scheme \<Rightarrow> (auth_error, string) result" where
  "verify_address_matches_pubkey X claimed_address public_key_bytes scheme =
     (case derive_sui_address X public_key_bytes scheme of
        Inl e \<Rightarrow> Inl e
      | Inr derived_address \<Rightarrow>
          (if claimed_address \<noteq> derived_address
           then Inl (AddressMismatch derived_address claimed_address)
           else Inr derived_address))"

section \<open>Facts the callers use\<close>

text \<open>A signature that parses and verifies, written without the error branches.\<close>

definition signature_valid :: "'us externs \<Rightarrow> bytes \<Rightarrow> bytes \<Rightarrow> bytes \<Rightarrow> signature_scheme \<Rightarrow> bool" where
  "signature_valid X m sg pk scheme \<longleftrightarrow>
     length sg = 64 \<and> length pk = public_key_length scheme \<and>
     (\<exists>us. x_user_sig_from_bytes X (serialized_signature scheme sg pk) = Inr us \<and>
           x_verify_personal X m us = Inr ())"

lemma verify_signature_Inr_iff:
  "verify_signature X m sg pk scheme = Inr () \<longleftrightarrow> signature_valid X m sg pk scheme"
  by (auto simp: verify_signature_def signature_valid_def Let_def split: sum.splits)

lemma verify_address_Inr_iff:
  "verify_address_matches_pubkey X a pk scheme = Inr b \<longleftrightarrow>
     length pk = public_key_length scheme \<and> a = b \<and>
     b = ''0x'' @ x_hex_encode X (x_blake2b256 X (scheme_flag scheme # pk))"
  by (auto simp: verify_address_matches_pubkey_def derive_sui_address_def Let_def)

lemma signed_take_bit_63:
  fixes d :: int
  assumes "- (2 ^ 64) < d" and "d < 2 ^ 64"
  shows "signed_take_bit 63 d =
    (if d < - (2 ^ 63) then d + 2 ^ 64 else if d < 2 ^ 63 then d else d - 2 ^ 64)"
proof -
  define x where "x = d + 2 ^ 63"
  have "signed_take_bit 63 d = x mod 2 ^ 64 - 2 ^ 63"
    by (simp add: signed_take_bit_eq_take_bit_shift take_bit_eq_mod x_def)
  moreover have "x mod 2 ^ 64 = (if x < 0 then x + 2 ^ 64 else if x < 2 ^ 64 then x else x - 2 ^ 64)"
  proof -
    have low: "x mod 2 ^ 64 = x + 2 ^ 64" if "x < 0"
      using mod_add_self2 [of x "2 ^ 64"] mod_pos_pos_trivial [of "x + 2 ^ 64" "2 ^ 64"] assms that
      by (simp add: x_def)
    have high: "x mod 2 ^ 64 = x - 2 ^ 64" if "\<not> x < 2 ^ 64"
      using minus_mod_self2 [of x "2 ^ 64"] mod_pos_pos_trivial [of "x - 2 ^ 64" "2 ^ 64"] assms that
      by (simp add: x_def)
    show ?thesis using low high mod_pos_pos_trivial [of x "2 ^ 64"] by simp
  qed
  ultimately show ?thesis by (auto simp: x_def)
qed

lemma sint_diff_i64:
  "sint (a - b :: i64) =
     (let d = sint a - sint b
      in if d < - (2 ^ 63) then d + 2 ^ 64 else if d < 2 ^ 63 then d else d - 2 ^ 64)"
  using sint_i64_bounds [of a] sint_i64_bounds [of b]
  by (simp add: sint_word_ariths signed_take_bit_63 Let_def)

lemma sint_i64_abs:
  "sint (i64_abs w) = (if sint w = - (2 ^ 63) then - (2 ^ 63) else \<bar>sint w\<bar>)"
  using sint_i64_bounds [of w] sint_diff_i64 [of 0 w]
  by (auto simp: i64_abs_def Let_def split: if_splits)

text \<open>
  The replay window, over the mathematical difference of the clocks. Inside the range of \<open>i64\<close> it is
  the interval that the TTL names. The one exception is a difference of exactly \<open>2 ^ 63\<close>, whose
  absolute value wraps to the least \<open>i64\<close>.
\<close>

lemma validate_timestamp_iff:
  assumes now: "0 \<le> sint now" "sint now < 2 ^ 62" and ttl: "0 \<le> sint ttl" "sint ttl < 2 ^ 62"
  shows "validate_timestamp now ts ttl = Inr () \<longleftrightarrow>
    \<bar>sint now - sint ts\<bar> \<le> sint ttl \<or> sint now - sint ts = 2 ^ 63"
  using sint_i64_bounds [of now] sint_i64_bounds [of ts] assms
  by (simp add: validate_timestamp_def Let_def sint_i64_abs sint_diff_i64)

text \<open>
  C29. The replay check, exactly: with the server clock and the TTL in any realistic range (below
  \<open>2 ^ 62\<close>), a request is refused as expired unless its timestamp is within the TTL of the clock, in
  either direction. One timestamp escapes: \<open>2 ^ 63\<close> seconds before the clock, whose difference wraps to
  \<open>i64::MIN\<close> and has a negative absolute value.
\<close>
theorem timestamp_window:
  assumes "0 \<le> sint now" "sint now < 2 ^ 62" and "0 \<le> sint ttl" "sint ttl < 2 ^ 62"
  shows "validate_timestamp now ts ttl =
    (if \<bar>sint now - sint ts\<bar> \<le> sint ttl \<or> sint now - sint ts = 2 ^ 63 then Inr ()
     else Inl (RequestExpired ts now ttl))"
proof -
  have "validate_timestamp now ts ttl = Inr () \<or>
      validate_timestamp now ts ttl = Inl (RequestExpired ts now ttl)"
    by (simp add: validate_timestamp_def Let_def)
  with validate_timestamp_iff [OF assms, of ts] show ?thesis by auto
qed

lemma timestamp_window_witness:
  "validate_timestamp 1000 101 900 = Inr () \<and>
   validate_timestamp 1000 99 900 = Inl (RequestExpired 99 1000 900) \<and>
   validate_timestamp 1000 1901 900 = Inl (RequestExpired 1901 1000 900) \<and>
   validate_timestamp 1000 (word_of_int (1000 - 2 ^ 63)) 900 = Inr ()"
  using timestamp_window [of 1000 900 101] timestamp_window [of 1000 900 99]
    timestamp_window [of 1000 900 1901] timestamp_window [of 1000 900 "word_of_int (1000 - 2 ^ 63)"]
  by simp

end
