(* ===== verification/Handlers.thy ===== *)
theory Handlers
  imports Messages_Dto Enclave Signature
begin

text \<open>
  \<open>src/relayer/src/handlers/messages/handlers.rs\<close>: the four message routes after authentication. A
  handler returns \<open>None\<close> where it panics (the \<open>expect\<close> in \<open>to_signed_response\<close>), otherwise the \<open>Result\<close>
  of the code. The storage is any record of operations \<open>SA\<close>; the lemmas about it are proved once in
  its contract.
\<close>

section \<open>State and inputs\<close>

text \<open>
  The part of \<open>AppState\<close> that changes: the storage, and the number of notifications waiting in the
  channel to the Walrus worker. A send to a closed channel fails and the failure is ignored.
\<close>

record 's app_state =
  as_storage :: 's
  as_notified :: nat

text \<open>
  What serving one request takes from outside: the clock (in the middleware, when the message is
  stamped, and when the reply is signed), a random id, the enclave key and the serializer.
\<close>

record handler_env =
  he_auth_now :: datetime
  he_uuid :: uuid
  he_now :: datetime
  he_reply_now :: datetime
  he_key_pair :: enclave_key_pair
  he_bcs_create :: "create_message_response intent_message \<Rightarrow> (string, bytes) result"
  he_bcs_empty :: "empty_response intent_message \<Rightarrow> (string, bytes) result"

definition DEFAULT_PAGE_LIMIT :: nat where "DEFAULT_PAGE_LIMIT = 50"
definition MAX_PAGE_LIMIT :: nat where "MAX_PAGE_LIMIT = 100"

section \<open>Shared steps\<close>

definition canonical_message :: "string \<Rightarrow> string \<Rightarrow> string \<Rightarrow> i64 \<Rightarrow> string" where
  "canonical_message group_id encrypted_text nonce key_version =
     group_id @ '':'' @ encrypted_text @ '':'' @ nonce @ '':'' @ show_i64 key_version"

definition verify_message_signature ::
  "'us externs \<Rightarrow> string \<Rightarrow> string \<Rightarrow> string \<Rightarrow> string \<Rightarrow> i64 \<Rightarrow> auth_context \<Rightarrow> (api_error, bytes) result" where
  "verify_message_signature X signature_hex group_id encrypted_text nonce key_version auth =
     bind_result (map_err (\<lambda>e. BadRequest (''Invalid hex in message_signature: '' @ e))
         (x_hex_decode X signature_hex)) (\<lambda>signature_bytes.
       if length signature_bytes \<noteq> 64 then
         Inl (BadRequest (''message_signature must be exactly 64 bytes, got ''
           @ show_nat (length signature_bytes)))
       else
         bind_result (map_err (\<lambda>e. BadRequest
               (''Message signature verification failed: '' @ auth_error_display e))
             (verify_signature X (as_bytes (canonical_message group_id encrypted_text nonce key_version))
               signature_bytes (ac_public_key auth) (ac_scheme auth)))
           (\<lambda>_. Inr signature_bytes))"

definition decode_attachments ::
  "'us externs \<Rightarrow> attachment_request list \<Rightarrow> (api_error, attachment list) result" where
  "decode_attachments X requests =
     collect_results (\<lambda>r. map_err BadRequest (try_into_attachment X r)) requests"

text \<open>The lines that \<open>create_message\<close> and \<open>update_message\<close> have in common: decode and verify the content.\<close>

record content =
  ct_encrypted_msg :: bytes
  ct_nonce :: bytes
  ct_signature :: bytes
  ct_attachments :: "attachment list"
  ct_public_key :: bytes

definition decode_content ::
  "'us externs \<Rightarrow> auth_context \<Rightarrow> string \<Rightarrow> string \<Rightarrow> string \<Rightarrow> i64 \<Rightarrow> string \<Rightarrow> attachment_request list
   \<Rightarrow> (api_error, content) result" where
  "decode_content X auth group_id encrypted_text nonce_hex key_version message_signature attachments =
     bind_result (map_err (\<lambda>e. BadRequest (''Invalid hex in encrypted_text: '' @ e))
         (x_hex_decode X encrypted_text)) (\<lambda>encrypted_msg.
     bind_result (map_err (\<lambda>e. BadRequest (''Invalid hex in nonce: '' @ e))
         (x_hex_decode X nonce_hex)) (\<lambda>nonce.
       if length nonce \<noteq> 12 then
         Inl (BadRequest (''Nonce must be exactly 12 bytes, got '' @ show_nat (length nonce)))
       else
         bind_result (verify_message_signature X message_signature group_id encrypted_text nonce_hex
             key_version auth) (\<lambda>signature.
         bind_result (decode_attachments X attachments) (\<lambda>atts.
           Inr \<lparr>ct_encrypted_msg = encrypted_msg, ct_nonce = nonce, ct_signature = signature,
                ct_attachments = atts,
                ct_public_key = scheme_flag (ac_scheme auth) # ac_public_key auth\<rparr>))))"

section \<open>POST /messages\<close>

definition create_prepare ::
  "'us externs \<Rightarrow> handler_env \<Rightarrow> auth_context \<Rightarrow> create_message_request \<Rightarrow> (api_error, message) result" where
  "create_prepare X env auth req =
     bind_result (decode_content X auth (cr_group_id req) (cr_encrypted_text req) (cr_nonce req)
         (cr_key_version req) (cr_message_signature req) (cr_attachments req)) (\<lambda>c.
       Inr (message_new (he_now env) (he_uuid env) (cr_group_id req) (cr_sender_address req)
         (ct_encrypted_msg c) (ct_nonce c) (cr_key_version req) (ct_attachments c) (ct_signature c)
         (ct_public_key c)))"

definition create_reply ::
  "'us externs \<Rightarrow> handler_env \<Rightarrow> message
   \<Rightarrow> (api_error, nat \<times> create_message_response intent_message processed_data_response) result option" where
  "create_reply X env created =
     (let payload = \<lparr>cresp_message_id = msg_id created\<rparr>;
          timestamp_ms = x_unix_millis X (he_reply_now env)
      in map_option (\<lambda>signed. Inr (201, signed))
           (to_signed_response X (he_bcs_create env) (he_key_pair env) payload timestamp_ms MessageDelivery))"

definition create_message ::
  "'us externs \<Rightarrow> 's storage_adapter \<Rightarrow> handler_env \<Rightarrow> auth_context \<Rightarrow> create_message_request \<Rightarrow> 's app_state
   \<Rightarrow> (api_error, nat \<times> create_message_response intent_message processed_data_response) result option
      \<times> 's app_state" where
  "create_message X SA env auth req st =
     (case create_prepare X env auth req of
        Inl e \<Rightarrow> (Some (Inl e), st)
      | Inr message \<Rightarrow>
          (case sa_create_message SA message (as_storage st) of
             (Inl e, s) \<Rightarrow> (Some (Inl (api_error_from_storage X e)), st\<lparr>as_storage := s\<rparr>)
           | (Inr created, s) \<Rightarrow>
               (create_reply X env created,
                st\<lparr>as_storage := s, as_notified := as_notified st + 1\<rparr>)))"

section \<open>GET /messages\<close>

definition get_messages ::
  "'us externs \<Rightarrow> 's storage_adapter \<Rightarrow> auth_context \<Rightarrow> get_messages_query \<Rightarrow> 's
   \<Rightarrow> (api_error, get_messages_response) result" where
  "get_messages X SA auth query s =
     (case q_message_id query of
        Some message_id \<Rightarrow>
          bind_result (map_err (api_error_from_storage X) (sa_get_message SA message_id s)) (\<lambda>message.
            if ac_authorized_group auth \<noteq> Some (msg_group_id message) then
              Inl (Forbidden ''Message does not belong to the authorized group'')
            else Inr (Single (message_response_from X message)))
      | None \<Rightarrow>
          bind_result (ok_or (BadRequest ''Either message_id or group_id is required'')
              (q_group_id query)) (\<lambda>group_id.
            if ac_authorized_group auth \<noteq> Some group_id then
              Inl (Forbidden ''Not authorized for this group'')
            else
              (let limit = min (unwrap_or DEFAULT_PAGE_LIMIT (q_limit query)) MAX_PAGE_LIMIT
               in bind_result (map_err (api_error_from_storage X)
                      (sa_get_messages_by_group SA group_id (q_after_order query) (q_before_order query)
                        (limit + 1) s)) (\<lambda>messages.
                    Inr (Listing \<lparr>lr_messages = map (message_response_from X) (take limit messages),
                                  lr_has_next = (limit < length messages)\<rparr>)))))"

section \<open>PUT /messages\<close>

text \<open>
  The handler reads the message, checks group and owner, decodes, and then writes: the read and the
  write are two separate calls on the storage, with other requests possibly in between.
\<close>

definition update_check ::
  "'us externs \<Rightarrow> 's storage_adapter \<Rightarrow> auth_context \<Rightarrow> update_message_request \<Rightarrow> 's
   \<Rightarrow> (api_error, content) result" where
  "update_check X SA auth req s =
     bind_result (map_err (api_error_from_storage X) (sa_get_message SA (ur_message_id req) s))
       (\<lambda>existing_message.
          if ac_authorized_group auth \<noteq> Some (msg_group_id existing_message) then
            Inl (Forbidden ''Message does not belong to the authorized group'')
          else if msg_sender_wallet_addr existing_message \<noteq> ac_sender_address auth then
            Inl (Forbidden ''Only the original sender can edit this message'')
          else
            decode_content X auth (ur_group_id req) (ur_encrypted_text req) (ur_nonce req)
              (ur_key_version req) (ur_message_signature req) (ur_attachments req))"

definition update_commit ::
  "'us externs \<Rightarrow> 's storage_adapter \<Rightarrow> datetime \<Rightarrow> update_message_request \<Rightarrow> content \<Rightarrow> 's
   \<Rightarrow> message storage_result \<times> 's" where
  "update_commit X SA now req c s =
     sa_update_message SA now (ur_message_id req) (ct_encrypted_msg c) (ct_nonce c)
       (ur_key_version req) (ct_attachments c) (ct_signature c) (ct_public_key c) s"

definition empty_reply ::
  "'us externs \<Rightarrow> handler_env
   \<Rightarrow> (api_error, empty_response intent_message processed_data_response) result option" where
  "empty_reply X env =
     (let timestamp_ms = x_unix_millis X (he_reply_now env)
      in map_option Inr (to_signed_response X (he_bcs_empty env) (he_key_pair env) EmptyResponse
           timestamp_ms MessageDelivery))"

definition update_message ::
  "'us externs \<Rightarrow> 's storage_adapter \<Rightarrow> handler_env \<Rightarrow> auth_context \<Rightarrow> update_message_request \<Rightarrow> 's app_state
   \<Rightarrow> (api_error, empty_response intent_message processed_data_response) result option \<times> 's app_state" where
  "update_message X SA env auth req st =
     (case update_check X SA auth req (as_storage st) of
        Inl e \<Rightarrow> (Some (Inl e), st)
      | Inr c \<Rightarrow>
          (case update_commit X SA (he_now env) req c (as_storage st) of
             (Inl e, s) \<Rightarrow> (Some (Inl (api_error_from_storage X e)), st\<lparr>as_storage := s\<rparr>)
           | (Inr _, s) \<Rightarrow> (empty_reply X env, st\<lparr>as_storage := s\<rparr>)))"

section \<open>DELETE /messages/:message_id\<close>

definition delete_check ::
  "'us externs \<Rightarrow> 's storage_adapter \<Rightarrow> auth_context \<Rightarrow> uuid \<Rightarrow> 's \<Rightarrow> (api_error, unit) result" where
  "delete_check X SA auth message_id s =
     bind_result (map_err (api_error_from_storage X) (sa_get_message SA message_id s))
       (\<lambda>existing_message.
          if ac_authorized_group auth \<noteq> Some (msg_group_id existing_message) then
            Inl (Forbidden ''Message does not belong to the authorized group'')
          else if msg_sender_wallet_addr existing_message \<noteq> ac_sender_address auth then
            Inl (Forbidden ''Only the original sender can delete this message'')
          else Inr ())"

definition delete_message ::
  "'us externs \<Rightarrow> 's storage_adapter \<Rightarrow> handler_env \<Rightarrow> auth_context \<Rightarrow> uuid \<Rightarrow> 's app_state
   \<Rightarrow> (api_error, empty_response) result option \<times> 's app_state" where
  "delete_message X SA env auth message_id st =
     (case delete_check X SA auth message_id (as_storage st) of
        Inl e \<Rightarrow> (Some (Inl e), st)
      | Inr _ \<Rightarrow>
          (case sa_delete_message SA (he_now env) message_id (as_storage st) of
             (Inl e, s) \<Rightarrow> (Some (Inl (api_error_from_storage X e)), st\<lparr>as_storage := s\<rparr>)
           | (Inr _, s) \<Rightarrow> (Some (Inr EmptyResponse), st\<lparr>as_storage := s\<rparr>)))"

section \<open>What decoded content has shown\<close>

text \<open>The content is signed, over the canonical text of the request, by the key of the request.\<close>

definition content_signed ::
  "'us externs \<Rightarrow> auth_context \<Rightarrow> string \<Rightarrow> i64 \<Rightarrow> content \<Rightarrow> bool" where
  "content_signed X auth group_id key_version c \<longleftrightarrow>
     (\<exists>text nonce_hex.
        x_hex_decode X text = Inr (ct_encrypted_msg c) \<and> x_hex_decode X nonce_hex = Inr (ct_nonce c) \<and>
        signature_valid X (as_bytes (canonical_message group_id text nonce_hex key_version))
          (ct_signature c) (ac_public_key auth) (ac_scheme auth)) \<and>
     length (ct_nonce c) = 12 \<and>
     ct_public_key c = scheme_flag (ac_scheme auth) # ac_public_key auth"

lemma verify_message_signature_Inr_iff:
  "verify_message_signature X sg_hex g e n k auth = Inr sg \<longleftrightarrow>
     x_hex_decode X sg_hex = Inr sg \<and>
     signature_valid X (as_bytes (canonical_message g e n k)) sg (ac_public_key auth) (ac_scheme auth)"
  by (auto simp: verify_message_signature_def bind_result_Inr_iff verify_signature_Inr_iff
      signature_valid_def)

lemma decode_attachments_Inr_iff:
  "decode_attachments X rs = Inr atts \<longleftrightarrow> list_all2 (\<lambda>r a. try_into_attachment X r = Inr a) rs atts"
  by (simp add: decode_attachments_def collect_results_Inr)

lemma decode_content_Inr_iff:
  "decode_content X auth g e n k sg atts = Inr c \<longleftrightarrow>
     x_hex_decode X e = Inr (ct_encrypted_msg c) \<and> x_hex_decode X n = Inr (ct_nonce c) \<and>
     length (ct_nonce c) = 12 \<and> verify_message_signature X sg g e n k auth = Inr (ct_signature c) \<and>
     decode_attachments X atts = Inr (ct_attachments c) \<and>
     ct_public_key c = scheme_flag (ac_scheme auth) # ac_public_key auth"
  by (cases c) (auto simp: decode_content_def bind_result_Inr_iff)

lemma decode_content_signed:
  "decode_content X auth g e n k sg atts = Inr c \<Longrightarrow> content_signed X auth g k c"
  unfolding decode_content_Inr_iff verify_message_signature_Inr_iff content_signed_def by blast

text \<open>
  \<open>authentic m\<close>: the stored signature verifies, under the stored key, over the message's current
  group, content, nonce and key version, and that key's address is the sender's.
\<close>

definition authentic :: "'us externs \<Rightarrow> message \<Rightarrow> bool" where
  "authentic X m \<longleftrightarrow>
     (\<exists>scheme pk text nonce_hex.
        msg_public_key m = scheme_flag scheme # pk \<and>
        derive_sui_address X pk scheme = Inr (msg_sender_wallet_addr m) \<and>
        x_hex_decode X text = Inr (msg_encrypted_msg m) \<and> x_hex_decode X nonce_hex = Inr (msg_nonce m) \<and>
        signature_valid X
          (as_bytes (canonical_message (msg_group_id m) text nonce_hex (msg_key_version m)))
          (msg_signature m) pk scheme) \<and>
     length (msg_nonce m) = 12"

definition auth_bound :: "'us externs \<Rightarrow> auth_context \<Rightarrow> bool" where
  "auth_bound X auth \<longleftrightarrow>
     derive_sui_address X (ac_public_key auth) (ac_scheme auth) = Inr (ac_sender_address auth)"

lemma authentic_fields:
  "authentic X n \<Longrightarrow>
     msg_public_key m = msg_public_key n \<Longrightarrow> msg_sender_wallet_addr m = msg_sender_wallet_addr n \<Longrightarrow>
     msg_encrypted_msg m = msg_encrypted_msg n \<Longrightarrow> msg_nonce m = msg_nonce n \<Longrightarrow>
     msg_group_id m = msg_group_id n \<Longrightarrow> msg_key_version m = msg_key_version n \<Longrightarrow>
     msg_signature m = msg_signature n \<Longrightarrow> authentic X m"
  by (simp add: authentic_def)

lemma authentic_set_order [simp]: "authentic X (set_order k m) = authentic X m"
  by (simp add: authentic_def set_order_def)

lemma authentic_mark_for_deletion [simp]: "authentic X (mark_for_deletion now m) = authentic X m"
  by (simp add: authentic_def mark_for_deletion_def)

lemma authentic_set_sync_status [simp]: "authentic X (set_sync_status now st q m) = authentic X m"
  by (cases q) (simp_all add: authentic_def set_sync_status_def Let_def)

lemma authentic_new:
  assumes "auth_bound X auth" and "content_signed X auth g k c" and "a = ac_sender_address auth"
  shows "authentic X (message_new now uid g a (ct_encrypted_msg c) (ct_nonce c) k atts
    (ct_signature c) (ct_public_key c))"
  using assms unfolding authentic_def auth_bound_def content_signed_def message_new_def
  by auto

lemma authentic_updated:
  assumes "auth_bound X auth" and "content_signed X auth (msg_group_id m) k c"
    and "msg_sender_wallet_addr m = ac_sender_address auth"
  shows "authentic X (update_content now (ct_encrypted_msg c) (ct_nonce c) k atts
    (ct_signature c) (ct_public_key c) m)"
  using assms unfolding authentic_def auth_bound_def content_signed_def update_content_def
  by auto

lemma create_prepare_Inr:
  assumes "create_prepare X env auth req = Inr m"
  obtains c where "content_signed X auth (cr_group_id req) (cr_key_version req) c"
    and "decode_attachments X (cr_attachments req) = Inr (ct_attachments c)"
    and "m = message_new (he_now env) (he_uuid env) (cr_group_id req) (cr_sender_address req)
      (ct_encrypted_msg c) (ct_nonce c) (cr_key_version req) (ct_attachments c) (ct_signature c)
      (ct_public_key c)"
proof -
  from assms obtain c where
    d: "decode_content X auth (cr_group_id req) (cr_encrypted_text req) (cr_nonce req)
      (cr_key_version req) (cr_message_signature req) (cr_attachments req) = Inr c"
    and m: "m = message_new (he_now env) (he_uuid env) (cr_group_id req) (cr_sender_address req)
      (ct_encrypted_msg c) (ct_nonce c) (cr_key_version req) (ct_attachments c) (ct_signature c)
      (ct_public_key c)"
    by (auto simp: create_prepare_def bind_result_Inr_iff)
  from d have "decode_attachments X (cr_attachments req) = Inr (ct_attachments c)"
    by (simp add: decode_content_Inr_iff)
  from that [OF decode_content_signed [OF d] this m] show thesis .
qed

lemma create_prepare_fields:
  assumes "create_prepare X env auth req = Inr m"
  shows "msg_id m = he_uuid env" "msg_group_id m = cr_group_id req"
    "msg_sender_wallet_addr m = cr_sender_address req" "msg_sync_status m = SyncPending"
    "msg_key_version m = cr_key_version req"
  using assms
  by (auto elim!: create_prepare_Inr simp: message_new_def default_sync_status_def)

lemma create_prepare_authentic:
  assumes "create_prepare X env auth req = Inr m"
    and "auth_bound X auth" and "cr_sender_address req = ac_sender_address auth"
  shows "authentic X m"
  using assms by (auto elim!: create_prepare_Inr intro: authentic_new)

section \<open>The handlers over any storage that meets the contract\<close>

lemma to_signed_response_Some_iff:
  "to_signed_response X bcs kp d t i = Some r \<longleftrightarrow>
     (\<exists>bs. bcs \<lparr>im_intent = i, im_timestamp_ms = t, im_data = d\<rparr> = Inr bs \<and>
        r = \<lparr>pd_response = \<lparr>im_intent = i, im_timestamp_ms = t, im_data = d\<rparr>,
             pd_signature = x_hex_encode X (kp_sign kp bs),
             pd_enclave_public_key = x_hex_encode X (kp_public_key_bytes kp)\<rparr>)"
  by (auto simp: to_signed_response_def Let_def split: sum.splits)

context storage_contract
begin

text \<open>The two checks of the handlers read the table.\<close>

lemma delete_check_Inr_iff:
  "inv s \<Longrightarrow> delete_check X SA auth mid s = Inr () \<longleftrightarrow>
     (\<exists>m. table s mid = Some m \<and> ac_authorized_group auth = Some (msg_group_id m) \<and>
        msg_sender_wallet_addr m = ac_sender_address auth)"
  by (cases "table s mid") (auto simp: delete_check_def get bind_result_Inr_iff)

lemma update_check_Inr_iff:
  "inv s \<Longrightarrow> update_check X SA auth req s = Inr c \<longleftrightarrow>
     (\<exists>m. table s (ur_message_id req) = Some m \<and> ac_authorized_group auth = Some (msg_group_id m) \<and>
        msg_sender_wallet_addr m = ac_sender_address auth \<and>
        decode_content X auth (ur_group_id req) (ur_encrypted_text req) (ur_nonce req)
          (ur_key_version req) (ur_message_signature req) (ur_attachments req) = Inr c)"
  by (cases "table s (ur_message_id req)") (auto simp: update_check_def get bind_result_Inr_iff)

text \<open>Every handler keeps the invariant of the storage and the identity of every message.\<close>

lemma create_message_inv:
  assumes "inv (as_storage st)" and "room (as_storage st) (cr_group_id req)"
  shows "inv (as_storage (snd (create_message X SA env auth req st))) \<and>
    keeps_identities (table (as_storage st))
      (table (as_storage (snd (create_message X SA env auth req st))))"
proof (cases "create_prepare X env auth req")
  case (Inl e)
  with assms show ?thesis by (simp add: create_message_def)
next
  case (Inr m)
  then have "room (as_storage st) (msg_group_id m)"
    using assms(2) by (simp add: create_prepare_fields)
  from create_inv [OF assms(1) this] create_keeps [OF assms(1) this] Inr show ?thesis
    by (cases "sa_create_message SA m (as_storage st)")
      (auto simp: create_message_def split: sum.splits)
qed

lemma update_message_inv:
  assumes "inv (as_storage st)"
  shows "inv (as_storage (snd (update_message X SA env auth req st))) \<and>
    keeps_identities (table (as_storage st))
      (table (as_storage (snd (update_message X SA env auth req st))))"
proof (cases "update_check X SA auth req (as_storage st)")
  case (Inl e)
  with assms show ?thesis by (simp add: update_message_def)
next
  case (Inr c)
  let ?r = "update_commit X SA (he_now env) req c (as_storage st)"
  have "inv (snd ?r) \<and> keeps_identities (table (as_storage st)) (table (snd ?r))"
    unfolding update_commit_def using update_inv [OF assms] update_keeps [OF assms] by blast
  with Inr show ?thesis
    by (cases ?r) (auto simp: update_message_def split: sum.splits)
qed

lemma delete_message_inv:
  assumes "inv (as_storage st)"
  shows "inv (as_storage (snd (delete_message X SA env auth mid st))) \<and>
    keeps_identities (table (as_storage st))
      (table (as_storage (snd (delete_message X SA env auth mid st))))"
proof (cases "delete_check X SA auth mid (as_storage st)")
  case (Inl e)
  with assms show ?thesis by (simp add: delete_message_def)
next
  case (Inr c)
  with delete_inv [OF assms, of "he_now env" mid] delete_keeps [OF assms, of "he_now env" mid]
  show ?thesis
    by (cases "sa_delete_message SA (he_now env) mid (as_storage st)")
      (auto simp: delete_message_def split: sum.splits)
qed

text \<open>The successful runs, by what they did to the table.\<close>

lemma create_message_ok:
  assumes s: "inv (as_storage st)" "room (as_storage st) (cr_group_id req)"
    and run: "create_message X SA env auth req st = (Some (Inr (status, reply)), st')"
  obtains m k where "create_prepare X env auth req = Inr m" and "status = 201"
    and "table (as_storage st) (he_uuid env) = None"
    and "\<not> nonce_used (table (as_storage st)) (msg_nonce m)"
    and "table (as_storage st') = (table (as_storage st))(he_uuid env \<mapsto> set_order k m)"
    and "0 < sint k"
    and "\<forall>n\<in>ran (table (as_storage st)). msg_group_id n = cr_group_id req \<longrightarrow> order_key n < sint k"
    and "as_notified st' = as_notified st + 1"
    and "cresp_message_id (im_data (pd_response reply)) = he_uuid env"
proof -
  let ?s = "as_storage st"
  from run obtain m where m: "create_prepare X env auth req = Inr m"
    by (cases "create_prepare X env auth req") (simp_all add: create_message_def)
  note f = create_prepare_fields [OF m]
  let ?r = "sa_create_message SA m ?s"
  from run m obtain created where ok: "fst ?r = Inr created"
    and rep: "create_reply X env created = Some (Inr (status, reply))"
    and st': "st' = st\<lparr>as_storage := snd ?r, as_notified := as_notified st + 1\<rparr>"
    by (cases ?r) (auto simp: create_message_def split: sum.splits)
  have new: "table ?s (msg_id m) = None"
    using create_dup_id [OF s(1), of m] ok by (cases "table ?s (msg_id m)") simp_all
  have nonce: "\<not> nonce_used (table ?s) (msg_nonce m)"
    using create_dup_nonce [OF s(1) new] ok by auto
  from create_ok [OF s(1) new nonce] s(2) f(2) obtain k where
    k: "fst ?r = Inr (set_order k m)" "table (snd ?r) = (table ?s)(msg_id m \<mapsto> set_order k m)"
      "0 < sint k" "\<forall>n\<in>ran (table ?s). msg_group_id n = msg_group_id m \<longrightarrow> order_key n < sint k"
    by auto
  have "status = 201 \<and> cresp_message_id (im_data (pd_response reply)) = he_uuid env"
    using rep ok k(1) f(1)
    by (auto simp: create_reply_def to_signed_response_Some_iff Let_def set_order_def)
  with that [of m k] m new nonce k st' f show thesis by simp
qed

lemma update_message_ok:
  assumes s: "inv (as_storage st)"
    and run: "update_message X SA env auth req st = (Some (Inr reply), st')"
  obtains m c where "table (as_storage st) (ur_message_id req) = Some m"
    and "ac_authorized_group auth = Some (msg_group_id m)"
    and "msg_sender_wallet_addr m = ac_sender_address auth"
    and "decode_content X auth (ur_group_id req) (ur_encrypted_text req) (ur_nonce req)
          (ur_key_version req) (ur_message_signature req) (ur_attachments req) = Inr c"
    and "\<not> nonce_used_by_other (table (as_storage st)) (ur_message_id req) (ct_nonce c)"
    and "table (as_storage st') = (table (as_storage st))(ur_message_id req \<mapsto>
      update_content (he_now env) (ct_encrypted_msg c) (ct_nonce c) (ur_key_version req)
        (ct_attachments c) (ct_signature c) (ct_public_key c) m)"
    and "as_notified st' = as_notified st"
proof -
  let ?s = "as_storage st"
  from run obtain c where c: "update_check X SA auth req ?s = Inr c"
    by (cases "update_check X SA auth req ?s") (simp_all add: update_message_def)
  from c obtain m where m: "table ?s (ur_message_id req) = Some m"
      "ac_authorized_group auth = Some (msg_group_id m)"
      "msg_sender_wallet_addr m = ac_sender_address auth"
    and d: "decode_content X auth (ur_group_id req) (ur_encrypted_text req) (ur_nonce req)
          (ur_key_version req) (ur_message_signature req) (ur_attachments req) = Inr c"
    unfolding update_check_Inr_iff [OF s] by blast
  let ?r = "update_commit X SA (he_now env) req c ?s"
  from run c obtain u where ok: "fst ?r = Inr u" and st': "st' = st\<lparr>as_storage := snd ?r\<rparr>"
    by (cases ?r) (auto simp: update_message_def split: sum.splits)
  have free: "\<not> nonce_used_by_other (table ?s) (ur_message_id req) (ct_nonce c)"
    using update_dup_nonce [OF s m(1)] ok by (auto simp: update_commit_def)
  from update_ok [OF s m(1) free] st' that [OF m d free] show thesis
    by (simp add: update_commit_def)
qed

text \<open>The author of a message is never refused: the conditions under which the two handlers go through.\<close>

lemma update_message_succeeds:
  assumes s: "inv (as_storage st)" and m: "table (as_storage st) (ur_message_id req) = Some m"
    and author: "ac_authorized_group auth = Some (msg_group_id m)" "ac_sender_address auth = msg_sender_wallet_addr m"
    and c: "decode_content X auth (ur_group_id req) (ur_encrypted_text req) (ur_nonce req)
          (ur_key_version req) (ur_message_signature req) (ur_attachments req) = Inr c"
    and free: "\<not> nonce_used_by_other (table (as_storage st)) (ur_message_id req) (ct_nonce c)"
  obtains s' where "update_message X SA env auth req st = (empty_reply X env, st\<lparr>as_storage := s'\<rparr>)"
    and "table s' = (table (as_storage st))(ur_message_id req \<mapsto>
      update_content (he_now env) (ct_encrypted_msg c) (ct_nonce c) (ur_key_version req)
        (ct_attachments c) (ct_signature c) (ct_public_key c) m)"
proof -
  let ?r = "update_commit X SA (he_now env) req c (as_storage st)"
  have "update_check X SA auth req (as_storage st) = Inr c"
    unfolding update_check_Inr_iff [OF s] using m author c by auto
  moreover note ok = update_ok [OF s m free, of "he_now env" "ct_encrypted_msg c" "ur_key_version req"
      "ct_attachments c" "ct_signature c" "ct_public_key c", folded update_commit_def [of X]]
  ultimately show thesis
    by (intro that [of "snd ?r"]) (cases ?r; simp add: update_message_def)+
qed

lemma delete_message_succeeds:
  assumes s: "inv (as_storage st)" and m: "table (as_storage st) mid = Some m"
    and author: "ac_authorized_group auth = Some (msg_group_id m)" "ac_sender_address auth = msg_sender_wallet_addr m"
  obtains s' where "delete_message X SA env auth mid st = (Some (Inr EmptyResponse), st\<lparr>as_storage := s'\<rparr>)"
    and "table s' = (table (as_storage st))(mid \<mapsto> mark_for_deletion (he_now env) m)"
proof -
  let ?r = "sa_delete_message SA (he_now env) mid (as_storage st)"
  have "delete_check X SA auth mid (as_storage st) = Inr ()"
    unfolding delete_check_Inr_iff [OF s] using m author by auto
  with delete_ok [OF s m, of "he_now env"] show thesis
    by (intro that [of "snd ?r"]) (cases ?r; simp add: delete_message_def)+
qed

lemma delete_message_ok:
  assumes s: "inv (as_storage st)"
    and run: "delete_message X SA env auth mid st = (Some (Inr reply), st')"
  obtains m where "table (as_storage st) mid = Some m"
    and "ac_authorized_group auth = Some (msg_group_id m)"
    and "msg_sender_wallet_addr m = ac_sender_address auth"
    and "table (as_storage st') = (table (as_storage st))(mid \<mapsto> mark_for_deletion (he_now env) m)"
    and "as_notified st' = as_notified st"
proof -
  let ?s = "as_storage st"
  from run have "delete_check X SA auth mid ?s = Inr ()"
    by (cases "delete_check X SA auth mid ?s") (simp_all add: delete_message_def)
  then obtain m where m: "table ?s mid = Some m" "ac_authorized_group auth = Some (msg_group_id m)"
      "msg_sender_wallet_addr m = ac_sender_address auth"
    unfolding delete_check_Inr_iff [OF s] by blast
  let ?r = "sa_delete_message SA (he_now env) mid ?s"
  from run delete_ok [OF s m(1), of "he_now env"] \<open>delete_check X SA auth mid ?s = Inr ()\<close>
  have "st' = st\<lparr>as_storage := snd ?r\<rparr>"
    by (cases ?r) (auto simp: delete_message_def)
  with that [OF m] delete_ok [OF s m(1), of "he_now env"] show thesis by simp
qed

text \<open>Reading: a single message, or a page of the group.\<close>

lemma get_single:
  assumes "inv s" and "q_message_id q = Some mid"
  shows "get_messages X SA auth q s =
    (case table s mid of
       None \<Rightarrow> Inl (api_error_from_storage X (NotFound mid))
     | Some m \<Rightarrow>
         if ac_authorized_group auth = Some (msg_group_id m) then Inr (Single (message_response_from X m))
         else Inl (Forbidden ''Message does not belong to the authorized group''))"
  using assms by (cases "table s mid") (simp_all add: get_messages_def get)

lemma get_page:
  assumes "inv s" and "q_message_id q = None" and "q_group_id q = Some g"
    and "ac_authorized_group auth = Some g"
  shows "\<exists>page. get_messages X SA auth q s =
      Inr (Listing \<lparr>lr_messages = map (message_response_from X)
          (take (min (unwrap_or DEFAULT_PAGE_LIMIT (q_limit q)) MAX_PAGE_LIMIT) page),
        lr_has_next = (min (unwrap_or DEFAULT_PAGE_LIMIT (q_limit q)) MAX_PAGE_LIMIT < length page)\<rparr>) \<and>
    set page = {m \<in> ran (table s). msg_group_id m = g \<and> in_page (q_after_order q) (q_before_order q) m} \<and>
    sorted_wrt (<) (map order_key page)"
proof -
  let ?n = "min (unwrap_or DEFAULT_PAGE_LIMIT (q_limit q)) MAX_PAGE_LIMIT"
  from by_group [OF assms(1), of g "q_after_order q" "q_before_order q" "?n + 1"] obtain page where
    "sa_get_messages_by_group SA g (q_after_order q) (q_before_order q) (?n + 1) s
       = Inr (take (?n + 1) page)"
    and page: "set page = {m \<in> ran (table s). msg_group_id m = g \<and>
        in_page (q_after_order q) (q_before_order q) m}" "sorted_wrt (<) (map order_key page)"
    by blast
  then have "get_messages X SA auth q s =
      Inr (Listing \<lparr>lr_messages = map (message_response_from X) (take ?n page),
        lr_has_next = (?n < length page)\<rparr>)"
    using assms(2-4) by (auto simp: get_messages_def Let_def min_def)
  with page show ?thesis by blast
qed

end

section \<open>The text a sender signs\<close>

text \<open>
  C23. The signed text of a message names its content unambiguously: two canonical texts whose ciphertext
  and nonce fields are decodable hex are equal only if group, ciphertext, nonce and key version are all
  equal, although the fields are joined by a plain colon and a group id may itself contain colons.
\<close>
theorem canonical_message_injective:
  assumes "hex_codec (x_hex_encode X) (x_hex_decode X)"
    and "x_hex_decode X e = Inr e1" "x_hex_decode X n = Inr n1"
    and "x_hex_decode X e' = Inr e2" "x_hex_decode X n' = Inr n2"
    and "canonical_message g e n k = canonical_message g' e' n' k'"
  shows "g = g' \<and> e = e' \<and> n = n' \<and> k = k'"
proof -
  note plain = hex_codec.dec_no_colon [OF assms(1)]
  have "(g @ '':'' @ e @ '':'' @ n) @ CHR '':'' # show_i64 k =
      (g' @ '':'' @ e' @ '':'' @ n') @ CHR '':'' # show_i64 k'"
    using assms(6) by (simp add: canonical_message_def)
  from append_sep_inject_right [OF this show_i64_no_colon show_i64_no_colon]
  have "(g @ '':'' @ e) @ CHR '':'' # n = (g' @ '':'' @ e') @ CHR '':'' # n'" and k: "k = k'" by simp_all
  from append_sep_inject_right [OF this(1) plain [OF assms(3)] plain [OF assms(5)]]
  have "g @ CHR '':'' # e = g' @ CHR '':'' # e'" and n: "n = n'" by simp_all
  from append_sep_inject_right [OF this(1) plain [OF assms(2)] plain [OF assms(4)]] k n
  show ?thesis by simp
qed

lemma canonical_message_injective_witness:
  "canonical_message ''0xaa'' ''01'' ''02'' 3 = canonical_message ''0xaa'' ''01'' ''02'' 3 \<and>
   canonical_message ''a:b'' ''01'' ''02'' 3 \<noteq> canonical_message ''a'' ''01'' ''02'' 3"
proof -
  have d: "hex_decode ''01'' = Inr [1]" "hex_decode ''02'' = Inr [2]"
    by (simp_all add: hex_decode_def hex_val_def Let_def)
  show ?thesis
    using canonical_message_injective [of ref_externs "''01''" "[1]" "''02''" "[2]" "''01''" "[1]" "''02''" "[2]"
        "''a:b''" 3 "''a''" 3] d hx.hex_codec_axioms
    by auto
qed

end
