(* ===== verification/Membership.thy ===== *)
theory Membership
  imports Auth_Types
begin

text \<open>
  \<open>src/relayer/src/auth/membership.rs\<close>: the trait \<open>MembershipStore\<close> as a record of operations over a
  state type, its contract as the locale \<open>membership_contract\<close>, and the in-memory implementation.

  The implementation keeps \<open>HashMap<String, HashMap<String, HashSet<MessagingPermission>>>\<close> behind one
  \<open>RwLock\<close>; every method holds the lock for its whole body, so each is one atomic step. The lock is
  only unwrapped, never reported: no method panics while it holds it, so it is never poisoned.
\<close>

datatype membership_error = MemberNotFound string string  \<comment> \<open>group id, address\<close>

fun membership_error_display :: "membership_error \<Rightarrow> string" where
  "membership_error_display (MemberNotFound group_id address) =
     ''Member '' @ address @ '' not found in group '' @ group_id"

section \<open>The trait\<close>

record 'm membership_store =
  ms_has_permission :: "'m \<Rightarrow> string \<Rightarrow> string \<Rightarrow> messaging_permission \<Rightarrow> bool"
  ms_is_member :: "'m \<Rightarrow> string \<Rightarrow> string \<Rightarrow> bool"
  ms_get_permissions :: "'m \<Rightarrow> string \<Rightarrow> string \<Rightarrow> messaging_permission list"
  ms_grant_permissions ::
    "string \<Rightarrow> string \<Rightarrow> messaging_permission list \<Rightarrow> 'm \<Rightarrow> (membership_error, unit) result \<times> 'm"
  ms_revoke_permissions ::
    "string \<Rightarrow> string \<Rightarrow> messaging_permission list \<Rightarrow> 'm \<Rightarrow> (membership_error, unit) result \<times> 'm"
  ms_add_member :: "string \<Rightarrow> string \<Rightarrow> messaging_permission list \<Rightarrow> 'm \<Rightarrow> 'm"
  ms_remove_member :: "string \<Rightarrow> string \<Rightarrow> 'm \<Rightarrow> 'm"
  ms_set_group_members :: "string \<Rightarrow> (string \<times> messaging_permission list) list \<Rightarrow> 'm \<Rightarrow> 'm"

section \<open>The in-memory implementation\<close>

type_synonym group_members = "string \<rightharpoonup> messaging_permission set"

record mem_members =
  members :: "string \<rightharpoonup> group_members"

definition new_members :: mem_members where
  "new_members = \<lparr>members = Map.empty\<rparr>"

definition lookup_member :: "mem_members \<Rightarrow> string \<Rightarrow> string \<Rightarrow> messaging_permission set option" where
  "lookup_member m group_id address =
     (case members m group_id of None \<Rightarrow> None | Some group_members \<Rightarrow> group_members address)"

definition has_permission ::
  "mem_members \<Rightarrow> string \<Rightarrow> string \<Rightarrow> messaging_permission \<Rightarrow> bool" where
  "has_permission m group_id address permission =
     unwrap_or False (map_option (\<lambda>perms. permission \<in> perms) (lookup_member m group_id address))"

definition is_member :: "mem_members \<Rightarrow> string \<Rightarrow> string \<Rightarrow> bool" where
  "is_member m group_id address =
     unwrap_or False (map_option (\<lambda>perms. perms \<noteq> {}) (lookup_member m group_id address))"

text \<open>\<open>iter_order\<close> is the order in which the \<open>HashSet\<close> happens to yield its elements.\<close>

definition get_permissions ::
  "messaging_permission list \<Rightarrow> mem_members \<Rightarrow> string \<Rightarrow> string \<Rightarrow> messaging_permission list" where
  "get_permissions iter_order m group_id address =
     unwrap_or [] (map_option (\<lambda>perms. filter (\<lambda>p. p \<in> perms) iter_order)
       (lookup_member m group_id address))"

definition grant_permissions ::
  "string \<Rightarrow> string \<Rightarrow> messaging_permission list \<Rightarrow> mem_members
   \<Rightarrow> (membership_error, unit) result \<times> mem_members" where
  "grant_permissions group_id address permissions m =
     (case members m group_id of
        None \<Rightarrow> (Inl (MemberNotFound group_id address), m)
      | Some group_members \<Rightarrow>
          (case group_members address of
             None \<Rightarrow> (Inl (MemberNotFound group_id address), m)
           | Some member_perms \<Rightarrow>
               (Inr (), m\<lparr>members := (members m)(group_id \<mapsto>
                  group_members(address \<mapsto> fold insert permissions member_perms))\<rparr>)))"

definition revoke_permissions ::
  "string \<Rightarrow> string \<Rightarrow> messaging_permission list \<Rightarrow> mem_members
   \<Rightarrow> (membership_error, unit) result \<times> mem_members" where
  "revoke_permissions group_id address permissions m =
     (case members m group_id of
        None \<Rightarrow> (Inl (MemberNotFound group_id address), m)
      | Some group_members \<Rightarrow>
          (case group_members address of
             None \<Rightarrow> (Inl (MemberNotFound group_id address), m)
           | Some member_perms \<Rightarrow>
               (Inr (), m\<lparr>members := (members m)(group_id \<mapsto>
                  group_members(address \<mapsto> fold (\<lambda>p s. s - {p}) permissions member_perms))\<rparr>)))"

definition add_member ::
  "string \<Rightarrow> string \<Rightarrow> messaging_permission list \<Rightarrow> mem_members \<Rightarrow> mem_members" where
  "add_member group_id address initial_permissions m =
     (let group_members = unwrap_or Map.empty (members m group_id)
      in m\<lparr>members := (members m)(group_id \<mapsto> group_members(address \<mapsto> set initial_permissions))\<rparr>)"

definition remove_member :: "string \<Rightarrow> string \<Rightarrow> mem_members \<Rightarrow> mem_members" where
  "remove_member group_id address m =
     (case members m group_id of
        None \<Rightarrow> m
      | Some group_members \<Rightarrow>
          m\<lparr>members := (members m)(group_id \<mapsto> group_members(address := None))\<rparr>)"

definition set_group_members ::
  "string \<Rightarrow> (string \<times> messaging_permission list) list \<Rightarrow> mem_members \<Rightarrow> mem_members" where
  "set_group_members group_id members_with_perms m =
     (let group_members =
            foldl (\<lambda>g (address, permissions). g(address \<mapsto> set permissions)) Map.empty members_with_perms
      in m\<lparr>members := (members m)(group_id \<mapsto> group_members)\<rparr>)"

definition in_memory_membership :: "messaging_permission list \<Rightarrow> mem_members membership_store" where
  "in_memory_membership iter_order =
     \<lparr> ms_has_permission = has_permission,
       ms_is_member = is_member,
       ms_get_permissions = get_permissions iter_order,
       ms_grant_permissions = grant_permissions,
       ms_revoke_permissions = revoke_permissions,
       ms_add_member = add_member,
       ms_remove_member = remove_member,
       ms_set_group_members = set_group_members \<rparr>"

datatype membership_store_type = InMemoryMembership

definition create_membership_store ::
  "messaging_permission list \<Rightarrow> membership_store_type \<Rightarrow> mem_members membership_store \<times> mem_members" where
  "create_membership_store iter_order store_type =
     (case store_type of InMemoryMembership \<Rightarrow> (in_memory_membership iter_order, new_members))"

section \<open>The contract\<close>

text \<open>
  What callers may rely on: a store behaves like one table from (group, address) to permission
  sets. \<open>upd2\<close> changes one entry of the table.
\<close>

type_synonym perm_table = "string \<Rightarrow> string \<Rightarrow> messaging_permission set option"

definition upd2 :: "('a \<Rightarrow> 'b \<Rightarrow> 'c) \<Rightarrow> 'a \<Rightarrow> 'b \<Rightarrow> 'c \<Rightarrow> 'a \<Rightarrow> 'b \<Rightarrow> 'c" where
  "upd2 t a b v = (\<lambda>x y. if x = a \<and> y = b then v else t x y)"

lemma upd2_apply [simp]: "upd2 t a b v x y = (if x = a \<and> y = b then v else t x y)"
  by (simp add: upd2_def)

locale membership_contract =
  fixes MS :: "'m membership_store"
    and table :: "'m \<Rightarrow> perm_table"
  assumes has_iff:
      "ms_has_permission MS m g a p \<longleftrightarrow> (\<exists>ps. table m g a = Some ps \<and> p \<in> ps)"
    and member_iff: "ms_is_member MS m g a \<longleftrightarrow> (\<exists>ps. table m g a = Some ps \<and> ps \<noteq> {})"
    and grant_known: "table m g a = Some ps \<Longrightarrow>
      fst (ms_grant_permissions MS g a xs m) = Inr () \<and>
      table (snd (ms_grant_permissions MS g a xs m)) = upd2 (table m) g a (Some (ps \<union> set xs))"
    and grant_unknown: "table m g a = None \<Longrightarrow>
      ms_grant_permissions MS g a xs m = (Inl (MemberNotFound g a), m)"
    and revoke_known: "table m g a = Some ps \<Longrightarrow>
      fst (ms_revoke_permissions MS g a xs m) = Inr () \<and>
      table (snd (ms_revoke_permissions MS g a xs m)) = upd2 (table m) g a (Some (ps - set xs))"
    and revoke_unknown: "table m g a = None \<Longrightarrow>
      ms_revoke_permissions MS g a xs m = (Inl (MemberNotFound g a), m)"
    and table_add: "table (ms_add_member MS g a xs m) = upd2 (table m) g a (Some (set xs))"
    and table_remove: "table (ms_remove_member MS g a m) = upd2 (table m) g a None"
    and table_set_group: "table (ms_set_group_members MS g ms m) =
      (\<lambda>x y. if x = g then map_option set (map_of (rev ms) y) else table m x y)"
begin

text \<open>An address that is not in the table has no permission and is no member.\<close>

lemma unknown_has_nothing:
  "table m g a = None \<Longrightarrow> \<not> ms_has_permission MS m g a p \<and> \<not> ms_is_member MS m g a"
  by (simp add: has_iff member_iff)

lemma member_has_some: "ms_is_member MS m g a \<longleftrightarrow> (\<exists>p. ms_has_permission MS m g a p)"
  by (auto simp: has_iff member_iff)

lemma table_grant: "table (snd (ms_grant_permissions MS g a xs m)) =
    upd2 (table m) g a (map_option (\<lambda>ps. ps \<union> set xs) (table m g a))"
  by (cases "table m g a") (auto simp: grant_known grant_unknown fun_eq_iff)

lemma table_revoke: "table (snd (ms_revoke_permissions MS g a xs m)) =
    upd2 (table m) g a (map_option (\<lambda>ps. ps - set xs) (table m g a))"
  by (cases "table m g a") (auto simp: revoke_known revoke_unknown fun_eq_iff)

lemmas table_simps = table_add table_remove table_set_group table_grant table_revoke

end

section \<open>The implementation meets the contract\<close>

lemma fold_insert_set: "fold insert xs s = s \<union> set xs"
  by (induction xs arbitrary: s) auto

lemma fold_remove_set: "fold (\<lambda>p s. s - {p}) xs s = s - set xs"
  by (induction xs arbitrary: s) auto

lemma foldl_group_members:
  "foldl (\<lambda>g (address, permissions). g(address \<mapsto> set permissions)) g0 ms y =
     (case map_of (rev ms) y of None \<Rightarrow> g0 y | Some ps \<Rightarrow> Some (set ps))"
  by (induction ms arbitrary: g0)
    (auto simp: map_add_def map_of_append split: option.splits)

lemma lookup_grant: "lookup_member m g a = Some ps \<Longrightarrow>
  fst (grant_permissions g a xs m) = Inr () \<and>
  lookup_member (snd (grant_permissions g a xs m)) = upd2 (lookup_member m) g a (Some (ps \<union> set xs))"
  by (auto simp: lookup_member_def grant_permissions_def fold_insert_set
      intro!: ext split: option.splits)

lemma lookup_grant_unknown: "lookup_member m g a = None \<Longrightarrow>
  grant_permissions g a xs m = (Inl (MemberNotFound g a), m)"
  by (auto simp: lookup_member_def grant_permissions_def split: option.splits)

lemma lookup_revoke: "lookup_member m g a = Some ps \<Longrightarrow>
  fst (revoke_permissions g a xs m) = Inr () \<and>
  lookup_member (snd (revoke_permissions g a xs m)) = upd2 (lookup_member m) g a (Some (ps - set xs))"
  by (auto simp: lookup_member_def revoke_permissions_def fold_remove_set
      intro!: ext split: option.splits)

lemma lookup_revoke_unknown: "lookup_member m g a = None \<Longrightarrow>
  revoke_permissions g a xs m = (Inl (MemberNotFound g a), m)"
  by (auto simp: lookup_member_def revoke_permissions_def split: option.splits)

lemma lookup_add: "lookup_member (add_member g a xs m) = upd2 (lookup_member m) g a (Some (set xs))"
  by (auto simp: lookup_member_def add_member_def unwrap_or_def Let_def fun_eq_iff
      split: option.splits)

lemma lookup_remove: "lookup_member (remove_member g a m) = upd2 (lookup_member m) g a None"
  by (auto simp: lookup_member_def remove_member_def fun_eq_iff split: option.splits)

lemma lookup_set_group: "lookup_member (set_group_members g ms m) =
    (\<lambda>x y. if x = g then map_option set (map_of (rev ms) y) else lookup_member m x y)"
  by (auto simp: lookup_member_def set_group_members_def foldl_group_members fun_eq_iff
      split: option.splits)

lemma lookup_new [simp]: "lookup_member new_members = (\<lambda>_ _. None)"
  by (simp add: lookup_member_def new_members_def fun_eq_iff)

interpretation mem: membership_contract "in_memory_membership iter_order" lookup_member
  by unfold_locales
    (simp_all add: in_memory_membership_def lookup_add lookup_remove lookup_set_group
      lookup_grant lookup_grant_unknown lookup_revoke lookup_revoke_unknown,
     auto simp: has_permission_def is_member_def unwrap_or_def split: option.splits)

text \<open>
  C30. Who holds which permission after each operation of the in-memory store: a grant only reaches
  addresses that are already members, a revocation takes exactly the named permissions from exactly
  the named address, adding a member replaces whatever permissions the address had, and removing one
  leaves it nothing. No operation touches any other address or group.
\<close>
theorem membership_operations:
  "(has_permission (snd (grant_permissions g a xs m)) g' a' p \<longleftrightarrow>
      has_permission m g' a' p \<or> (g' = g \<and> a' = a \<and> p \<in> set xs \<and> lookup_member m g a \<noteq> None)) \<and>
   (has_permission (snd (revoke_permissions g a xs m)) g' a' p \<longleftrightarrow>
      has_permission m g' a' p \<and> \<not> (g' = g \<and> a' = a \<and> p \<in> set xs)) \<and>
   (has_permission (add_member g a xs m) g' a' p \<longleftrightarrow>
      (if g' = g \<and> a' = a then p \<in> set xs else has_permission m g' a' p)) \<and>
   (has_permission (remove_member g a m) g' a' p \<longleftrightarrow>
      has_permission m g' a' p \<and> \<not> (g' = g \<and> a' = a)) \<and>
   (is_member m g' a' \<longleftrightarrow> (\<exists>q. has_permission m g' a' q))"
proof -
  note has = mem.has_iff [unfolded in_memory_membership_def membership_store.select_convs]
  note tables = mem.table_simps [unfolded in_memory_membership_def membership_store.select_convs]
  note some = mem.member_has_some [unfolded in_memory_membership_def membership_store.select_convs]
  show ?thesis
    unfolding some by (intro conjI) (auto simp: has tables)
qed

end
