(* ===== verification/Middleware.thy ===== *)
theory Middleware
  imports Signature Membership
begin

text \<open>
  \<open>src/relayer/src/auth/middleware.rs\<close>: authentication and authorization of every request to a route
  behind the layer. A request either goes on to the router's handler (\<open>Next\<close>), with the context that
  was established for it, or is answered here (\<open>Reply\<close>).

  \<open>J\<close> gathers \<open>serde_json\<close> at the three types the relayer parses from a body; the clock reading of
  \<open>validate_timestamp\<close> is the argument \<open>now\<close>.
\<close>

section \<open>Requests\<close>

datatype http_method = GET | POST | PUT | DELETE | OtherMethod string

text \<open>
  Header names are lower case; a name is mapped to the bytes of its first value. \<open>rq_body\<close> is \<open>None\<close>
  when collecting the body fails.
\<close>

record 'r http_request =
  rq_method :: http_method
  rq_route :: 'r
  rq_headers :: "string \<rightharpoonup> bytes"
  rq_body :: "bytes option"

record body_auth_fields =
  ba_group_id :: string
  ba_sender_address :: string
  ba_timestamp :: i64

record auth_error_body =
  ae_error :: string
  ae_code :: string

type_synonym auth_reply = "nat \<times> auth_error_body"

datatype 'r outcome = Next "'r http_request" "auth_context option" | Reply nat auth_error_body

definition get_header :: "'us externs \<Rightarrow> (string \<rightharpoonup> bytes) \<Rightarrow> string \<Rightarrow> string option" where
  "get_header X headers name =
     map_option trim (Option.bind (headers name) (x_header_to_str X))"

section \<open>Error replies\<close>

definition error_response :: "nat \<Rightarrow> string \<Rightarrow> string \<Rightarrow> auth_reply" where
  "error_response status message code = (status, \<lparr>ae_error = message, ae_code = code\<rparr>)"

fun auth_error_code :: "auth_error \<Rightarrow> string" where
  "auth_error_code (RequestExpired _ _ _) = ''REQUEST_EXPIRED''"
| "auth_error_code (InvalidSignatureFormat _) = ''INVALID_SIGNATURE_FORMAT''"
| "auth_error_code (InvalidPublicKeyFormat _) = ''INVALID_PUBLIC_KEY_FORMAT''"
| "auth_error_code (SignatureVerificationFailed _) = ''SIGNATURE_VERIFICATION_FAILED''"
| "auth_error_code (AddressMismatch _ _) = ''ADDRESS_MISMATCH''"
| "auth_error_code (NotGroupMember _ _) = ''NOT_GROUP_MEMBER''"
| "auth_error_code MissingSignature = ''MISSING_SIGNATURE''"
| "auth_error_code MissingPublicKey = ''MISSING_PUBLIC_KEY''"
| "auth_error_code MissingTimestamp = ''MISSING_TIMESTAMP''"
| "auth_error_code (InvalidTimestamp _) = ''INVALID_TIMESTAMP''"

definition auth_error_response :: "nat \<Rightarrow> auth_error \<Rightarrow> auth_reply" where
  "auth_error_response status err =
     error_response status (auth_error_display err) (auth_error_code err)"

section \<open>The steps of the middleware\<close>

fun required_permission :: "http_method \<Rightarrow> messaging_permission option" where
  "required_permission GET = Some MessagingReader"
| "required_permission POST = Some MessagingSender"
| "required_permission PUT = Some MessagingEditor"
| "required_permission DELETE = Some MessagingDeleter"
| "required_permission (OtherMethod _) = None"

definition show_hex_byte :: "u8 \<Rightarrow> string" where
  "show_hex_byte b = [hex_digit (unat b div 16), hex_digit (unat b mod 16)]"

text \<open>Step 3: the public key header names the scheme in its first byte.\<close>

definition decode_public_key ::
  "'us externs \<Rightarrow> string \<Rightarrow> (auth_reply, signature_scheme \<times> bytes) result" where
  "decode_public_key X public_key_hex =
     bind_result
       (map_err (\<lambda>e. auth_error_response 401 (InvalidPublicKeyFormat e)) (x_hex_decode X public_key_hex))
       (\<lambda>public_key_with_flag.
          case public_key_with_flag of
            [] \<Rightarrow> Inl (auth_error_response 401 (InvalidPublicKeyFormat ''Empty public key''))
          | flag # public_key_bytes \<Rightarrow>
              (case from_flag flag of
                 None \<Rightarrow> Inl (auth_error_response 401
                   (InvalidPublicKeyFormat (''Unknown signature scheme flag: 0x'' @ show_hex_byte flag)))
               | Some scheme \<Rightarrow>
                   if length public_key_bytes \<noteq> public_key_length scheme then
                     Inl (auth_error_response 401 (InvalidPublicKeyFormat
                       (''Expected '' @ show_nat (public_key_length scheme) @ '' bytes for ''
                         @ scheme_display scheme @ '', got '' @ show_nat (length public_key_bytes))))
                   else Inr (scheme, public_key_bytes)))"

text \<open>Step 6: the claimed group, sender and time, and the bytes that were signed.\<close>

record auth_claim =
  cl_group_id :: string
  cl_sender_address :: string
  cl_timestamp :: i64
  cl_message_bytes :: bytes

definition canonical_headers :: "i64 \<Rightarrow> string \<Rightarrow> string \<Rightarrow> string" where
  "canonical_headers timestamp sender_address group_id =
     show_i64 timestamp @ '':'' @ sender_address @ '':'' @ group_id"

definition body_claim ::
  "(bytes \<Rightarrow> (string, body_auth_fields) result) \<Rightarrow> bytes \<Rightarrow> (auth_reply, auth_claim) result" where
  "body_claim parse body_bytes =
     bind_result
       (map_err (\<lambda>e. error_response 400 (''Invalid request body: '' @ e) ''INVALID_BODY'')
         (parse body_bytes))
       (\<lambda>body_auth. Inr \<lparr>cl_group_id = ba_group_id body_auth,
          cl_sender_address = ba_sender_address body_auth,
          cl_timestamp = ba_timestamp body_auth,
          cl_message_bytes = body_bytes\<rparr>)"

definition header_claim ::
  "'us externs \<Rightarrow> (string \<rightharpoonup> bytes) \<Rightarrow> (auth_reply, auth_claim) result" where
  "header_claim X headers =
     bind_result (ok_or (error_response 401 ''Missing X-Sender-Address header'' ''MISSING_SENDER_ADDRESS'')
         (get_header X headers ''x-sender-address'')) (\<lambda>sender_address.
     bind_result (ok_or (error_response 401 ''Missing X-Timestamp header'' ''MISSING_TIMESTAMP'')
         (get_header X headers ''x-timestamp'')) (\<lambda>timestamp_str.
     bind_result (ok_or (error_response 401 ''Missing X-Group-Id header'' ''MISSING_GROUP_ID'')
         (get_header X headers ''x-group-id'')) (\<lambda>group_id.
     bind_result (ok_or (error_response 400 ''Invalid X-Timestamp header: must be a unix timestamp''
           ''INVALID_TIMESTAMP'')
         (parse_i64 timestamp_str)) (\<lambda>timestamp.
       Inr \<lparr>cl_group_id = group_id, cl_sender_address = sender_address, cl_timestamp = timestamp,
            cl_message_bytes = as_bytes (canonical_headers timestamp sender_address group_id)\<rparr>))))"

definition auth_claim_of ::
  "'us externs \<Rightarrow> (bytes \<Rightarrow> (string, body_auth_fields) result) \<Rightarrow> (string \<rightharpoonup> bytes) \<Rightarrow> bytes
   \<Rightarrow> (auth_reply, auth_claim) result" where
  "auth_claim_of X parse headers body_bytes =
     (if body_bytes \<noteq> [] then body_claim parse body_bytes else header_claim X headers)"

text \<open>Steps 7 to 10.\<close>

definition check_claim ::
  "'us externs \<Rightarrow> 'm membership_store \<Rightarrow> 'm \<Rightarrow> i64 \<Rightarrow> i64 \<Rightarrow> messaging_permission
   \<Rightarrow> signature_scheme \<Rightarrow> bytes \<Rightarrow> bytes \<Rightarrow> auth_claim \<Rightarrow> (auth_reply, auth_context) result" where
  "check_claim X MS ms ttl now required scheme public_key_bytes signature_bytes claim =
     bind_result (map_err (auth_error_response 401) (validate_timestamp now (cl_timestamp claim) ttl)) (\<lambda>_.
     bind_result (map_err (auth_error_response 401)
         (verify_signature X (cl_message_bytes claim) signature_bytes public_key_bytes scheme)) (\<lambda>_.
     bind_result (map_err (auth_error_response 401)
         (verify_address_matches_pubkey X (cl_sender_address claim) public_key_bytes scheme)) (\<lambda>_.
       if \<not> ms_has_permission MS ms (cl_group_id claim) (cl_sender_address claim) required then
         Inl (auth_error_response 403 (NotGroupMember (cl_sender_address claim) (cl_group_id claim)))
       else
         Inr \<lparr>ac_sender_address = cl_sender_address claim, ac_public_key = public_key_bytes,
              ac_scheme = scheme, ac_authorized_group = Some (cl_group_id claim)\<rparr>)))"

text \<open>Steps 1 to 10 in the order of the code.\<close>

definition authenticate ::
  "'us externs \<Rightarrow> (bytes \<Rightarrow> (string, body_auth_fields) result) \<Rightarrow> 'm membership_store \<Rightarrow> 'm \<Rightarrow> i64
   \<Rightarrow> i64 \<Rightarrow> messaging_permission \<Rightarrow> 'r http_request \<Rightarrow> (auth_reply, bytes \<times> auth_context) result" where
  "authenticate X parse MS ms ttl now required request =
     bind_result (ok_or (error_response 401 ''Missing X-Signature header'' ''MISSING_SIGNATURE'')
         (get_header X (rq_headers request) ''x-signature'')) (\<lambda>signature_hex.
     bind_result (ok_or (error_response 401 ''Missing X-Public-Key header'' ''MISSING_PUBLIC_KEY'')
         (get_header X (rq_headers request) ''x-public-key'')) (\<lambda>public_key_hex.
     bind_result (decode_public_key X public_key_hex) (\<lambda>(scheme, public_key_bytes).
     bind_result (map_err (\<lambda>e. auth_error_response 401 (InvalidSignatureFormat e))
         (x_hex_decode X signature_hex)) (\<lambda>signature_bytes.
     bind_result (ok_or (error_response 400 ''Failed to read request body'' ''BODY_READ_ERROR'')
         (rq_body request)) (\<lambda>body_bytes.
     bind_result (auth_claim_of X parse (rq_headers request) body_bytes) (\<lambda>claim.
     bind_result (check_claim X MS ms ttl now required scheme public_key_bytes signature_bytes claim)
       (\<lambda>auth_context. Inr (body_bytes, auth_context))))))))"

definition auth_middleware ::
  "'us externs \<Rightarrow> (bytes \<Rightarrow> (string, body_auth_fields) result) \<Rightarrow> 'm membership_store \<Rightarrow> 'm \<Rightarrow> i64
   \<Rightarrow> i64 \<Rightarrow> 'r http_request \<Rightarrow> 'r outcome" where
  "auth_middleware X parse MS ms ttl now request =
     (case required_permission (rq_method request) of
        None \<Rightarrow> Next request None
      | Some required \<Rightarrow>
          (case authenticate X parse MS ms ttl now required request of
             Inl (status, body) \<Rightarrow> Reply status body
           | Inr (body_bytes, auth_context) \<Rightarrow>
               Next (request\<lparr>rq_body := Some body_bytes\<rparr>) (Some auth_context)))"

section \<open>What an accepted request has shown\<close>

text \<open>A key header that decodes: hex of the flag byte and a key of the scheme's length.\<close>

lemma decode_public_key_Inr_iff:
  "decode_public_key X h = Inr (scheme, pk) \<longleftrightarrow>
     x_hex_decode X h = Inr (scheme_flag scheme # pk) \<and> length pk = public_key_length scheme"
proof (cases "x_hex_decode X h")
  case (Inr bs)
  show ?thesis
  proof (cases bs)
    case (Cons flag key)
    with Inr show ?thesis
      by (cases "from_flag flag") (auto simp: decode_public_key_def from_flag_Some_iff)
  qed (simp add: decode_public_key_def Inr)
qed (simp add: decode_public_key_def)

lemma check_claim_Inr_iff:
  "check_claim X MS ms ttl now required scheme pk sg claim = Inr ctx \<longleftrightarrow>
     validate_timestamp now (cl_timestamp claim) ttl = Inr () \<and>
     signature_valid X (cl_message_bytes claim) sg pk scheme \<and>
     derive_sui_address X pk scheme = Inr (cl_sender_address claim) \<and>
     ms_has_permission MS ms (cl_group_id claim) (cl_sender_address claim) required \<and>
     ctx = \<lparr>ac_sender_address = cl_sender_address claim, ac_public_key = pk, ac_scheme = scheme,
            ac_authorized_group = Some (cl_group_id claim)\<rparr>"
  unfolding check_claim_def
  by (auto simp: bind_result_Inr_iff verify_signature_Inr_iff [symmetric]
      verify_address_matches_pubkey_def split: sum.splits if_splits)

lemma authenticate_Inr_iff:
  "authenticate X parse MS ms ttl now required request = Inr (body, ctx) \<longleftrightarrow>
     (\<exists>signature_hex public_key_hex signature claim.
        get_header X (rq_headers request) ''x-signature'' = Some signature_hex \<and>
        get_header X (rq_headers request) ''x-public-key'' = Some public_key_hex \<and>
        decode_public_key X public_key_hex = Inr (ac_scheme ctx, ac_public_key ctx) \<and>
        x_hex_decode X signature_hex = Inr signature \<and>
        rq_body request = Some body \<and>
        auth_claim_of X parse (rq_headers request) body = Inr claim \<and>
        check_claim X MS ms ttl now required (ac_scheme ctx) (ac_public_key ctx) signature claim = Inr ctx)"
  unfolding authenticate_def
  by (auto simp: bind_result_Inr_iff check_claim_Inr_iff)

lemma body_claim_Inr_iff:
  "body_claim parse body = Inr claim \<longleftrightarrow>
     (\<exists>f. parse body = Inr f \<and>
        claim = \<lparr>cl_group_id = ba_group_id f, cl_sender_address = ba_sender_address f,
                 cl_timestamp = ba_timestamp f, cl_message_bytes = body\<rparr>)"
  by (auto simp: body_claim_def bind_result_Inr_iff)

lemma header_claim_Inr_iff:
  "header_claim X headers = Inr claim \<longleftrightarrow>
     get_header X headers ''x-sender-address'' = Some (cl_sender_address claim) \<and>
     get_header X headers ''x-group-id'' = Some (cl_group_id claim) \<and>
     (\<exists>t. get_header X headers ''x-timestamp'' = Some t \<and> parse_i64 t = Some (cl_timestamp claim)) \<and>
     cl_message_bytes claim =
       as_bytes (canonical_headers (cl_timestamp claim) (cl_sender_address claim) (cl_group_id claim))"
  by (cases claim) (auto simp: header_claim_def bind_result_Inr_iff)

text \<open>The canonical text names the three fields: it can be read back when the sender has no colon.\<close>

lemma canonical_headers_inject:
  assumes "canonical_headers t a g = canonical_headers t' a' g'"
    and "CHR '':'' \<notin> set a" and "CHR '':'' \<notin> set a'"
  shows "t = t' \<and> a = a' \<and> g = g'"
proof -
  have "show_i64 t @ CHR '':'' # (a @ CHR '':'' # g) = show_i64 t' @ CHR '':'' # (a' @ CHR '':'' # g')"
    using assms(1) by (simp add: canonical_headers_def)
  from append_sep_inject [OF this show_i64_no_colon show_i64_no_colon]
  have "show_i64 t = show_i64 t'" and "a @ CHR '':'' # g = a' @ CHR '':'' # g'" by simp_all
  with append_sep_inject [OF this(2) assms(2,3)] show ?thesis by simp
qed

lemma derived_address_no_colon:
  assumes "hex_codec (x_hex_encode X) (x_hex_decode X)"
    and "derive_sui_address X pk scheme = Inr a"
  shows "CHR '':'' \<notin> set a"
  using assms(2) hex_codec.enc_no_colon [OF assms(1)]
  by (auto simp: derive_sui_address_def Let_def split: if_splits)

text \<open>Every refusal of a step has the status 400 or 401, but for the missing permission.\<close>

lemma fst_error_response [simp]:
  "fst (error_response status m c) = status" "fst (auth_error_response status e) = status"
  by (simp_all add: error_response_def auth_error_response_def)

lemma decode_public_key_Inl: "decode_public_key X h = Inl r \<Longrightarrow> fst r = 401"
proof (cases "x_hex_decode X h")
  case (Inr bs)
  assume r: "decode_public_key X h = Inl r"
  show ?thesis
  proof (cases bs)
    case (Cons flag key)
    with Inr r show ?thesis
      by (cases "from_flag flag") (auto simp: decode_public_key_def split: if_splits)
  qed (use Inr r in \<open>auto simp: decode_public_key_def\<close>)
qed (auto simp: decode_public_key_def)

lemma auth_claim_of_Inl: "auth_claim_of X parse headers body = Inl r \<Longrightarrow> fst r \<in> {400, 401}"
  by (auto simp: auth_claim_of_def body_claim_def header_claim_def bind_result_Inl_iff map_err_Inl_iff
      error_response_def split: if_splits)

lemma check_claim_Inl:
  "check_claim X MS ms ttl now required scheme pk sg claim = Inl r \<Longrightarrow>
     fst r = 401 \<or>
     (fst r = 403 \<and> validate_timestamp now (cl_timestamp claim) ttl = Inr () \<and>
      signature_valid X (cl_message_bytes claim) sg pk scheme \<and>
      derive_sui_address X pk scheme = Inr (cl_sender_address claim) \<and>
      \<not> ms_has_permission MS ms (cl_group_id claim) (cl_sender_address claim) required)"
  by (auto simp: check_claim_def bind_result_Inl_iff map_err_Inl_iff auth_error_response_def
      error_response_def verify_signature_Inr_iff verify_address_matches_pubkey_def
      split: sum.splits if_splits)

lemma check_claim_forbidden:
  "validate_timestamp now (cl_timestamp claim) ttl = Inr () \<Longrightarrow>
   signature_valid X (cl_message_bytes claim) sg pk scheme \<Longrightarrow>
   derive_sui_address X pk scheme = Inr (cl_sender_address claim) \<Longrightarrow>
   \<not> ms_has_permission MS ms (cl_group_id claim) (cl_sender_address claim) required \<Longrightarrow>
     check_claim X MS ms ttl now required scheme pk sg claim =
       Inl (auth_error_response 403 (NotGroupMember (cl_sender_address claim) (cl_group_id claim)))"
  by (simp add: check_claim_def verify_signature_Inr_iff [symmetric] verify_address_matches_pubkey_def)

section \<open>Properties\<close>

text \<open>What the headers and the body of a request show, up to the permission.\<close>

definition request_shows ::
  "'us externs \<Rightarrow> (bytes \<Rightarrow> (string, body_auth_fields) result) \<Rightarrow> i64 \<Rightarrow> i64 \<Rightarrow> 'r http_request
   \<Rightarrow> bytes \<Rightarrow> signature_scheme \<Rightarrow> bytes \<Rightarrow> auth_claim \<Rightarrow> bool" where
  "request_shows X parse ttl now request body scheme public_key claim \<longleftrightarrow>
     rq_body request = Some body \<and>
     (\<exists>signature_hex public_key_hex signature.
        get_header X (rq_headers request) ''x-signature'' = Some signature_hex \<and>
        get_header X (rq_headers request) ''x-public-key'' = Some public_key_hex \<and>
        x_hex_decode X public_key_hex = Inr (scheme_flag scheme # public_key) \<and>
        length public_key = public_key_length scheme \<and>
        x_hex_decode X signature_hex = Inr signature \<and>
        signature_valid X (cl_message_bytes claim) signature public_key scheme) \<and>
     auth_claim_of X parse (rq_headers request) body = Inr claim \<and>
     validate_timestamp now (cl_timestamp claim) ttl = Inr () \<and>
     derive_sui_address X public_key scheme = Inr (cl_sender_address claim)"

text \<open>
  The request is authenticated for a sender address in a group: it shows a claim of both, signed under a
  key of that address.
\<close>

definition authenticated_as ::
  "'us externs \<Rightarrow> (bytes \<Rightarrow> (string, body_auth_fields) result) \<Rightarrow> i64 \<Rightarrow> i64 \<Rightarrow> 'r http_request
   \<Rightarrow> string \<Rightarrow> string \<Rightarrow> bool" where
  "authenticated_as X parse ttl now request group_id sender \<longleftrightarrow>
     (\<exists>body scheme key claim. request_shows X parse ttl now request body scheme key claim \<and>
        cl_group_id claim = group_id \<and> cl_sender_address claim = sender)"

lemma authenticate_accepts:
  "authenticate X parse MS ms ttl now required request = Inr (body, ctx) \<longleftrightarrow>
     (\<exists>claim. request_shows X parse ttl now request body (ac_scheme ctx) (ac_public_key ctx) claim \<and>
        ms_has_permission MS ms (cl_group_id claim) (cl_sender_address claim) required \<and>
        ac_sender_address ctx = cl_sender_address claim \<and>
        ac_authorized_group ctx = Some (cl_group_id claim))"
  unfolding authenticate_Inr_iff request_shows_def check_claim_Inr_iff decode_public_key_Inr_iff
  by (cases ctx) (simp, blast)

lemma authenticate_forbids:
  "(\<exists>b. authenticate X parse MS ms ttl now required request = Inl (403, b)) \<longleftrightarrow>
     (\<exists>body scheme key claim. request_shows X parse ttl now request body scheme key claim \<and>
        \<not> ms_has_permission MS ms (cl_group_id claim) (cl_sender_address claim) required)"
    (is "?forbidden \<longleftrightarrow> ?shown")
proof
  assume ?forbidden
  then obtain b where "authenticate X parse MS ms ttl now required request = Inl (403, b)" ..
  then show ?shown
    unfolding authenticate_def request_shows_def
    by (auto simp: bind_result_Inl_iff map_err_Inl_iff auth_error_response_def error_response_def
        decode_public_key_Inr_iff
        dest!: decode_public_key_Inl auth_claim_of_Inl check_claim_Inl)
next
  assume ?shown
  then obtain body scheme key claim signature_hex public_key_hex signature where
    shown: "rq_body request = Some body"
      "get_header X (rq_headers request) ''x-signature'' = Some signature_hex"
      "get_header X (rq_headers request) ''x-public-key'' = Some public_key_hex"
      "x_hex_decode X signature_hex = Inr signature"
      "auth_claim_of X parse (rq_headers request) body = Inr claim"
    and key: "decode_public_key X public_key_hex = Inr (scheme, key)"
    and claim: "validate_timestamp now (cl_timestamp claim) ttl = Inr ()"
      "signature_valid X (cl_message_bytes claim) signature key scheme"
      "derive_sui_address X key scheme = Inr (cl_sender_address claim)"
      "\<not> ms_has_permission MS ms (cl_group_id claim) (cl_sender_address claim) required"
    unfolding request_shows_def decode_public_key_Inr_iff by blast
  show ?forbidden
    using shown key check_claim_forbidden [OF claim]
    by (simp add: authenticate_def auth_error_response_def error_response_def)
qed

text \<open>
  C5. The middleware decides exactly by its checks. A \<open>GET\<close>, \<open>POST\<close>, \<open>PUT\<close> or \<open>DELETE\<close> is passed on exactly
  when its headers carry a public key of a known scheme and a signature that decode from hex, the
  signature verifies over the signed bytes of the claim, the claim's time is inside the window, the
  claimed sender is the address of that key, and the membership store gives the sender, in the claimed
  group, the permission to read, send, edit or delete that the method asks for; the handler then gets
  that sender, key and group. It is answered 403 exactly when all of this holds but the permission.
\<close>
theorem middleware_decides:
  assumes "(rq_method request, required) \<in> {(GET, MessagingReader), (POST, MessagingSender),
      (PUT, MessagingEditor), (DELETE, MessagingDeleter)}"
  shows "(auth_middleware X parse MS ms ttl now request = Next request' (Some ctx) \<longleftrightarrow>
      (\<exists>body claim. request_shows X parse ttl now request body (ac_scheme ctx) (ac_public_key ctx) claim \<and>
         ms_has_permission MS ms (cl_group_id claim) (cl_sender_address claim) required \<and>
         ac_sender_address ctx = cl_sender_address claim \<and>
         ac_authorized_group ctx = Some (cl_group_id claim) \<and>
         request' = request\<lparr>rq_body := Some body\<rparr>)) \<and>
    ((\<exists>b. auth_middleware X parse MS ms ttl now request = Reply 403 b) \<longleftrightarrow>
      (\<exists>body scheme key claim. request_shows X parse ttl now request body scheme key claim \<and>
         \<not> ms_has_permission MS ms (cl_group_id claim) (cl_sender_address claim) required))"
proof -
  have asked: "required_permission (rq_method request) = Some required"
    using assms by auto
  have "auth_middleware X parse MS ms ttl now request = Next request' (Some ctx) \<longleftrightarrow>
      (\<exists>body. authenticate X parse MS ms ttl now required request = Inr (body, ctx) \<and>
         request' = request\<lparr>rq_body := Some body\<rparr>)"
    using asked by (auto simp: auth_middleware_def split: sum.splits)
  moreover have "(\<exists>b. auth_middleware X parse MS ms ttl now request = Reply 403 b) \<longleftrightarrow>
      (\<exists>b. authenticate X parse MS ms ttl now required request = Inl (403, b))"
    using asked by (auto simp: auth_middleware_def split: sum.splits)
  ultimately show ?thesis
    unfolding authenticate_forbids authenticate_accepts by blast
qed

end
