(* ===== verification/Memory_Storage.thy ===== *)
theory Memory_Storage
  imports Storage_Adapter
begin

text \<open>
  \<open>src/relayer/src/storage/memory.rs\<close> and \<open>mod.rs\<close>: the in-memory backend, its invariant, and the proof
  that it meets \<open>storage_contract\<close>.

  The three \<open>RwLock\<close>s are three components of the state. \<open>RwLock::read\<close> and \<open>write\<close> fail only when a thread
  panicked while it held the lock; the release profile aborts the process at a panic, so they always
  succeed, and the \<open>OperationFailed\<close> that each method would map their failure to is never returned.
  \<open>create_message\<close> takes the counter lock first and releases it, so it is two atomic steps:
  \<open>next_order\<close> and \<open>create_insert\<close>; every other method is one. \<open>HashMap::values\<close> yields the values in an
  order of its own: \<open>order_of s\<close> lists the keys in that order, and nothing is assumed of it except that
  it lists every key once.
\<close>

section \<open>State\<close>

record mem_storage =
  st_messages :: message_table
  st_group_orders :: "string \<rightharpoonup> i64"
  st_nonces :: "bytes set"

definition new_storage :: mem_storage where
  "new_storage = \<lparr>st_messages = Map.empty, st_group_orders = Map.empty, st_nonces = {}\<rparr>"

definition hm_values :: "uuid list \<Rightarrow> message_table \<Rightarrow> message list" where
  "hm_values keys t = List.map_filter t keys"

section \<open>Operations\<close>

definition next_order :: "string \<Rightarrow> mem_storage \<Rightarrow> i64 storage_result \<times> mem_storage" where
  "next_order group_id s =
     (let nxt = unwrap_or 1 (map_option (\<lambda>k. k + 1) (st_group_orders s group_id))
      in (Inr nxt, s\<lparr>st_group_orders := (st_group_orders s)(group_id \<mapsto> nxt)\<rparr>))"

definition mem_health_check :: "mem_storage \<Rightarrow> unit storage_result" where
  "mem_health_check s = Inr ()"

definition create_insert :: "message \<Rightarrow> mem_storage \<Rightarrow> message storage_result \<times> mem_storage" where
  "create_insert message s =
     (if st_messages s (msg_id message) \<noteq> None then (Inl (DuplicateId (msg_id message)), s)
      else if msg_nonce message \<in> st_nonces s then (Inl DuplicateNonce, s)
      else (Inr message,
            s\<lparr>st_nonces := insert (msg_nonce message) (st_nonces s),
              st_messages := (st_messages s)(msg_id message \<mapsto> message)\<rparr>))"

definition mem_create_message :: "message \<Rightarrow> mem_storage \<Rightarrow> message storage_result \<times> mem_storage" where
  "mem_create_message message s =
     (case next_order (msg_group_id message) s of
        (Inl e, s1) \<Rightarrow> (Inl e, s1)
      | (Inr order, s1) \<Rightarrow> create_insert (set_order order message) s1)"

definition mem_get_message :: "uuid \<Rightarrow> mem_storage \<Rightarrow> message storage_result" where
  "mem_get_message mid s = ok_or (NotFound mid) (st_messages s mid)"

definition mem_get_messages_by_group ::
  "(mem_storage \<Rightarrow> uuid list) \<Rightarrow> string \<Rightarrow> i64 option \<Rightarrow> i64 option \<Rightarrow> nat \<Rightarrow> mem_storage
   \<Rightarrow> message list storage_result" where
  "mem_get_messages_by_group order_of group_id after_order before_order limit s =
     (let filtered =
            filter (\<lambda>m. let order = unwrap_or 0 (msg_order m) in
                (case (after_order, before_order) of
                   (Some aft, Some bef) \<Rightarrow> sint aft < sint order \<and> sint order < sint bef
                 | (Some aft, None) \<Rightarrow> sint aft < sint order
                 | (None, Some bef) \<Rightarrow> sint order < sint bef
                 | (None, None) \<Rightarrow> True))
              (filter (\<lambda>m. msg_group_id m = group_id)
                 (hm_values (order_of s) (st_messages s)));
          sorted = sort_key (\<lambda>m. sint (unwrap_or 0 (msg_order m))) filtered
      in Inr (take limit sorted))"

definition mem_update_message ::
  "datetime \<Rightarrow> uuid \<Rightarrow> bytes \<Rightarrow> bytes \<Rightarrow> i64 \<Rightarrow> attachment list \<Rightarrow> bytes \<Rightarrow> bytes \<Rightarrow> mem_storage
   \<Rightarrow> message storage_result \<times> mem_storage" where
  "mem_update_message now mid encrypted_msg nonce key_version attachments signature public_key s =
     (case st_messages s mid of
        None \<Rightarrow> (Inl (NotFound mid), s)
      | Some message \<Rightarrow>
          if msg_nonce message \<noteq> nonce \<and> nonce \<in> st_nonces s then (Inl DuplicateNonce, s)
          else
            (let message' = update_content now encrypted_msg nonce key_version attachments
                   signature public_key message
             in (Inr message',
                 s\<lparr>st_nonces := insert nonce (st_nonces s - {msg_nonce message}),
                   st_messages := (st_messages s)(mid \<mapsto> message')\<rparr>)))"

definition mem_delete_message ::
  "datetime \<Rightarrow> uuid \<Rightarrow> mem_storage \<Rightarrow> message storage_result \<times> mem_storage" where
  "mem_delete_message now mid s =
     (case st_messages s mid of
        None \<Rightarrow> (Inl (NotFound mid), s)
      | Some message \<Rightarrow>
          (let message' = mark_for_deletion now message
           in (Inr message', s\<lparr>st_messages := (st_messages s)(mid \<mapsto> message')\<rparr>)))"

definition mem_update_sync_status ::
  "datetime \<Rightarrow> uuid \<Rightarrow> sync_status \<Rightarrow> string option \<Rightarrow> mem_storage
   \<Rightarrow> message storage_result \<times> mem_storage" where
  "mem_update_sync_status now mid status quilt_patch_id s =
     (case st_messages s mid of
        None \<Rightarrow> (Inl (NotFound mid), s)
      | Some message \<Rightarrow>
          (let m1 = message\<lparr>msg_sync_status := status, msg_updated_at := now\<rparr>;
               m2 = (case quilt_patch_id of
                       None \<Rightarrow> m1
                     | Some patch_id \<Rightarrow> m1\<lparr>msg_quilt_patch_id := Some patch_id\<rparr>)
           in (Inr m2, s\<lparr>st_messages := (st_messages s)(mid \<mapsto> m2)\<rparr>)))"

definition mem_get_messages_by_sync_status ::
  "(mem_storage \<Rightarrow> uuid list) \<Rightarrow> sync_status \<Rightarrow> nat \<Rightarrow> mem_storage \<Rightarrow> message list storage_result" where
  "mem_get_messages_by_sync_status order_of status limit s =
     Inr (take limit (filter (\<lambda>m. msg_sync_status m = status)
       (hm_values (order_of s) (st_messages s))))"

definition in_memory_storage :: "(mem_storage \<Rightarrow> uuid list) \<Rightarrow> mem_storage storage_adapter" where
  "in_memory_storage order_of =
     \<lparr> sa_health_check = mem_health_check,
       sa_create_message = mem_create_message,
       sa_get_message = mem_get_message,
       sa_get_messages_by_group = mem_get_messages_by_group order_of,
       sa_update_message = mem_update_message,
       sa_delete_message = mem_delete_message,
       sa_update_sync_status = mem_update_sync_status,
       sa_get_messages_by_sync_status = mem_get_messages_by_sync_status order_of \<rparr>"

lemma in_memory_storage_sel [simp]:
  "sa_health_check (in_memory_storage order_of) = mem_health_check"
  "sa_create_message (in_memory_storage order_of) = mem_create_message"
  "sa_get_message (in_memory_storage order_of) = mem_get_message"
  "sa_get_messages_by_group (in_memory_storage order_of) = mem_get_messages_by_group order_of"
  "sa_update_message (in_memory_storage order_of) = mem_update_message"
  "sa_delete_message (in_memory_storage order_of) = mem_delete_message"
  "sa_update_sync_status (in_memory_storage order_of) = mem_update_sync_status"
  "sa_get_messages_by_sync_status (in_memory_storage order_of) = mem_get_messages_by_sync_status order_of"
  by (simp_all add: in_memory_storage_def)

datatype storage_type = InMemory

definition create_storage ::
  "(mem_storage \<Rightarrow> uuid list) \<Rightarrow> storage_type \<Rightarrow> mem_storage storage_adapter \<times> mem_storage" where
  "create_storage order_of storage_type =
     (case storage_type of InMemory \<Rightarrow> (in_memory_storage order_of, new_storage))"

section \<open>The invariant\<close>

text \<open>
  The parts: messages are filed under their own id; orders are positive, do
  not exceed the counter of their group and are unique in it; \<open>st_nonces\<close> is exactly the set of the
  nonces of the stored messages, and no two messages share one.
\<close>

definition orders_ok :: "mem_storage \<Rightarrow> bool" where
  "orders_ok s \<longleftrightarrow>
     (\<forall>i m. st_messages s i = Some m \<longrightarrow>
        (\<exists>k c. msg_order m = Some k \<and> st_group_orders s (msg_group_id m) = Some c \<and>
           0 < sint k \<and> sint k \<le> sint c)) \<and>
     (\<forall>g c. st_group_orders s g = Some c \<longrightarrow> 0 < sint c) \<and>
     (\<forall>i j m n. st_messages s i = Some m \<longrightarrow> st_messages s j = Some n \<longrightarrow>
        msg_group_id m = msg_group_id n \<longrightarrow> msg_order m = msg_order n \<longrightarrow> i = j)"

definition nonces_ok :: "mem_storage \<Rightarrow> bool" where
  "nonces_ok s \<longleftrightarrow>
     (\<forall>n. n \<in> st_nonces s \<longleftrightarrow> (\<exists>i m. st_messages s i = Some m \<and> msg_nonce m = n)) \<and>
     (\<forall>i j m n. st_messages s i = Some m \<longrightarrow> st_messages s j = Some n \<longrightarrow>
        msg_nonce m = msg_nonce n \<longrightarrow> i = j)"

definition keys_ok :: "mem_storage \<Rightarrow> bool" where
  "keys_ok s \<longleftrightarrow> finite (dom (st_messages s)) \<and> (\<forall>i m. st_messages s i = Some m \<longrightarrow> msg_id m = i)"

definition mem_inv :: "mem_storage \<Rightarrow> bool" where
  "mem_inv s \<longleftrightarrow> keys_ok s \<and> orders_ok s \<and> nonces_ok s"

text \<open>The group's counter has not reached \<open>i64::MAX\<close>, so the next number does not wrap.\<close>

definition mem_room :: "mem_storage \<Rightarrow> string \<Rightarrow> bool" where
  "mem_room s g \<longleftrightarrow> (case st_group_orders s g of None \<Rightarrow> True | Some c \<Rightarrow> sint c < 2 ^ 63 - 1)"

lemma mem_inv_new: "mem_inv new_storage"
  by (simp add: mem_inv_def keys_ok_def orders_ok_def nonces_ok_def new_storage_def)

lemma ran_upd_new: "t i = None \<Longrightarrow> ran (t(i \<mapsto> v)) = insert v (ran t)"
  by (rule ran_map_upd)

lemma nonce_used_iff: "nonces_ok s \<Longrightarrow> nonce_used (st_messages s) n \<longleftrightarrow> n \<in> st_nonces s"
  unfolding nonce_used_def nonces_ok_def ran_def by blast

text \<open>The invariant, read off one or two stored messages.\<close>

lemma stored_order:
  assumes "mem_inv s" and "st_messages s i = Some m"
  obtains k c where "msg_order m = Some k" and "st_group_orders s (msg_group_id m) = Some c"
    and "0 < sint k" and "sint k \<le> sint c"
  using assms unfolding mem_inv_def orders_ok_def by blast

lemma counter_pos: "mem_inv s \<Longrightarrow> st_group_orders s g = Some c \<Longrightarrow> 0 < sint c"
  unfolding mem_inv_def orders_ok_def by blast

lemma order_unique:
  "mem_inv s \<Longrightarrow> st_messages s i = Some m \<Longrightarrow> st_messages s j = Some n \<Longrightarrow>
     msg_group_id m = msg_group_id n \<Longrightarrow> msg_order m = msg_order n \<Longrightarrow> i = j"
  unfolding mem_inv_def orders_ok_def by blast

lemma nonce_unique:
  "nonces_ok s \<Longrightarrow> st_messages s i = Some m \<Longrightarrow> st_messages s j = Some n \<Longrightarrow>
     msg_nonce m = msg_nonce n \<Longrightarrow> i = j"
  unfolding nonces_ok_def by blast

lemma nonce_stored_iff:
  "nonces_ok s \<Longrightarrow> n \<in> st_nonces s \<longleftrightarrow> (\<exists>i m. st_messages s i = Some m \<and> msg_nonce m = n)"
  unfolding nonces_ok_def by blast

lemma orders_okI:
  assumes "\<And>i m. st_messages s i = Some m \<Longrightarrow> \<exists>k c. msg_order m = Some k \<and>
      st_group_orders s (msg_group_id m) = Some c \<and> 0 < sint k \<and> sint k \<le> sint c"
    and "\<And>g c. st_group_orders s g = Some c \<Longrightarrow> 0 < sint c"
    and "\<And>i j m n. st_messages s i = Some m \<Longrightarrow> st_messages s j = Some n \<Longrightarrow>
      msg_group_id m = msg_group_id n \<Longrightarrow> msg_order m = msg_order n \<Longrightarrow> i = j"
  shows "orders_ok s"
  unfolding orders_ok_def by (intro conjI allI impI) (rule assms; assumption)+

lemma nonces_okI:
  assumes "\<And>n. n \<in> st_nonces s \<longleftrightarrow> (\<exists>i m. st_messages s i = Some m \<and> msg_nonce m = n)"
    and "\<And>i j m n. st_messages s i = Some m \<Longrightarrow> st_messages s j = Some n \<Longrightarrow>
      msg_nonce m = msg_nonce n \<Longrightarrow> i = j"
  shows "nonces_ok s"
  unfolding nonces_ok_def by (intro conjI allI impI) (rule assms; assumption?)+

subsection \<open>next_order\<close>

lemma sint_succ: "sint (k :: i64) < 2 ^ 63 - 1 \<Longrightarrow> sint (k + 1) = sint k + 1"
  using sint_i64_bounds [of k]
  by (simp add: sint_word_ariths signed_take_bit_int_eq_self)

text \<open>Raising a counter keeps the orders in order.\<close>

lemma orders_ok_raise:
  assumes inv: "mem_inv s" and pos: "0 < sint k"
    and above: "\<And>c. st_group_orders s g = Some c \<Longrightarrow> sint c \<le> sint k"
  shows "orders_ok (s\<lparr>st_group_orders := (st_group_orders s)(g \<mapsto> k)\<rparr>)"
proof (rule orders_okI)
  let ?s = "s\<lparr>st_group_orders := (st_group_orders s)(g \<mapsto> k)\<rparr>"
  fix i m
  assume "st_messages ?s i = Some m"
  then have "st_messages s i = Some m" by simp
  with inv obtain l c where "msg_order m = Some l" "st_group_orders s (msg_group_id m) = Some c"
      "0 < sint l" "sint l \<le> sint c" by (rule stored_order)
  then show "\<exists>l c. msg_order m = Some l \<and> st_group_orders ?s (msg_group_id m) = Some c \<and>
      0 < sint l \<and> sint l \<le> sint c"
    using above [of c] by (cases "msg_group_id m = g") auto
next
  show "st_group_orders (s\<lparr>st_group_orders := (st_group_orders s)(g \<mapsto> k)\<rparr>) h = Some c \<Longrightarrow> 0 < sint c" for h c
    using pos counter_pos [OF inv] by (auto split: if_splits)
qed (use order_unique [OF inv] in simp)

lemma next_order_spec:
  assumes "mem_inv s" and "mem_room s g"
  shows "\<exists>k s1. next_order g s = (Inr k, s1) \<and> mem_inv s1 \<and> st_messages s1 = st_messages s \<and>
    st_nonces s1 = st_nonces s \<and> st_group_orders s1 g = Some k \<and> 0 < sint k \<and>
    (\<forall>m\<in>ran (st_messages s). msg_group_id m = g \<longrightarrow> order_key m < sint k)"
proof -
  let ?k = "unwrap_or 1 (map_option (\<lambda>k. k + 1) (st_group_orders s g))"
  let ?s1 = "s\<lparr>st_group_orders := (st_group_orders s)(g \<mapsto> ?k)\<rparr>"
  have old: "sint c + 1 = sint ?k" if "st_group_orders s g = Some c" for c
    using assms(2) that by (simp add: mem_room_def sint_succ)
  have pos: "0 < sint ?k"
  proof (cases "st_group_orders s g")
    case (Some c)
    then show ?thesis using counter_pos [OF assms(1) Some] old [OF Some] by linarith
  qed simp
  have below: "order_key m < sint ?k" if m: "st_messages s i = Some m" and g: "msg_group_id m = g" for i m
    using stored_order [OF assms(1) m] old g by (fastforce simp: order_key_def)
  have "sint c \<le> sint ?k" if "st_group_orders s g = Some c" for c
    using old [OF that] by linarith
  then have "orders_ok ?s1" by (rule orders_ok_raise [OF assms(1) pos])
  then have "mem_inv ?s1"
    using assms(1) by (simp add: mem_inv_def keys_ok_def nonces_ok_def)
  moreover have "next_order g s = (Inr ?k, ?s1)"
    by (simp add: next_order_def Let_def)
  ultimately show ?thesis
    using pos below by (auto simp: ran_def)
qed

subsection \<open>create_message\<close>

lemma create_insert_dup_id:
  "mem_inv s \<Longrightarrow> st_messages s (msg_id m) \<noteq> None \<Longrightarrow>
     create_insert m s = (Inl (DuplicateId (msg_id m)), s)"
  by (simp add: create_insert_def)

lemma create_insert_dup_nonce:
  "mem_inv s \<Longrightarrow> st_messages s (msg_id m) = None \<Longrightarrow> nonce_used (st_messages s) (msg_nonce m) \<Longrightarrow>
     create_insert m s = (Inl DuplicateNonce, s)"
  by (simp add: create_insert_def mem_inv_def nonce_used_iff)

lemma create_insert_ok:
  "mem_inv s \<Longrightarrow> st_messages s (msg_id m) = None \<Longrightarrow> \<not> nonce_used (st_messages s) (msg_nonce m) \<Longrightarrow>
     create_insert m s =
       (Inr m, s\<lparr>st_nonces := insert (msg_nonce m) (st_nonces s),
                 st_messages := (st_messages s)(msg_id m \<mapsto> m)\<rparr>)"
  by (simp add: create_insert_def mem_inv_def nonce_used_iff)

text \<open>A message whose order its group's counter covers, and that no other message has, goes in.\<close>

definition order_fits :: "mem_storage \<Rightarrow> message \<Rightarrow> bool" where
  "order_fits s m \<longleftrightarrow>
     (\<exists>k c. msg_order m = Some k \<and> st_group_orders s (msg_group_id m) = Some c \<and>
        0 < sint k \<and> sint k \<le> sint c) \<and>
     (\<forall>n\<in>ran (st_messages s). msg_group_id n = msg_group_id m \<longrightarrow> msg_order n \<noteq> msg_order m)"

lemma nonces_ok_insert:
  assumes ok: "nonces_ok s" and free: "st_messages s i = None"
    and unused: "\<not> nonce_used (st_messages s) (msg_nonce m)"
  shows "nonces_ok (s\<lparr>st_nonces := insert (msg_nonce m) (st_nonces s), st_messages := (st_messages s)(i \<mapsto> m)\<rparr>)"
    (is "nonces_ok ?s")
proof (rule nonces_okI)
  have fresh: "msg_nonce n \<noteq> msg_nonce m" if "st_messages s j = Some n" for j n
    using unused that by (auto simp: nonce_used_def ran_def)
  show "x \<in> st_nonces ?s \<longleftrightarrow> (\<exists>j n. st_messages ?s j = Some n \<and> msg_nonce n = x)" for x
    using free by (auto simp: nonce_stored_iff [OF ok]) (metis option.distinct(1))
  show "j = k" if "st_messages ?s j = Some u" "st_messages ?s k = Some v" "msg_nonce u = msg_nonce v" for j k u v
    using that fresh [of j u] fresh [of k v] nonce_unique [OF ok, of j u k v]
    by (auto split: if_splits)
qed

lemma orders_ok_insert:
  assumes inv: "mem_inv s" and fits: "order_fits s m"
  shows "orders_ok (s\<lparr>st_nonces := N, st_messages := (st_messages s)(i \<mapsto> m)\<rparr>)" (is "orders_ok ?s")
proof (rule orders_okI)
  have other: "msg_order n \<noteq> msg_order m"
    if "st_messages s j = Some n" and "msg_group_id n = msg_group_id m" for j n
    using fits that by (auto simp: order_fits_def ran_def)
  show "\<exists>k c. msg_order n = Some k \<and> st_group_orders ?s (msg_group_id n) = Some c \<and> 0 < sint k \<and> sint k \<le> sint c"
    if n: "st_messages ?s j = Some n" for j n
  proof (cases "j = i")
    case True
    then show ?thesis using n fits by (simp add: order_fits_def)
  next
    case False
    then have "st_messages s j = Some n" using n by simp
    from stored_order [OF inv this] obtain k c where "msg_order n = Some k"
      "st_group_orders s (msg_group_id n) = Some c" "0 < sint k" "sint k \<le> sint c" .
    then show ?thesis by simp
  qed
  show "j = k"
    if "st_messages ?s j = Some u" "st_messages ?s k = Some v" "msg_group_id u = msg_group_id v"
      "msg_order u = msg_order v" for j k u v
    using that other [of j u] other [of k v] order_unique [OF inv, of j u k v] by (auto split: if_splits)
qed (use counter_pos [OF inv] in simp)

lemma create_insert_inv:
  assumes inv: "mem_inv s" and fits: "order_fits s m"
  shows "mem_inv (snd (create_insert m s))"
proof (cases "st_messages s (msg_id m) = None \<and> \<not> nonce_used (st_messages s) (msg_nonce m)")
  case False
  then show ?thesis
    using inv create_insert_dup_id [OF inv, of m] create_insert_dup_nonce [OF inv, of m]
    by (cases "st_messages s (msg_id m)") auto
next
  case True
  then show ?thesis
    using inv create_insert_ok [OF inv, of m] orders_ok_insert [OF inv fits] nonces_ok_insert [of s "msg_id m" m]
    by (simp add: mem_inv_def keys_ok_def)
qed

lemma set_order_simps [simp]:
  "msg_id (set_order k m) = msg_id m" "msg_nonce (set_order k m) = msg_nonce m"
  "msg_group_id (set_order k m) = msg_group_id m" "msg_order (set_order k m) = Some k"
  by (simp_all add: set_order_def)

lemma mem_create_split:
  assumes "mem_inv s" and "mem_room s (msg_group_id m)"
  obtains k s1 where "mem_create_message m s = create_insert (set_order k m) s1"
    and "mem_inv s1" and "st_messages s1 = st_messages s" and "order_fits s1 (set_order k m)"
    and "0 < sint k"
    and "\<forall>n\<in>ran (st_messages s). msg_group_id n = msg_group_id m \<longrightarrow> order_key n < sint k"
proof -
  from next_order_spec [OF assms] obtain k s1 where
    no: "next_order (msg_group_id m) s = (Inr k, s1)" and inv1: "mem_inv s1"
    and same: "st_messages s1 = st_messages s" and c: "st_group_orders s1 (msg_group_id m) = Some k"
    and pos: "0 < sint k"
    and above: "\<forall>n\<in>ran (st_messages s). msg_group_id n = msg_group_id m \<longrightarrow> order_key n < sint k"
    by blast
  have "order_fits s1 (set_order k m)"
    using c pos above by (auto simp: order_fits_def same order_key_def)
  then show thesis
    using that [of k s1] no inv1 same pos above by (simp add: mem_create_message_def)
qed

text \<open>Without room the counter wraps, but the table and the nonces stay as the branch leaves them.\<close>

lemma mem_create_errors:
  assumes "mem_inv s"
  shows "st_messages s (msg_id m) \<noteq> None \<Longrightarrow>
      fst (mem_create_message m s) = Inl (DuplicateId (msg_id m)) \<and>
      st_messages (snd (mem_create_message m s)) = st_messages s"
    and "st_messages s (msg_id m) = None \<Longrightarrow> nonce_used (st_messages s) (msg_nonce m) \<Longrightarrow>
      fst (mem_create_message m s) = Inl DuplicateNonce \<and>
      st_messages (snd (mem_create_message m s)) = st_messages s"
  using assms nonce_used_iff [of s "msg_nonce m"]
  by (auto simp: mem_create_message_def next_order_def create_insert_def mem_inv_def Let_def)

subsection \<open>The other writers\<close>

text \<open>Replacing a message by one with a nonce that no other message uses.\<close>

lemma nonces_ok_replace:
  assumes ok: "nonces_ok s" and m: "st_messages s i = Some m"
    and free: "\<not> nonce_used_by_other (st_messages s) i (msg_nonce n)"
  shows "nonces_ok (s\<lparr>st_nonces := insert (msg_nonce n) (st_nonces s - {msg_nonce m}),
                      st_messages := (st_messages s)(i \<mapsto> n)\<rparr>)"
proof -
  let ?t = "(st_messages s)(i \<mapsto> n)"
  have other: "msg_nonce u \<noteq> msg_nonce n" if "j \<noteq> i" "st_messages s j = Some u" for j u
    using free that by (auto simp: nonce_used_by_other_def)
  have iff: "x \<in> insert (msg_nonce n) (st_nonces s - {msg_nonce m}) \<longleftrightarrow>
      (\<exists>j u. ?t j = Some u \<and> msg_nonce u = x)" for x
  proof (cases "x = msg_nonce n")
    case True
    then show ?thesis by auto
  next
    case False
    then have "(\<exists>j u. ?t j = Some u \<and> msg_nonce u = x) \<longleftrightarrow>
        (\<exists>j u. j \<noteq> i \<and> st_messages s j = Some u \<and> msg_nonce u = x)"
      by (auto split: if_splits)
    also have "\<dots> \<longleftrightarrow> x \<in> st_nonces s \<and> x \<noteq> msg_nonce m"
      unfolding nonce_stored_iff [OF ok] by (metis m nonce_unique [OF ok] option.inject)
    finally show ?thesis using False by simp
  qed
  have uniq: "j = k"
    if "?t j = Some u" "?t k = Some v" "msg_nonce u = msg_nonce v" for j k u v
    using that other [of j u] other [of k v] nonce_unique [OF ok, of j u k v]
    by (auto split: if_splits)
  show ?thesis
  proof (rule nonces_okI)
    show "x \<in> st_nonces (s\<lparr>st_nonces := insert (msg_nonce n) (st_nonces s - {msg_nonce m}), st_messages := ?t\<rparr>)
      \<longleftrightarrow> (\<exists>j u. st_messages (s\<lparr>st_nonces := insert (msg_nonce n) (st_nonces s - {msg_nonce m}),
            st_messages := ?t\<rparr>) j = Some u \<and> msg_nonce u = x)" for x
      using iff [of x] by simp
  qed (simp del: fun_upd_apply, rule uniq)
qed

lemma orders_keys_replace:
  assumes inv: "mem_inv s" and m: "st_messages s i = Some m" and same: "same_identity m n"
  shows "keys_ok (s\<lparr>st_nonces := N, st_messages := (st_messages s)(i \<mapsto> n)\<rparr>)"
    and "orders_ok (s\<lparr>st_nonces := N, st_messages := (st_messages s)(i \<mapsto> n)\<rparr>)"
proof -
  let ?s = "s\<lparr>st_nonces := N, st_messages := (st_messages s)(i \<mapsto> n)\<rparr>"
  show "keys_ok ?s"
    using inv m same by (auto simp: mem_inv_def keys_ok_def same_identity_def)
  have before: "\<exists>u'. st_messages s j = Some u' \<and> same_identity u' u" if "st_messages ?s j = Some u" for j u
    using that m same by (auto split: if_splits)
  show "orders_ok ?s"
    unfolding orders_ok_def
  proof (intro conjI allI impI)
    fix j u
    assume "st_messages ?s j = Some u"
    from before [OF this] obtain u' where u': "st_messages s j = Some u'" and id: "same_identity u' u"
      by blast
    obtain k c where "msg_order u' = Some k" "st_group_orders s (msg_group_id u') = Some c"
      "0 < sint k" "sint k \<le> sint c"
      using stored_order [OF inv u'] .
    with id show "\<exists>k c. msg_order u = Some k \<and> st_group_orders ?s (msg_group_id u) = Some c \<and>
        0 < sint k \<and> sint k \<le> sint c"
      by (auto simp: same_identity_def)
  next
    fix g c
    assume "st_group_orders ?s g = Some c"
    then show "0 < sint c" using counter_pos [OF inv] by simp
  next
    fix j k u v
    assume "st_messages ?s j = Some u" "st_messages ?s k = Some v"
      and eq: "msg_group_id u = msg_group_id v" "msg_order u = msg_order v"
    then obtain u' v' where "st_messages s j = Some u'" "same_identity u' u"
      "st_messages s k = Some v'" "same_identity v' v"
      using before by meson
    with eq show "j = k" using order_unique [OF inv] by (auto simp: same_identity_def)
  qed
qed

lemma replace_inv:
  assumes inv: "mem_inv s" and m: "st_messages s i = Some m" and same: "same_identity m n"
    and free: "\<not> nonce_used_by_other (st_messages s) i (msg_nonce n)"
  shows "mem_inv (s\<lparr>st_nonces := insert (msg_nonce n) (st_nonces s - {msg_nonce m}),
                    st_messages := (st_messages s)(i \<mapsto> n)\<rparr>)"
proof -
  have "nonces_ok s" using inv by (simp add: mem_inv_def)
  from nonces_ok_replace [OF this m free] orders_keys_replace [OF inv m same] inv
  show ?thesis by (simp add: mem_inv_def)
qed

text \<open>With the nonce unchanged, the set of nonces is unchanged too.\<close>

lemma own_nonce_free:
  "nonces_ok s \<Longrightarrow> st_messages s i = Some m \<Longrightarrow> \<not> nonce_used_by_other (st_messages s) i (msg_nonce m)"
  unfolding nonce_used_by_other_def using nonce_unique by metis

lemma replace_inv_same_nonce:
  assumes inv: "mem_inv s" and m: "st_messages s i = Some m" and same: "same_identity m n"
    and nonce: "msg_nonce n = msg_nonce m"
  shows "mem_inv (s\<lparr>st_messages := (st_messages s)(i \<mapsto> n)\<rparr>)"
proof -
  have ok: "nonces_ok s" using inv by (simp add: mem_inv_def)
  then have "insert (msg_nonce n) (st_nonces s - {msg_nonce m}) = st_nonces s"
    using m nonce nonce_stored_iff [OF ok, of "msg_nonce m"] by auto
  with replace_inv [OF inv m same] own_nonce_free [OF ok m] nonce show ?thesis by simp
qed

lemma mem_update_dup:
  assumes "mem_inv s" and m: "st_messages s i = Some m"
  shows "nonce_used_by_other (st_messages s) i n \<longleftrightarrow> msg_nonce m \<noteq> n \<and> n \<in> st_nonces s"
proof -
  have ok: "nonces_ok s" using assms(1) by (simp add: mem_inv_def)
  show ?thesis
  proof (cases "msg_nonce m = n")
    case True
    then show ?thesis using own_nonce_free [OF ok m] by simp
  next
    case False
    then show ?thesis
      unfolding nonce_used_by_other_def nonce_stored_iff [OF ok] by (metis m option.inject)
  qed
qed

lemma update_content_sel [simp]:
  "msg_nonce (update_content now e n k a sg pk m) = n"
  by (simp add: update_content_def)

lemma mem_update_message_eq:
  "mem_inv s \<Longrightarrow> mem_update_message now i e n k a sg pk s =
     (case st_messages s i of
        None \<Rightarrow> (Inl (NotFound i), s)
      | Some m \<Rightarrow>
          (if nonce_used_by_other (st_messages s) i n then (Inl DuplicateNonce, s)
           else (Inr (update_content now e n k a sg pk m),
             s\<lparr>st_nonces := insert n (st_nonces s - {msg_nonce m}),
               st_messages := (st_messages s)(i \<mapsto> update_content now e n k a sg pk m)\<rparr>)))"
  by (cases "st_messages s i")
    (simp_all add: mem_update_message_def mem_update_dup Let_def)

lemma mem_update_inv:
  assumes inv: "mem_inv s"
  shows "mem_inv (snd (mem_update_message now i e n k a sg pk s))"
proof (cases "st_messages s i")
  case None
  then show ?thesis using inv by (simp add: mem_update_message_eq)
next
  case (Some m)
  let ?n = "update_content now e n k a sg pk m"
  have "mem_inv (s\<lparr>st_nonces := insert (msg_nonce ?n) (st_nonces s - {msg_nonce m}),
                  st_messages := (st_messages s)(i \<mapsto> ?n)\<rparr>)"
    if "\<not> nonce_used_by_other (st_messages s) i n"
    using that by (intro replace_inv [OF inv Some]) simp_all
  then show ?thesis
    using inv Some by (simp add: mem_update_message_eq)
qed

lemma set_sync_status_nonce [simp]: "msg_nonce (set_sync_status now st q m) = msg_nonce m"
  by (cases q) (simp_all add: set_sync_status_def Let_def)

lemma mem_update_sync_status_eq:
  "mem_inv s \<Longrightarrow> mem_update_sync_status now i st q s =
     (case st_messages s i of
        None \<Rightarrow> (Inl (NotFound i), s)
      | Some m \<Rightarrow> (Inr (set_sync_status now st q m),
          s\<lparr>st_messages := (st_messages s)(i \<mapsto> set_sync_status now st q m)\<rparr>))"
  by (cases "st_messages s i"; cases q)
    (simp_all add: mem_update_sync_status_def set_sync_status_def Let_def)

subsection \<open>The readers\<close>

definition lists_keys :: "uuid list \<Rightarrow> message_table \<Rightarrow> bool" where
  "lists_keys keys t \<longleftrightarrow> distinct keys \<and> dom t \<subseteq> set keys"

lemma set_hm_values: "lists_keys keys t \<Longrightarrow> set (hm_values keys t) = ran t"
  by (auto simp: hm_values_def map_filter_set lists_keys_def ran_def dom_def)

lemma distinct_ids_hm_values:
  "distinct keys \<Longrightarrow> (\<And>i m. t i = Some m \<Longrightarrow> msg_id m = i) \<Longrightarrow> distinct (map msg_id (hm_values keys t))"
proof (induction keys)
  case Nil
  then show ?case by (simp add: hm_values_def List.map_filter_simps)
next
  case (Cons key keys)
  then show ?case
    by (cases "t key") (auto simp: hm_values_def List.map_filter_simps map_filter_set)
qed

lemma sort_key_strict:
  fixes f :: "'a \<Rightarrow> int"
  assumes "distinct (map f xs)"
  shows "sorted_wrt (<) (map f (sort_key f xs))"
proof -
  have "distinct (map f (sort_key f xs))"
    using assms by (simp add: distinct_map)
  then show ?thesis
    by (simp add: strict_sorted_iff)
qed

lemma page_filter_eq:
  "(let order = unwrap_or 0 (msg_order m) in
      (case (aft, bef) of
         (Some a, Some b) \<Rightarrow> sint a < sint order \<and> sint order < sint b
       | (Some a, None) \<Rightarrow> sint a < sint order
       | (None, Some b) \<Rightarrow> sint order < sint b
       | (None, None) \<Rightarrow> True)) = in_page aft bef m"
  by (cases aft; cases bef) (simp_all add: in_page_def order_key_def Let_def)

lemma mem_by_group:
  assumes inv: "mem_inv s" and keys: "lists_keys (order_of s) (st_messages s)"
  shows "\<exists>page. mem_get_messages_by_group order_of g aft bef limit s = Inr (take limit page) \<and>
    set page = {m \<in> ran (st_messages s). msg_group_id m = g \<and> in_page aft bef m} \<and>
    sorted_wrt (<) (map order_key page)"
proof -
  let ?vs = "hm_values (order_of s) (st_messages s)"
  let ?fs = "filter (in_page aft bef) (filter (\<lambda>m. msg_group_id m = g) ?vs)"
  let ?page = "sort_key order_key ?fs"
  have set: "set ?vs = ran (st_messages s)" by (rule set_hm_values [OF keys])
  have ids: "distinct (map msg_id ?vs)"
    using inv keys
    by (intro distinct_ids_hm_values) (auto simp: lists_keys_def mem_inv_def keys_ok_def)
  have inj: "inj_on order_key (set ?fs)"
  proof (rule inj_onI)
    fix m n
    assume "m \<in> set ?fs" and "n \<in> set ?fs" and eq: "order_key m = order_key n"
    then obtain i j where i: "st_messages s i = Some m" and j: "st_messages s j = Some n"
      and g: "msg_group_id m = g" "msg_group_id n = g"
      by (auto simp: set ran_def)
    obtain k where "msg_order m = Some k" using stored_order [OF inv i] by blast
    moreover obtain l where "msg_order n = Some l" using stored_order [OF inv j] by blast
    ultimately have "msg_order m = msg_order n" using eq by (auto simp: order_key_def intro: signed_word_eqI)
    with order_unique [OF inv i j] g have "i = j" by simp
    with i j show "m = n" by simp
  qed
  have "distinct ?fs"
    using ids by (simp add: distinct_map)
  then have "distinct (map order_key ?fs)"
    using inj by (simp only: distinct_map)
  then have "sorted_wrt (<) (map order_key ?page)"
    by (rule sort_key_strict)
  moreover have "mem_get_messages_by_group order_of g aft bef limit s = Inr (take limit ?page)"
    using inv unfolding mem_get_messages_by_group_def page_filter_eq
    by (simp add: order_key_def [abs_def])
  ultimately show ?thesis
    by (intro exI [of _ ?page]) (auto simp: set)
qed

lemma mem_by_status:
  assumes inv: "mem_inv s" and keys: "lists_keys (order_of s) (st_messages s)"
  shows "\<exists>found. mem_get_messages_by_sync_status order_of st limit s = Inr (take limit found) \<and>
    set found = {m \<in> ran (st_messages s). msg_sync_status m = st} \<and> distinct (map msg_id found)"
proof -
  let ?vs = "hm_values (order_of s) (st_messages s)"
  have "distinct (map msg_id ?vs)"
    using inv keys
    by (intro distinct_ids_hm_values) (auto simp: lists_keys_def mem_inv_def keys_ok_def)
  then have "distinct (map msg_id (filter (\<lambda>m. msg_sync_status m = st) ?vs))"
    by (rule distinct_map_filter)
  then show ?thesis
    using inv set_hm_values [OF keys]
    by (intro exI [of _ "filter (\<lambda>m. msg_sync_status m = st) ?vs"])
      (auto simp: mem_get_messages_by_sync_status_def)
qed

section \<open>The implementation meets the contract\<close>

locale hash_order =
  fixes order_of :: "mem_storage \<Rightarrow> uuid list"
  assumes lists: "finite (dom (st_messages s)) \<Longrightarrow> lists_keys (order_of s) (st_messages s)"
begin

lemma lists_inv: "mem_inv s \<Longrightarrow> lists_keys (order_of s) (st_messages s)"
  by (rule lists) (simp add: mem_inv_def keys_ok_def)

lemma meets_contract:
  "storage_contract (in_memory_storage order_of) mem_inv st_messages mem_room"
proof (unfold_locales, unfold in_memory_storage_def storage_adapter.select_convs)
  show "mem_health_check s = Inr ()" for s
    by (simp add: mem_health_check_def)
  show "mem_inv s \<Longrightarrow> mem_get_message i s = ok_or (NotFound i) (st_messages s i)" for s i
    by (simp add: mem_get_message_def)
  show "mem_inv s \<Longrightarrow> st_messages s i = Some m \<Longrightarrow> msg_id m = i" for s i m
    by (simp add: mem_inv_def keys_ok_def)
  show "mem_inv s \<Longrightarrow> mem_room s (msg_group_id m) \<Longrightarrow> mem_inv (snd (mem_create_message m s))" for s m
    by (erule (1) mem_create_split) (simp add: create_insert_inv)
  show "mem_inv s \<Longrightarrow> st_messages s (msg_id m) \<noteq> None \<Longrightarrow>
      fst (mem_create_message m s) = Inl (DuplicateId (msg_id m)) \<and>
      st_messages (snd (mem_create_message m s)) = st_messages s" for s m
    by (rule mem_create_errors(1))
  show "mem_inv s \<Longrightarrow> st_messages s (msg_id m) = None \<Longrightarrow> nonce_used (st_messages s) (msg_nonce m) \<Longrightarrow>
      fst (mem_create_message m s) = Inl DuplicateNonce \<and>
      st_messages (snd (mem_create_message m s)) = st_messages s" for s m
    by (rule mem_create_errors(2))
  show "mem_inv s \<Longrightarrow> st_messages s (msg_id m) = None \<Longrightarrow> \<not> nonce_used (st_messages s) (msg_nonce m) \<Longrightarrow>
      mem_room s (msg_group_id m) \<Longrightarrow>
      \<exists>k. fst (mem_create_message m s) = Inr (set_order k m) \<and>
        st_messages (snd (mem_create_message m s)) = (st_messages s)(msg_id m \<mapsto> set_order k m) \<and>
        0 < sint k \<and>
        (\<forall>n\<in>ran (st_messages s). msg_group_id n = msg_group_id m \<longrightarrow> order_key n < sint k)" for s m
    by (erule (1) mem_create_split) (auto simp: create_insert_ok)
  show "mem_inv s \<Longrightarrow> mem_inv (snd (mem_update_message now i e n k a sg pk s))"
    for s now i e n k a sg pk
    by (rule mem_update_inv)
  show "mem_inv s \<Longrightarrow> st_messages s i = None \<Longrightarrow>
      mem_update_message now i e n k a sg pk s = (Inl (NotFound i), s)" for s now i e n k a sg pk
    by (simp add: mem_update_message_def)
  show "mem_inv s \<Longrightarrow> st_messages s i = Some m \<Longrightarrow> nonce_used_by_other (st_messages s) i n \<Longrightarrow>
      mem_update_message now i e n k a sg pk s = (Inl DuplicateNonce, s)" for s now i m e n k a sg pk
    by (simp add: mem_update_message_eq)
  show "mem_inv s \<Longrightarrow> st_messages s i = Some m \<Longrightarrow> \<not> nonce_used_by_other (st_messages s) i n \<Longrightarrow>
      fst (mem_update_message now i e n k a sg pk s) = Inr (update_content now e n k a sg pk m) \<and>
      st_messages (snd (mem_update_message now i e n k a sg pk s)) =
        (st_messages s)(i \<mapsto> update_content now e n k a sg pk m)" for s now i m e n k a sg pk
    by (simp add: mem_update_message_eq)
  show "mem_inv s \<Longrightarrow> mem_inv (snd (mem_delete_message now i s))" for s now i
    by (cases "st_messages s i")
      (simp_all add: mem_delete_message_def Let_def replace_inv_same_nonce
        mark_for_deletion_def same_identity_def)
  show "mem_inv s \<Longrightarrow> st_messages s i = None \<Longrightarrow> mem_delete_message now i s = (Inl (NotFound i), s)"
    for s now i
    by (simp add: mem_delete_message_def)
  show "mem_inv s \<Longrightarrow> st_messages s i = Some m \<Longrightarrow>
      fst (mem_delete_message now i s) = Inr (mark_for_deletion now m) \<and>
      st_messages (snd (mem_delete_message now i s)) = (st_messages s)(i \<mapsto> mark_for_deletion now m)"
    for s now i m
    by (simp add: mem_delete_message_def Let_def)
  show "mem_inv s \<Longrightarrow> mem_inv (snd (mem_update_sync_status now i st q s))" for s now i st q
    by (simp add: mem_update_sync_status_eq replace_inv_same_nonce split: option.split)
  show "mem_inv s \<Longrightarrow> st_messages s i = None \<Longrightarrow>
      mem_update_sync_status now i st q s = (Inl (NotFound i), s)" for s now i st q
    by (simp add: mem_update_sync_status_eq)
  show "mem_inv s \<Longrightarrow> st_messages s i = Some m \<Longrightarrow>
      fst (mem_update_sync_status now i st q s) = Inr (set_sync_status now st q m) \<and>
      st_messages (snd (mem_update_sync_status now i st q s)) =
        (st_messages s)(i \<mapsto> set_sync_status now st q m)" for s now i st q m
    by (simp add: mem_update_sync_status_eq)
  show "mem_inv s \<Longrightarrow>
      \<exists>page. mem_get_messages_by_group order_of g aft bef limit s = Inr (take limit page) \<and>
        set page = {m \<in> ran (st_messages s). msg_group_id m = g \<and> in_page aft bef m} \<and>
        sorted_wrt (<) (map order_key page)" for s g aft bef limit
    by (rule mem_by_group [OF _ lists_inv])
  show "mem_inv s \<Longrightarrow>
      \<exists>found. mem_get_messages_by_sync_status order_of st limit s = Inr (take limit found) \<and>
        set found = {m \<in> ran (st_messages s). msg_sync_status m = st} \<and>
        distinct (map msg_id found)" for s st limit
    by (rule mem_by_status [OF _ lists_inv])
qed

end

sublocale hash_order \<subseteq> mem_contract: storage_contract "in_memory_storage order_of" mem_inv st_messages mem_room
  by (rule meets_contract)

text \<open>The orders exist: listing the keys in ascending order is one.\<close>

definition ascending :: "mem_storage \<Rightarrow> uuid list" where
  "ascending s = sorted_list_of_set (dom (st_messages s))"

interpretation asc: hash_order ascending
  by unfold_locales (simp add: ascending_def lists_keys_def)

section \<open>Properties\<close>

text \<open>
  C12. The in-memory backend implements the abstract storage: for every iteration order of its hash map,
  all laws of \<open>storage_contract\<close> hold for it, over the table of its stored messages and under its
  invariant. The laws say what each operation returns on every branch, what it does to the table, and
  that the invariant is kept.
\<close>
theorem in_memory_storage_implements_contract:
  assumes "hash_order order_of"
  shows "storage_contract (in_memory_storage order_of) mem_inv st_messages mem_room \<and>
    (mem_inv (snd (create_storage order_of InMemory))) \<and>
    st_messages (snd (create_storage order_of InMemory)) = Map.empty"
  using hash_order.meets_contract [OF assms] mem_inv_new
  by (simp add: create_storage_def) (simp add: new_storage_def)

lemma in_memory_storage_implements_contract_witness:
  "storage_contract (in_memory_storage ascending) mem_inv st_messages mem_room"
  using in_memory_storage_implements_contract [OF asc.hash_order_axioms] by simp

subsection \<open>The numbers of a group\<close>

definition create_all :: "message list \<Rightarrow> mem_storage \<Rightarrow> mem_storage" where
  "create_all ms s = foldl (\<lambda>s m. snd (mem_create_message m s)) s ms"

lemma create_all_snoc [simp]:
  "create_all [] s = s" "create_all (ms @ [m]) s = snd (mem_create_message m (create_all ms s))"
  by (simp_all add: create_all_def)

lemma create_all_state:
  assumes "distinct (map msg_id ms)" and "distinct (map msg_nonce ms)"
    and "\<forall>m\<in>set ms. msg_group_id m = g"
  shows "st_group_orders (create_all ms new_storage) g = (if ms = [] then None else Some (of_nat (length ms))) \<and>
    st_nonces (create_all ms new_storage) = msg_nonce ` set ms \<and>
    dom (st_messages (create_all ms new_storage)) = msg_id ` set ms \<and>
    (\<forall>i<length ms. st_messages (create_all ms new_storage) (msg_id (ms ! i)) =
       Some (set_order (of_nat (i + 1)) (ms ! i)))"
  using assms
proof (induction ms rule: rev_induct)
  case Nil
  then show ?case by (simp add: new_storage_def)
next
  case (snoc m ms)
  let ?s = "create_all ms new_storage" and ?k = "of_nat (length ms + 1) :: i64"
  from snoc have IH: "st_group_orders ?s g = (if ms = [] then None else Some (of_nat (length ms)))"
      "st_nonces ?s = msg_nonce ` set ms" "dom (st_messages ?s) = msg_id ` set ms"
      "\<forall>i<length ms. st_messages ?s (msg_id (ms ! i)) = Some (set_order (of_nat (i + 1)) (ms ! i))"
    by simp_all
  have "next_order g ?s = (Inr ?k, ?s\<lparr>st_group_orders := (st_group_orders ?s)(g \<mapsto> ?k)\<rparr>)"
    using IH(1) by (simp add: next_order_def Let_def add.commute)
  moreover have "st_messages ?s (msg_id m) = None"
    using IH(3) snoc.prems(1) by (auto simp: domIff [symmetric] simp del: domIff)
  moreover have "msg_nonce m \<notin> st_nonces ?s"
    using IH(2) snoc.prems(2) by auto
  ultimately have s': "create_all (ms @ [m]) new_storage =
      ?s\<lparr>st_group_orders := (st_group_orders ?s)(g \<mapsto> ?k), st_nonces := insert (msg_nonce m) (st_nonces ?s),
        st_messages := (st_messages ?s)(msg_id m \<mapsto> set_order ?k m)\<rparr>"
    using snoc.prems(3) by (simp add: mem_create_message_def create_insert_def)
  have ids: "msg_id (ms ! i) \<noteq> msg_id m" if "i < length ms" for i
    using snoc.prems(1) that by (auto simp: in_set_conv_nth) (metis imageI nth_mem)
  have dom: "dom (st_messages (create_all (ms @ [m]) new_storage)) = msg_id ` set (ms @ [m])"
    unfolding s' using IH(3) by simp
  have all: "\<forall>i<length (ms @ [m]). st_messages (create_all (ms @ [m]) new_storage) (msg_id ((ms @ [m]) ! i)) =
      Some (set_order (of_nat (i + 1)) ((ms @ [m]) ! i))"
    unfolding s' using IH(4) ids by (auto simp: nth_append less_Suc_eq)
  show ?case
  proof (intro conjI)
    show "st_group_orders (create_all (ms @ [m]) new_storage) g =
        (if ms @ [m] = [] then None else Some (of_nat (length (ms @ [m]))))"
      unfolding s' by simp
    show "st_nonces (create_all (ms @ [m]) new_storage) = msg_nonce ` set (ms @ [m])"
      unfolding s' by (simp add: IH(2))
  qed (rule dom, rule all)
qed

text \<open>
  C13. Messages of a group are numbered in the order in which they are stored, from 1 without gaps: when
  a list of messages with distinct ids and nonces is created in one group of a fresh storage, the
  \<open>i\<close>-th is stored under its id with the order \<open>i + 1\<close>, and nothing else is stored.
\<close>
theorem group_numbered_from_one:
  assumes "distinct (map msg_id ms)" and "distinct (map msg_nonce ms)"
    and "\<forall>m\<in>set ms. msg_group_id m = g" and "i < length ms"
  shows "st_messages (create_all ms new_storage) (msg_id (ms ! i)) = Some (set_order (of_nat (i + 1)) (ms ! i))
    \<and> dom (st_messages (create_all ms new_storage)) = msg_id ` set ms"
  using create_all_state [OF assms(1-3)] assms(4) by simp

lemma group_numbered_from_one_witness:
  "st_messages (create_all [message_new 0 7 ''g'' ''a'' [] [1] 1 [] [] [], message_new 0 8 ''g'' ''b'' [] [2] 1 [] [] []]
     new_storage) 8 = Some (set_order 2 (message_new 0 8 ''g'' ''b'' [] [2] 1 [] [] []))"
  using group_numbered_from_one [of "[message_new 0 7 ''g'' ''a'' [] [1] 1 [] [] [],
      message_new 0 8 ''g'' ''b'' [] [2] 1 [] [] []]" "''g''" 1]
  by (simp add: message_new_def)

text \<open>
  C31. An update moves the nonce: when it succeeds, the set of used nonces has lost the old nonce and gained
  the new one, so that a create finds the new nonce taken and, if the two differ, the old one free
  again, and the stored messages agree with this; the message gets the new content and is marked for
  upload, and no other message changes.
\<close>
theorem update_moves_nonce:
  assumes "mem_inv s" and "st_messages s i = Some m"
    and "mem_update_message now i e n k a sg pk s = (Inr m', s')"
  shows "st_nonces s' = insert n (st_nonces s - {msg_nonce m}) \<and>
    nonce_used (st_messages s') n \<and> (n \<noteq> msg_nonce m \<longrightarrow> \<not> nonce_used (st_messages s') (msg_nonce m)) \<and>
    st_messages s' i = Some m' \<and> msg_sync_status m' = UpdatePending \<and> msg_encrypted_msg m' = e \<and>
    same_identity m m' \<and> (\<forall>j. j \<noteq> i \<longrightarrow> st_messages s' j = st_messages s j)"
proof -
  have free: "\<not> nonce_used_by_other (st_messages s) i n"
    and s': "s' = s\<lparr>st_nonces := insert n (st_nonces s - {msg_nonce m}),
               st_messages := (st_messages s)(i \<mapsto> update_content now e n k a sg pk m)\<rparr>"
    and m': "m' = update_content now e n k a sg pk m"
    using assms(2,3) unfolding mem_update_message_eq [OF assms(1)] by (auto split: if_splits)
  have "nonces_ok s'"
    using mem_update_inv [OF assms(1), of now i e n k a sg pk] assms(3) by (simp add: mem_inv_def)
  from nonce_used_iff [OF this] show ?thesis
    by (auto simp: s' m' update_content_def same_identity_def)
qed

lemma update_moves_nonce_witness:
  "\<exists>s s' m'. mem_update_message 5 7 [9] [2] 1 [] [] [] s = (Inr m', s') \<and> nonce_used (st_messages s) [1] \<and>
     nonce_used (st_messages s') [2] \<and> \<not> nonce_used (st_messages s') [1] \<and>
     [2] \<in> st_nonces s' \<and> [1] \<notin> st_nonces s'"
proof -
  let ?m = "message_new 0 7 ''g'' ''a'' [] [1] 1 [] [] []"
  let ?s = "snd (mem_create_message ?m new_storage)"
  have inv: "mem_inv ?s"
    using asc.mem_contract.create_inv [OF mem_inv_new, of ?m]
    by (simp add: in_memory_storage_def mem_room_def new_storage_def)
  have m: "st_messages ?s 7 = Some (set_order 1 ?m)"
    by (simp add: mem_create_message_def next_order_def create_insert_def new_storage_def message_new_def
        set_order_def)
  have n: "msg_nonce (set_order 1 ?m) = [1]" by (simp add: message_new_def)
  obtain m' s' where u: "mem_update_message 5 7 [9] [2] 1 [] [] [] ?s = (Inr m', s')"
    by (simp add: mem_create_message_def next_order_def create_insert_def new_storage_def message_new_def
        set_order_def mem_update_message_def Let_def)
  have "nonce_used (st_messages ?s) [1]"
    using m n unfolding nonce_used_def ran_def by blast
  moreover from update_moves_nonce [OF inv m u] n
  have "nonce_used (st_messages s') [2]" "\<not> nonce_used (st_messages s') [1]" "[2] \<in> st_nonces s'" "[1] \<notin> st_nonces s'"
    by simp_all
  ultimately show ?thesis using u by blast
qed

end
