(* ===== verification/Config.thy ===== *)
theory Config
  imports Memory_Storage Membership
begin

text \<open>
  \<open>src/relayer/src/config.rs\<close>: the configuration and how it is read from the environment. The
  environment is a function from variable names to values (\<open>None\<close>: unset or not Unicode). The result
  is \<open>None\<close> where the code panics because a required variable is missing.
\<close>

definition DEFAULT_WALRUS_PUBLISHER_URL :: string where
  "DEFAULT_WALRUS_PUBLISHER_URL = ''https://publisher.walrus-testnet.walrus.space''"

definition DEFAULT_WALRUS_AGGREGATOR_URL :: string where
  "DEFAULT_WALRUS_AGGREGATOR_URL = ''https://aggregator.walrus-testnet.walrus.space''"

record config =
  cf_port :: nat
  cf_request_ttl_seconds :: i64
  cf_storage_type :: storage_type
  cf_membership_store_type :: membership_store_type
  cf_sui_rpc_url :: string
  cf_groups_package_id :: string
  cf_walrus_publisher_url :: string
  cf_walrus_aggregator_url :: string
  cf_walrus_storage_epochs :: nat
  cf_walrus_sync_interval_secs :: nat
  cf_walrus_sync_batch_size :: nat
  cf_walrus_sync_message_threshold :: nat

text \<open>\<open>env::var(name).ok().and_then(|v| v.parse().ok()).unwrap_or(default)\<close>\<close>

definition env_parse :: "(string \<Rightarrow> string option) \<Rightarrow> (string \<Rightarrow> 'a option) \<Rightarrow> 'a \<Rightarrow> string \<Rightarrow> 'a" where
  "env_parse env parse dflt name = unwrap_or dflt (Option.bind (env name) parse)"

definition storage_type_of :: "string \<Rightarrow> storage_type" where
  "storage_type_of v = (if to_lowercase v = ''memory'' then InMemory else InMemory)"

definition membership_store_type_of :: "string \<Rightarrow> membership_store_type" where
  "membership_store_type_of v =
     (if to_lowercase v = ''memory'' then InMemoryMembership else InMemoryMembership)"

definition from_env :: "(string \<Rightarrow> string option) \<Rightarrow> config option" where
  "from_env env =
     (let port = env_parse env (parse_unsigned 16) 3000 ''PORT'';
          request_ttl_seconds = env_parse env parse_i64 900 ''REQUEST_TTL_SECONDS'';
          storage_type = storage_type_of (unwrap_or ''memory'' (env ''STORAGE_TYPE''));
          membership_store_type =
            membership_store_type_of (unwrap_or ''memory'' (env ''MEMBERSHIP_STORE_TYPE''))
      in case env ''SUI_RPC_URL'' of
           None \<Rightarrow> None
         | Some sui_rpc_url \<Rightarrow>
             (case env ''GROUPS_PACKAGE_ID'' of
                None \<Rightarrow> None
              | Some groups_package_id \<Rightarrow>
                  Some \<lparr> cf_port = port,
                    cf_request_ttl_seconds = request_ttl_seconds,
                    cf_storage_type = storage_type,
                    cf_membership_store_type = membership_store_type,
                    cf_sui_rpc_url = sui_rpc_url,
                    cf_groups_package_id = groups_package_id,
                    cf_walrus_publisher_url =
                      unwrap_or DEFAULT_WALRUS_PUBLISHER_URL (env ''WALRUS_PUBLISHER_URL''),
                    cf_walrus_aggregator_url =
                      unwrap_or DEFAULT_WALRUS_AGGREGATOR_URL (env ''WALRUS_AGGREGATOR_URL''),
                    cf_walrus_storage_epochs =
                      env_parse env (parse_unsigned 32) 5 ''WALRUS_STORAGE_EPOCHS'',
                    cf_walrus_sync_interval_secs =
                      env_parse env (parse_unsigned 64) 3600 ''WALRUS_SYNC_INTERVAL_SECS'',
                    cf_walrus_sync_batch_size =
                      min (env_parse env (parse_unsigned 64) 100 ''WALRUS_SYNC_BATCH_SIZE'') 666,
                    cf_walrus_sync_message_threshold =
                      env_parse env (parse_unsigned 64) 50 ''WALRUS_SYNC_MESSAGE_THRESHOLD'' \<rparr>))"

definition default_config :: config where
  "default_config =
     \<lparr> cf_port = 3000,
       cf_request_ttl_seconds = 900,
       cf_storage_type = InMemory,
       cf_membership_store_type = InMemoryMembership,
       cf_sui_rpc_url = [],
       cf_groups_package_id = [],
       cf_walrus_publisher_url = DEFAULT_WALRUS_PUBLISHER_URL,
       cf_walrus_aggregator_url = DEFAULT_WALRUS_AGGREGATOR_URL,
       cf_walrus_storage_epochs = 5,
       cf_walrus_sync_interval_secs = 3600,
       cf_walrus_sync_batch_size = 100,
       cf_walrus_sync_message_threshold = 50 \<rparr>"

section \<open>Bounds and defaults\<close>

lemma env_parse_unsigned_bound:
  assumes "d < 2 ^ w"
  shows "env_parse env (parse_unsigned w) d name < 2 ^ w"
  using assms
  by (auto simp: env_parse_def unwrap_or_def parse_unsigned_def Let_def
      split: option.splits if_splits bind_splits)

lemma env_parse_unset [simp]: "env name = None \<Longrightarrow> env_parse env parse d name = d"
  by (simp add: env_parse_def)

lemma from_env_None_iff:
  "from_env env = None \<longleftrightarrow> env ''SUI_RPC_URL'' = None \<or> env ''GROUPS_PACKAGE_ID'' = None"
  by (auto simp: from_env_def Let_def split: option.splits)

lemma from_env_bounds:
  assumes "from_env env = Some c"
  shows "cf_port c < 2 ^ 16" "cf_walrus_storage_epochs c < 2 ^ 32"
    "cf_walrus_sync_interval_secs c < 2 ^ 64" "cf_walrus_sync_batch_size c \<le> 666"
    "cf_walrus_sync_message_threshold c < 2 ^ 64"
  using assms env_parse_unsigned_bound [of 3000 16 env "''PORT''"]
    env_parse_unsigned_bound [of 5 32 env "''WALRUS_STORAGE_EPOCHS''"]
    env_parse_unsigned_bound [of 3600 64 env "''WALRUS_SYNC_INTERVAL_SECS''"]
    env_parse_unsigned_bound [of 50 64 env "''WALRUS_SYNC_MESSAGE_THRESHOLD''"]
  by (auto simp: from_env_def Let_def split: option.splits)

lemma from_env_required:
  assumes "from_env env = Some c"
  shows "env ''SUI_RPC_URL'' = Some (cf_sui_rpc_url c)"
    "env ''GROUPS_PACKAGE_ID'' = Some (cf_groups_package_id c)"
  using assms by (auto simp: from_env_def Let_def split: option.splits)

lemma config_in_range:
  "(from_env env = None \<longleftrightarrow> env ''SUI_RPC_URL'' = None \<or> env ''GROUPS_PACKAGE_ID'' = None) \<and>
   (\<forall>c. from_env env = Some c \<longrightarrow>
      env ''SUI_RPC_URL'' = Some (cf_sui_rpc_url c) \<and>
      env ''GROUPS_PACKAGE_ID'' = Some (cf_groups_package_id c) \<and>
      cf_port c < 2 ^ 16 \<and> cf_walrus_storage_epochs c < 2 ^ 32 \<and>
      cf_walrus_sync_interval_secs c < 2 ^ 64 \<and> cf_walrus_sync_batch_size c \<le> 666 \<and>
      cf_walrus_sync_message_threshold c < 2 ^ 64)"
  using from_env_bounds [of env] by (simp add: from_env_None_iff from_env_required)

end
