(* ===== verification/Server.thy ===== *)
theory Server
  imports Handlers Middleware Config
begin

text \<open>
  \<open>src/relayer/src/main.rs\<close>, \<open>state.rs\<close> and \<open>handlers/health.rs\<close>: the routes, the authentication layer around
  the message routes, and the state the server starts in. The extractors of \<open>axum\<close> (\<open>Json\<close>, \<open>Query\<close>,
  \<open>Path\<close>) parse with \<open>serde\<close>; they are the record \<open>extractors\<close>, with their rejections as status and text.
  The CORS layer outside of all routes is not modelled.
\<close>

section \<open>Routes and replies\<close>

text \<open>A route carries the query string or the path parameter that its extractor parses.\<close>

datatype route =
    Messages string
  | MessageById string
  | HealthCheck
  | EnclaveHealth
  | GetAttestation
  | Logs string
  | NoRoute

type_synonym rejection = "nat \<times> string"

record extractors =
  ex_body_auth :: "bytes \<Rightarrow> (string, body_auth_fields) result"
  ex_create :: "(string \<rightharpoonup> bytes) \<Rightarrow> bytes \<Rightarrow> (rejection, create_message_request) result"
  ex_update :: "(string \<rightharpoonup> bytes) \<Rightarrow> bytes \<Rightarrow> (rejection, update_message_request) result"
  ex_query :: "string \<Rightarrow> (rejection, get_messages_query) result"
  ex_message_id :: "string \<Rightarrow> (rejection, uuid) result"
  ex_logs_lines :: "string \<Rightarrow> (rejection, nat option) result"
  ex_attest :: "bytes \<Rightarrow> bytes \<Rightarrow> (string, string) result"

datatype reply_body =
    AuthErrorBody auth_error_body
  | ErrorBody string
  | RejectionBody string
  | CreatedBody "create_message_response intent_message processed_data_response"
  | UpdatedBody "empty_response intent_message processed_data_response"
  | DeletedBody empty_response
  | MessagesBody get_messages_response
  | StatusBody string
  | EnclaveHealthBody enclave_health_response
  | AttestationBody string
  | LogsBody logs_response
  | NoBodyAtAll

type_synonym reply = "nat \<times> reply_body"

definition rejected :: "rejection \<Rightarrow> reply" where
  "rejected r = (fst r, RejectionBody (snd r))"

definition api_reply :: "('a \<Rightarrow> reply) \<Rightarrow> (api_error, 'a) result \<Rightarrow> reply" where
  "api_reply f r =
     (case r of
        Inl e \<Rightarrow> (fst (api_error_into_response e), ErrorBody (snd (api_error_into_response e)))
      | Inr v \<Rightarrow> f v)"

definition enclave_reply :: "('a \<Rightarrow> reply) \<Rightarrow> (enclave_error, 'a) result \<Rightarrow> reply" where
  "enclave_reply f r =
     (case r of
        Inl e \<Rightarrow> (fst (enclave_error_into_response e), ErrorBody (snd (enclave_error_into_response e)))
      | Inr v \<Rightarrow> f v)"

definition method_not_allowed :: reply where
  "method_not_allowed = (405, NoBodyAtAll)"

definition missing_extension :: reply where
  "missing_extension = (500, RejectionBody ''Missing request extension'')"

definition health_check :: reply where
  "health_check = (200, StatusBody ''ok'')"

section \<open>The message routes behind the layer\<close>

text \<open>
  The extractors run in the order of the handler's parameters. \<open>Extension<AuthContext>\<close> fails when the
  middleware let the request through without a context; \<open>get\<close> also answers \<open>HEAD\<close>.
\<close>

definition with_context :: "auth_context option \<Rightarrow> 's \<Rightarrow> (auth_context \<Rightarrow> reply option \<times> 's) \<Rightarrow> reply option \<times> 's" where
  "with_context ctx st f = (case ctx of None \<Rightarrow> (Some missing_extension, st) | Some auth \<Rightarrow> f auth)"

definition extracted :: "(rejection, 'a) result \<Rightarrow> 's \<Rightarrow> ('a \<Rightarrow> reply option \<times> 's) \<Rightarrow> reply option \<times> 's" where
  "extracted r st f = (case r of Inl e \<Rightarrow> (Some (rejected e), st) | Inr v \<Rightarrow> f v)"

definition messages_route ::
  "'us externs \<Rightarrow> extractors \<Rightarrow> 's storage_adapter \<Rightarrow> handler_env \<Rightarrow> string \<Rightarrow> route http_request
   \<Rightarrow> auth_context option \<Rightarrow> 's app_state \<Rightarrow> reply option \<times> 's app_state" where
  "messages_route X E SA env query request ctx st =
     (case rq_method request of
        GET \<Rightarrow> with_context ctx st (\<lambda>auth. extracted (ex_query E query) st (\<lambda>q.
          (Some (api_reply (\<lambda>v. (200, MessagesBody v)) (get_messages X SA auth q (as_storage st))), st)))
      | POST \<Rightarrow> with_context ctx st (\<lambda>auth.
          extracted (ex_create E (rq_headers request) (unwrap_or [] (rq_body request))) st (\<lambda>req.
            apfst (map_option (api_reply (\<lambda>(status, v). (status, CreatedBody v))))
              (create_message X SA env auth req st)))
      | PUT \<Rightarrow> with_context ctx st (\<lambda>auth.
          extracted (ex_update E (rq_headers request) (unwrap_or [] (rq_body request))) st (\<lambda>req.
            apfst (map_option (api_reply (\<lambda>v. (200, UpdatedBody v))))
              (update_message X SA env auth req st)))
      | OtherMethod m \<Rightarrow>
          if m = ''HEAD'' then with_context ctx st (\<lambda>auth. extracted (ex_query E query) st (\<lambda>q.
            (Some (api_reply (\<lambda>v. (200, NoBodyAtAll)) (get_messages X SA auth q (as_storage st))), st)))
          else (Some method_not_allowed, st)
      | DELETE \<Rightarrow> (Some method_not_allowed, st))"

definition message_by_id_route ::
  "'us externs \<Rightarrow> extractors \<Rightarrow> 's storage_adapter \<Rightarrow> handler_env \<Rightarrow> string \<Rightarrow> route http_request
   \<Rightarrow> auth_context option \<Rightarrow> 's app_state \<Rightarrow> reply option \<times> 's app_state" where
  "message_by_id_route X E SA env param request ctx st =
     (if rq_method request = DELETE then
        extracted (ex_message_id E param) st (\<lambda>message_id.
          with_context ctx st (\<lambda>auth.
            apfst (map_option (api_reply (\<lambda>v. (200, DeletedBody v))))
              (delete_message X SA env auth message_id st)))
      else (Some method_not_allowed, st))"

definition get_only :: "route http_request \<Rightarrow> reply \<Rightarrow> reply" where
  "get_only request r =
     (case rq_method request of
        GET \<Rightarrow> r
      | OtherMethod m \<Rightarrow> if m = ''HEAD'' then (fst r, NoBodyAtAll) else method_not_allowed
      | _ \<Rightarrow> method_not_allowed)"

definition authenticated_routes ::
  "'us externs \<Rightarrow> extractors \<Rightarrow> 's storage_adapter \<Rightarrow> handler_env \<Rightarrow> route http_request
   \<Rightarrow> auth_context option \<Rightarrow> 's app_state \<Rightarrow> reply option \<times> 's app_state" where
  "authenticated_routes X E SA env request ctx st =
     (case rq_route request of
        Messages query \<Rightarrow> messages_route X E SA env query request ctx st
      | MessageById param \<Rightarrow> message_by_id_route X E SA env param request ctx st
      | _ \<Rightarrow> (Some (404, NoBodyAtAll), st))"

definition is_message_route :: "route \<Rightarrow> bool" where
  "is_message_route r \<longleftrightarrow> (case r of Messages _ \<Rightarrow> True | MessageById _ \<Rightarrow> True | _ \<Rightarrow> False)"

section \<open>Serving one request\<close>

text \<open>The reply is \<open>None\<close> where the handler panics; the release profile then aborts the process.\<close>

definition serve ::
  "'us externs \<Rightarrow> extractors \<Rightarrow> 'm membership_store \<Rightarrow> 's storage_adapter \<Rightarrow> config \<Rightarrow> handler_env
   \<Rightarrow> 'm \<Rightarrow> log_buffer \<Rightarrow> route http_request \<Rightarrow> 's app_state \<Rightarrow> reply option \<times> 's app_state" where
  "serve X E MS SA cfg env ms logs request st =
     (if is_message_route (rq_route request) then
        (case auth_middleware X (ex_body_auth E) MS ms (cf_request_ttl_seconds cfg)
                (x_unix_secs X (he_auth_now env)) request of
           Reply status body \<Rightarrow> (Some (status, AuthErrorBody body), st)
         | Next request' ctx \<Rightarrow> authenticated_routes X E SA env request' ctx st)
      else
        (Some (case rq_route request of
           HealthCheck \<Rightarrow> get_only request health_check
         | EnclaveHealth \<Rightarrow> get_only request
             (enclave_reply (\<lambda>v. (200, EnclaveHealthBody v)) (enclave_health X (he_key_pair env)))
         | GetAttestation \<Rightarrow> get_only request
             (enclave_reply (\<lambda>v. (200, AttestationBody v)) (get_attestation (ex_attest E) (he_key_pair env)))
         | Logs query \<Rightarrow>
             (case ex_logs_lines E query of
                Inl e \<Rightarrow> get_only request (rejected e)
              | Inr n \<Rightarrow> get_only request (enclave_reply (\<lambda>v. (200, LogsBody v)) (get_logs n logs)))
         | _ \<Rightarrow> (404, NoBodyAtAll)), st))"

text \<open>The state that \<open>main\<close> sets up before it starts the services.\<close>

definition initial_app_state :: "(mem_storage \<Rightarrow> uuid list) \<Rightarrow> config \<Rightarrow> mem_storage app_state" where
  "initial_app_state order_of cfg =
     \<lparr>as_storage = snd (create_storage order_of (cf_storage_type cfg)), as_notified = 0\<rparr>"

section \<open>What the extractors are relied on for\<close>

text \<open>
  The middleware and the handler parse the same body, each into its own struct. \<open>serde\<close> fills fields of
  the same name from the same member, and rejects an empty body.
\<close>

definition bodies_agree :: "extractors \<Rightarrow> bool" where
  "bodies_agree E \<longleftrightarrow>
     (\<forall>h b f r. ex_body_auth E b = Inr f \<longrightarrow> ex_create E h b = Inr r \<longrightarrow>
        cr_group_id r = ba_group_id f \<and> cr_sender_address r = ba_sender_address f) \<and>
     (\<forall>h b f r. ex_body_auth E b = Inr f \<longrightarrow> ex_update E h b = Inr r \<longrightarrow>
        ur_group_id r = ba_group_id f \<and> ur_sender_address r = ba_sender_address f) \<and>
     (\<forall>h r. ex_create E h [] \<noteq> Inr r) \<and> (\<forall>h r. ex_update E h [] \<noteq> Inr r)"

section \<open>What a context says\<close>

definition request_accepted ::
  "'us externs \<Rightarrow> extractors \<Rightarrow> 'm membership_store \<Rightarrow> 'm \<Rightarrow> i64 \<Rightarrow> i64 \<Rightarrow> 'r http_request
   \<Rightarrow> 'r http_request \<Rightarrow> auth_context \<Rightarrow> bool" where
  "request_accepted X E MS ms ttl now request request' ctx \<longleftrightarrow>
     auth_middleware X (ex_body_auth E) MS ms ttl now request = Next request' (Some ctx)"

lemma auth_middleware_Next:
  "auth_middleware X parse MS ms ttl now request = Next request' (Some ctx) \<longleftrightarrow>
     (\<exists>required body. required_permission (rq_method request) = Some required \<and>
        authenticate X parse MS ms ttl now required request = Inr (body, ctx) \<and>
        request' = request\<lparr>rq_body := Some body\<rparr>)"
  by (auto simp: auth_middleware_def split: option.splits sum.splits)

lemma auth_middleware_Next_None:
  "auth_middleware X parse MS ms ttl now request = Next request' None \<longleftrightarrow>
     required_permission (rq_method request) = None \<and> request' = request"
  by (auto simp: auth_middleware_def split: option.splits sum.splits)

lemma accepted_context:
  assumes "request_accepted X E MS ms ttl now request request' ctx"
  obtains required body claim signature where
    "required_permission (rq_method request) = Some required"
    and "request' = request\<lparr>rq_body := Some body\<rparr>"
    and "rq_body request = Some body"
    and "auth_claim_of X (ex_body_auth E) (rq_headers request) body = Inr claim"
    and "validate_timestamp now (cl_timestamp claim) ttl = Inr ()"
    and "signature_valid X (cl_message_bytes claim) signature (ac_public_key ctx) (ac_scheme ctx)"
    and "auth_bound X ctx"
    and "ac_sender_address ctx = cl_sender_address claim"
    and "ac_authorized_group ctx = Some (cl_group_id claim)"
    and "ms_has_permission MS ms (cl_group_id claim) (cl_sender_address claim) required"
proof -
  from assms obtain required body where
    r: "required_permission (rq_method request) = Some required"
      "request' = request\<lparr>rq_body := Some body\<rparr>"
    and a: "authenticate X (ex_body_auth E) MS ms ttl now required request = Inr (body, ctx)"
    unfolding request_accepted_def auth_middleware_Next by blast
  from a obtain signature claim where
    b: "rq_body request = Some body" "auth_claim_of X (ex_body_auth E) (rq_headers request) body = Inr claim"
    and c: "check_claim X MS ms ttl now required (ac_scheme ctx) (ac_public_key ctx) signature claim
      = Inr ctx"
    unfolding authenticate_Inr_iff by blast
  from c have sel: "ac_sender_address ctx = cl_sender_address claim"
      "ac_authorized_group ctx = Some (cl_group_id claim)"
    unfolding check_claim_Inr_iff by (metis auth_context.select_convs(1), metis auth_context.select_convs(4))
  from c sel have "auth_bound X ctx"
    unfolding check_claim_Inr_iff auth_bound_def by simp
  with that [OF r b _ _ _ sel] c show thesis unfolding check_claim_Inr_iff by blast
qed

text \<open>For a request with a body, the handler's group and sender are those that were authorized.\<close>

lemma accepted_body:
  assumes "request_accepted X E MS ms ttl now request request' ctx"
    and "unwrap_or [] (rq_body request') \<noteq> []"
  obtains f where "ex_body_auth E (unwrap_or [] (rq_body request')) = Inr f"
    and "ac_authorized_group ctx = Some (ba_group_id f)" and "ac_sender_address ctx = ba_sender_address f"
  using assms(1)
proof (rule accepted_context)
  fix required body claim signature
  assume c: "request' = request\<lparr>rq_body := Some body\<rparr>"
    "auth_claim_of X (ex_body_auth E) (rq_headers request) body = Inr claim"
    "ac_sender_address ctx = cl_sender_address claim" "ac_authorized_group ctx = Some (cl_group_id claim)"
  with assms(2) have "body \<noteq> []" by simp
  with c(2) obtain f where "ex_body_auth E body = Inr f"
    "cl_group_id claim = ba_group_id f" "cl_sender_address claim = ba_sender_address f"
    by (auto simp: auth_claim_of_def body_claim_Inr_iff)
  with c show thesis by (intro that [of f]) simp_all
qed

lemma accepted_create:
  assumes "bodies_agree E" and "request_accepted X E MS ms ttl now request request' ctx"
    and "ex_create E (rq_headers request') (unwrap_or [] (rq_body request')) = Inr req"
  shows "ac_authorized_group ctx = Some (cr_group_id req) \<and> cr_sender_address req = ac_sender_address ctx"
proof -
  have "unwrap_or [] (rq_body request') \<noteq> []" using assms(1,3) by (auto simp: bodies_agree_def)
  with assms(2) show ?thesis
    by (rule accepted_body) (use assms(1,3) in \<open>unfold bodies_agree_def, metis\<close>)
qed

lemma accepted_update:
  assumes "bodies_agree E" and "request_accepted X E MS ms ttl now request request' ctx"
    and "ex_update E (rq_headers request') (unwrap_or [] (rq_body request')) = Inr req"
  shows "ac_authorized_group ctx = Some (ur_group_id req) \<and> ur_sender_address req = ac_sender_address ctx"
proof -
  have "unwrap_or [] (rq_body request') \<noteq> []" using assms(1,3) by (auto simp: bodies_agree_def)
  with assms(2) show ?thesis
    by (rule accepted_body) (use assms(1,3) in \<open>unfold bodies_agree_def, metis\<close>)
qed

section \<open>From a reply back to the handler\<close>

text \<open>A reply on a message route that is not the middleware's comes from the router, with a context.\<close>

lemma serve_accepted:
  assumes "serve X E MS SA cfg env ms logs request st = (Some (status, body), st')"
    and "is_message_route (rq_route request)"
    and "required_permission (rq_method request) = Some required"
    and "\<forall>b. body \<noteq> AuthErrorBody b"
  obtains request' ctx where
    "request_accepted X E MS ms (cf_request_ttl_seconds cfg) (x_unix_secs X (he_auth_now env))
       request request' ctx"
    and "rq_method request' = rq_method request" and "rq_route request' = rq_route request"
    and "authenticated_routes X E SA env request' (Some ctx) st = (Some (status, body), st')"
proof (cases "auth_middleware X (ex_body_auth E) MS ms (cf_request_ttl_seconds cfg)
    (x_unix_secs X (he_auth_now env)) request")
  case (Next request' ctx)
  with assms(3) auth_middleware_Next_None obtain c where c: "ctx = Some c"
    by (cases ctx) (auto simp: auth_middleware_Next_None)
  with Next have acc: "request_accepted X E MS ms (cf_request_ttl_seconds cfg)
      (x_unix_secs X (he_auth_now env)) request request' c"
    by (simp add: request_accepted_def)
  with auth_middleware_Next have "rq_method request' = rq_method request" "rq_route request' = rq_route request"
    by (auto simp: request_accepted_def auth_middleware_Next)
  with that [OF acc] Next c assms(1,2) show thesis by (simp add: serve_def)
next
  case (Reply s b)
  with assms show thesis by (auto simp: serve_def)
qed

lemma accepted_permission:
  assumes "request_accepted X E MS ms ttl now request request' ctx"
    and "required_permission (rq_method request) = Some required"
    and "ac_authorized_group ctx = Some g"
  shows "ms_has_permission MS ms g (ac_sender_address ctx) required"
  using assms(1) by (rule accepted_context) (use assms(2,3) in auto)

text \<open>The context of an accepted request names whom the request itself is authenticated for.\<close>

lemma accepted_as:
  assumes "request_accepted X E MS ms ttl now request request' ctx"
    and "ac_authorized_group ctx = Some g"
  shows "authenticated_as X (ex_body_auth E) ttl now request g (ac_sender_address ctx)"
  using assms
  unfolding request_accepted_def auth_middleware_Next authenticate_accepts authenticated_as_def by (auto, blast)

lemma accepted_bound:
  "request_accepted X E MS ms ttl now request request' ctx \<Longrightarrow> auth_bound X ctx"
  by (erule accepted_context)

text \<open>
  The other direction: a request on a message route that shows a claim, by a sender who holds the
  permission, reaches the router with the context of that claim.
\<close>

definition claim_context :: "signature_scheme \<Rightarrow> bytes \<Rightarrow> auth_claim \<Rightarrow> auth_context" where
  "claim_context scheme key claim =
     \<lparr>ac_sender_address = cl_sender_address claim, ac_public_key = key, ac_scheme = scheme,
      ac_authorized_group = Some (cl_group_id claim)\<rparr>"

lemma claim_context_sel [simp]:
  "ac_sender_address (claim_context scheme key claim) = cl_sender_address claim"
  "ac_public_key (claim_context scheme key claim) = key" "ac_scheme (claim_context scheme key claim) = scheme"
  "ac_authorized_group (claim_context scheme key claim) = Some (cl_group_id claim)"
  by (simp_all add: claim_context_def)

lemma serve_shown:
  assumes shown: "request_shows X (ex_body_auth E) (cf_request_ttl_seconds cfg) (x_unix_secs X (he_auth_now env))
      request body scheme key claim"
    and "is_message_route (rq_route request)" and method_permission: "required_permission (rq_method request) = Some required"
    and "ms_has_permission MS ms (cl_group_id claim) (cl_sender_address claim) required"
  shows "rq_body request = Some body"
    and "serve X E MS SA cfg env ms logs request st =
      authenticated_routes X E SA env request (Some (claim_context scheme key claim)) st"
proof -
  show body: "rq_body request = Some body" using shown by (simp add: request_shows_def)
  have "authenticate X (ex_body_auth E) MS ms (cf_request_ttl_seconds cfg) (x_unix_secs X (he_auth_now env))
      required request = Inr (body, claim_context scheme key claim)"
    unfolding authenticate_accepts using assms(1,4) by auto
  moreover have "request\<lparr>rq_body := Some body\<rparr> = request" using body by (cases request) simp
  ultimately show "serve X E MS SA cfg env ms logs request st =
      authenticated_routes X E SA env request (Some (claim_context scheme key claim)) st"
    using assms(2,3) by (simp add: serve_def auth_middleware_def)
qed

lemma extracted_eq:
  "extracted r st f = (Some (s, b), st') \<Longrightarrow> (\<And>e. b \<noteq> RejectionBody e) \<Longrightarrow>
     \<exists>v. r = Inr v \<and> f v = (Some (s, b), st')"
  by (cases r) (auto simp: extracted_def rejected_def)

lemma api_reply_eq:
  "apfst (map_option (api_reply f)) rs = (Some (s, b), st') \<Longrightarrow> (\<And>e. b \<noteq> ErrorBody e) \<Longrightarrow>
     \<exists>v. rs = (Some (Inr v), st') \<and> f v = (s, b)"
  by (cases rs; cases "fst rs") (auto simp: api_reply_def split: sum.splits)

text \<open>
  What the four routes share: a reply that is neither the middleware's, nor a rejection, nor an error of
  the handler comes from an accepted request whose parts were extracted and whose handler succeeded.
\<close>

lemma serve_handled:
  assumes served: "serve X E MS SA cfg env ms logs request st = (Some (status, body), st')"
    and route: "is_message_route (rq_route request)"
    and permission: "required_permission (rq_method request) = Some required"
    and handled: "\<And>r c. rq_method r = rq_method request \<Longrightarrow> rq_route r = rq_route request \<Longrightarrow>
      authenticated_routes X E SA env r (Some c) st =
        extracted (part r) st (\<lambda>v. apfst (map_option (api_reply f)) (handler c v))"
    and no_error: "\<And>e. body \<noteq> AuthErrorBody e" "\<And>e. body \<noteq> RejectionBody e" "\<And>e. body \<noteq> ErrorBody e"
  obtains request' ctx v reply where
    "request_accepted X E MS ms (cf_request_ttl_seconds cfg) (x_unix_secs X (he_auth_now env))
       request request' ctx"
    and "part request' = Inr v" and "handler ctx v = (Some (Inr reply), st')" and "f reply = (status, body)"
proof -
  from served route permission no_error(1) obtain request' ctx where
    acc: "request_accepted X E MS ms (cf_request_ttl_seconds cfg) (x_unix_secs X (he_auth_now env))
       request request' ctx"
    and "extracted (part request') st (\<lambda>v. apfst (map_option (api_reply f)) (handler ctx v)) =
       (Some (status, body), st')"
    by (auto elim!: serve_accepted simp: handled)
  from extracted_eq [OF this(2) no_error(2)] obtain v where v: "part request' = Inr v"
    "apfst (map_option (api_reply f)) (handler ctx v) = (Some (status, body), st')" by blast
  from api_reply_eq [OF this(2) no_error(3)] that [OF acc v(1)] show thesis by blast
qed

lemmas route_evaluation =
  is_message_route_def authenticated_routes_def messages_route_def message_by_id_route_def with_context_def

lemma serve_post:
  assumes "serve X E MS SA cfg env ms logs request st = (Some (status, CreatedBody reply), st')"
    and "rq_method request = POST" and "rq_route request = Messages q"
  obtains request' ctx req where
    "request_accepted X E MS ms (cf_request_ttl_seconds cfg) (x_unix_secs X (he_auth_now env))
       request request' ctx"
    and "ex_create E (rq_headers request') (unwrap_or [] (rq_body request')) = Inr req"
    and "create_message X SA env ctx req st = (Some (Inr (status, reply)), st')"
  using assms(1)
proof (rule serve_handled [where required = MessagingSender
      and part = "\<lambda>r. ex_create E (rq_headers r) (unwrap_or [] (rq_body r))"
      and f = "\<lambda>(status, v). (status, CreatedBody v)" and handler = "\<lambda>c v. create_message X SA env c v st"])
qed (use assms that in \<open>auto simp: route_evaluation\<close>)

lemma serve_put:
  assumes "serve X E MS SA cfg env ms logs request st = (Some (status, UpdatedBody reply), st')"
    and "rq_method request = PUT" and "rq_route request = Messages q"
  obtains request' ctx req where
    "request_accepted X E MS ms (cf_request_ttl_seconds cfg) (x_unix_secs X (he_auth_now env))
       request request' ctx"
    and "ex_update E (rq_headers request') (unwrap_or [] (rq_body request')) = Inr req"
    and "update_message X SA env ctx req st = (Some (Inr reply), st')" and "status = 200"
  using assms(1)
proof (rule serve_handled [where required = MessagingEditor
      and part = "\<lambda>r. ex_update E (rq_headers r) (unwrap_or [] (rq_body r))"
      and f = "\<lambda>v. (200, UpdatedBody v)" and handler = "\<lambda>c v. update_message X SA env c v st"])
qed (use assms that in \<open>auto simp: route_evaluation\<close>)

lemma serve_delete:
  assumes "serve X E MS SA cfg env ms logs request st = (Some (status, DeletedBody reply), st')"
    and "rq_method request = DELETE" and "rq_route request = MessageById p"
  obtains request' ctx mid where
    "request_accepted X E MS ms (cf_request_ttl_seconds cfg) (x_unix_secs X (he_auth_now env))
       request request' ctx"
    and "ex_message_id E p = Inr mid"
    and "delete_message X SA env ctx mid st = (Some (Inr reply), st')" and "status = 200"
  using assms(1)
proof (rule serve_handled [where required = MessagingDeleter and part = "\<lambda>_. ex_message_id E p"
      and f = "\<lambda>v. (200, DeletedBody v)" and handler = "\<lambda>c v. delete_message X SA env c v st"])
qed (use assms that in \<open>auto simp: route_evaluation\<close>)

lemma serve_get:
  assumes "serve X E MS SA cfg env ms logs request st = (Some (status, MessagesBody reply), st')"
    and "rq_method request = GET" and "rq_route request = Messages p"
  obtains request' ctx q where
    "request_accepted X E MS ms (cf_request_ttl_seconds cfg) (x_unix_secs X (he_auth_now env))
       request request' ctx"
    and "ex_query E p = Inr q" and "get_messages X SA ctx q (as_storage st) = Inr reply"
    and "status = 200" and "st' = st"
  using assms(1)
proof (rule serve_handled [where required = MessagingReader and part = "\<lambda>_. ex_query E p"
      and f = "\<lambda>v. (200, MessagesBody v)" and handler = "\<lambda>c v. (Some (get_messages X SA c v (as_storage st)), st)"])
  fix request' ctx v reply'
  assume "request_accepted X E MS ms (cf_request_ttl_seconds cfg) (x_unix_secs X (he_auth_now env))
       request request' ctx" and "ex_query E p = Inr v"
    and "(Some (get_messages X SA ctx v (as_storage st)), st) = (Some (Inr reply'), st')"
    and "(200, MessagesBody reply') = (status, MessagesBody reply)"
  then show thesis using that by blast
qed (use assms in \<open>auto simp: route_evaluation\<close>)

end
