(* ===== verification/Event_Parser.thy ===== *)
theory Event_Parser
  imports Auth_Types
begin

text \<open>
  \<open>src/relayer/src/services/event_parser.rs\<close>: from a Sui event to a \<open>GroupsEvent\<close>. The protobuf event
  and its BCS contents are data from outside; the two BCS decoders (\<open>bcs::from_bytes\<close> at the two event
  structs) are parameters, gathered in the record \<open>event_bcs\<close>.
\<close>

datatype groups_event =
    MemberAdded (ge_group: string) (ge_member: string)
  | MemberRemoved (ge_group: string) (ge_member: string)
  | PermissionsGranted (ge_group: string) (ge_member: string) (ge_permissions: "messaging_permission list")
  | PermissionsRevoked (ge_group: string) (ge_member: string) (ge_permissions: "messaging_permission list")

record member_event_bcs =
  me_group_id :: bytes
  me_member :: bytes

record permissions_event_bcs =
  pe_group_id :: bytes
  pe_member :: bytes
  pe_permissions :: "string list"  \<comment> \<open>the \<open>name\<close> fields of the \<open>TypeNameBcs\<close> entries\<close>

record event_bcs =
  bcs_member :: "bytes \<Rightarrow> (string, member_event_bcs) result"
  bcs_permissions :: "bytes \<Rightarrow> (string, permissions_event_bcs) result"

text \<open>The fields of the protobuf \<open>Event\<close> that are read; \<open>contents\<close> is a message with an optional value.\<close>

record sui_event =
  ev_type :: "string option"
  ev_contents :: "bytes option option"

definition hex_id :: "'us externs \<Rightarrow> bytes \<Rightarrow> string" where
  "hex_id X bs = ''0x'' @ x_hex_encode X bs"

definition parse_permissions_granted ::
  "'us externs \<Rightarrow> event_bcs \<Rightarrow> bytes \<Rightarrow> groups_event option" where
  "parse_permissions_granted X B bcs_bytes =
     (case ok (bcs_permissions B bcs_bytes) of
        None \<Rightarrow> None
      | Some event_data \<Rightarrow>
          Some (PermissionsGranted (hex_id X (pe_group_id event_data)) (hex_id X (pe_member event_data))
            (List.map_filter from_type_name (pe_permissions event_data))))"

definition parse_permissions_revoked ::
  "'us externs \<Rightarrow> event_bcs \<Rightarrow> bytes \<Rightarrow> groups_event option" where
  "parse_permissions_revoked X B bcs_bytes =
     (case ok (bcs_permissions B bcs_bytes) of
        None \<Rightarrow> None
      | Some event_data \<Rightarrow>
          Some (PermissionsRevoked (hex_id X (pe_group_id event_data)) (hex_id X (pe_member event_data))
            (List.map_filter from_type_name (pe_permissions event_data))))"

definition parse_member_added ::
  "'us externs \<Rightarrow> event_bcs \<Rightarrow> bytes \<Rightarrow> groups_event option" where
  "parse_member_added X B bcs_bytes =
     (case ok (bcs_member B bcs_bytes) of
        None \<Rightarrow> None
      | Some event_data \<Rightarrow>
          Some (MemberAdded (hex_id X (me_group_id event_data)) (hex_id X (me_member event_data))))"

definition parse_member_removed ::
  "'us externs \<Rightarrow> event_bcs \<Rightarrow> bytes \<Rightarrow> groups_event option" where
  "parse_member_removed X B bcs_bytes =
     (case ok (bcs_member B bcs_bytes) of
        None \<Rightarrow> None
      | Some event_data \<Rightarrow>
          Some (MemberRemoved (hex_id X (me_group_id event_data)) (hex_id X (me_member event_data))))"

text \<open>The package check at the head of \<open>parse_sui_event\<close>.\<close>

definition from_package :: "string \<Rightarrow> string \<Rightarrow> bool" where
  "from_package groups_package_id event_type =
     (let normalized_pkg = to_lowercase (trim_start_matches ''0x'' groups_package_id);
          event_type_lower = to_lowercase event_type
      in starts_with event_type_lower (''0x'' @ normalized_pkg)
           \<or> starts_with event_type_lower normalized_pkg)"

definition parse_sui_event ::
  "'us externs \<Rightarrow> event_bcs \<Rightarrow> sui_event \<Rightarrow> string \<Rightarrow> groups_event option" where
  "parse_sui_event X B event groups_package_id =
     (case ev_type event of
        None \<Rightarrow> None
      | Some event_type \<Rightarrow>
          if \<not> from_package groups_package_id event_type then None
          else (case ev_contents event of
              None \<Rightarrow> None
            | Some contents \<Rightarrow>
                (case contents of
                   None \<Rightarrow> None
                 | Some bcs_bytes \<Rightarrow>
                     if str_contains event_type ''::PermissionsGranted<''
                     then parse_permissions_granted X B bcs_bytes
                     else if str_contains event_type ''::PermissionsRevoked<''
                     then parse_permissions_revoked X B bcs_bytes
                     else if str_contains event_type ''::MemberAdded<''
                     then parse_member_added X B bcs_bytes
                     else if str_contains event_type ''::MemberRemoved<''
                     then parse_member_removed X B bcs_bytes
                     else None)))"

section \<open>Facts\<close>

lemmas parse_defs = parse_permissions_granted_def parse_permissions_revoked_def
  parse_member_added_def parse_member_removed_def

lemma parse_sui_event_package:
  "parse_sui_event X B ev pkg = Some ge \<Longrightarrow> \<exists>t. ev_type ev = Some t \<and> from_package pkg t"
  by (auto simp: parse_sui_event_def split: option.splits if_splits)

lemma parse_sui_event_foreign:
  "ev_type ev = Some t \<Longrightarrow> \<not> from_package pkg t \<Longrightarrow> parse_sui_event X B ev pkg = None"
  by (simp add: parse_sui_event_def)

text \<open>Which event a type string and its bytes denote.\<close>

lemma parse_sui_event_Some_iff:
  "parse_sui_event X B ev pkg = Some ge \<longleftrightarrow>
     (\<exists>t bs. ev_type ev = Some t \<and> from_package pkg t \<and> ev_contents ev = Some (Some bs) \<and>
        (if str_contains t ''::PermissionsGranted<'' then parse_permissions_granted X B bs = Some ge
         else if str_contains t ''::PermissionsRevoked<'' then parse_permissions_revoked X B bs = Some ge
         else if str_contains t ''::MemberAdded<'' then parse_member_added X B bs = Some ge
         else str_contains t ''::MemberRemoved<'' \<and> parse_member_removed X B bs = Some ge))"
  by (auto simp: parse_sui_event_def split: option.splits)

text \<open>Every event names its group and its member by ids the parser has rendered.\<close>

lemma parse_sui_event_ids:
  "parse_sui_event X B ev pkg = Some ge \<Longrightarrow>
     (\<exists>g. ge_group ge = hex_id X g) \<and> (\<exists>a. ge_member ge = hex_id X a)"
  by (auto simp: parse_sui_event_Some_iff parse_defs split: if_splits option.splits)

end
