(* ===== verification/Membership_Sync.thy ===== *)
theory Membership_Sync
  imports Membership Event_Parser
begin

text \<open>
  \<open>src/relayer/src/services/membership_sync.rs\<close>: the service that follows the Sui checkpoint stream and
  keeps the membership store up to date. The gRPC stream is data: a subscription is the outcome of
  connecting and subscribing, and the list of items the stream yields before it ends.
\<close>

record sync_service =
  sv_groups_package_id :: string
  sv_last_cursor :: "u64 option"

text \<open>The part of \<open>SubscribeCheckpointsResponse\<close> that is read.\<close>

type_synonym sui_transaction = "sui_event list option"
type_synonym checkpoint = "sui_transaction list"

record checkpoint_response =
  cr_cursor :: "u64 option"
  cr_checkpoint :: "checkpoint option"

section \<open>Applying one event\<close>

fun apply_event :: "'m membership_store \<Rightarrow> groups_event \<Rightarrow> 'm \<Rightarrow> 'm" where
  "apply_event MS (MemberAdded group_id member) m = ms_add_member MS group_id member [] m"
| "apply_event MS (MemberRemoved group_id member) m = ms_remove_member MS group_id member m"
| "apply_event MS (PermissionsGranted group_id member permissions) m =
     snd (ms_grant_permissions MS group_id member permissions m)"
| "apply_event MS (PermissionsRevoked group_id member permissions) m =
     snd (ms_revoke_permissions MS group_id member permissions m)"

section \<open>One checkpoint, one subscription\<close>

fun process_events ::
  "'us externs \<Rightarrow> event_bcs \<Rightarrow> 'm membership_store \<Rightarrow> string \<Rightarrow> sui_event list \<Rightarrow> 'm \<Rightarrow> 'm" where
  "process_events X B MS pkg [] m = m"
| "process_events X B MS pkg (event # events) m =
     (case parse_sui_event X B event pkg of
        None \<Rightarrow> process_events X B MS pkg events m
      | Some groups_event \<Rightarrow> process_events X B MS pkg events (apply_event MS groups_event m))"

fun process_checkpoint ::
  "'us externs \<Rightarrow> event_bcs \<Rightarrow> 'm membership_store \<Rightarrow> string \<Rightarrow> checkpoint \<Rightarrow> 'm \<Rightarrow> 'm" where
  "process_checkpoint X B MS pkg [] m = m"
| "process_checkpoint X B MS pkg (transaction # transactions) m =
     (case transaction of
        None \<Rightarrow> process_checkpoint X B MS pkg transactions m
      | Some events \<Rightarrow>
          process_checkpoint X B MS pkg transactions (process_events X B MS pkg events m))"

text \<open>
  The loop of \<open>run_subscription\<close>. An error item ends it through \<open>?\<close>; the end of the stream is \<open>Ok\<close>.
\<close>

fun process_stream ::
  "'us externs \<Rightarrow> event_bcs \<Rightarrow> 'm membership_store \<Rightarrow> (string, checkpoint_response) result list
   \<Rightarrow> sync_service \<times> 'm \<Rightarrow> (string, unit) result \<times> sync_service \<times> 'm" where
  "process_stream X B MS [] (sv, m) = (Inr (), sv, m)"
| "process_stream X B MS (Inl e # items) (sv, m) = (Inl e, sv, m)"
| "process_stream X B MS (Inr response # items) (sv, m) =
     (let cursor = unwrap_or 0 (cr_cursor response)
      in if (case sv_last_cursor sv of None \<Rightarrow> False | Some prev \<Rightarrow> cursor \<le> prev)
         then process_stream X B MS items (sv, m)
         else
           (let m' = (case cr_checkpoint response of
                        None \<Rightarrow> m
                      | Some cp \<Rightarrow> process_checkpoint X B MS (sv_groups_package_id sv) cp m)
            in process_stream X B MS items (sv\<lparr>sv_last_cursor := Some cursor\<rparr>, m')))"

text \<open>One subscription: \<open>connect\<close> and \<open>subscribe_checkpoints\<close> may fail before any item arrives.\<close>

definition run_subscription ::
  "'us externs \<Rightarrow> event_bcs \<Rightarrow> 'm membership_store
   \<Rightarrow> (string, (string, checkpoint_response) result list) result
   \<Rightarrow> sync_service \<times> 'm \<Rightarrow> (string, unit) result \<times> sync_service \<times> 'm" where
  "run_subscription X B MS subscription s =
     (case subscription of Inl e \<Rightarrow> (Inl e, s) | Inr items \<Rightarrow> process_stream X B MS items s)"

text \<open>
  \<open>run\<close> never returns: it subscribes again whether the last subscription ended or failed (after five
  seconds in that case). Its state after the first \<open>n\<close> subscriptions is that of \<open>run_sessions\<close> on them.
\<close>

fun run_sessions ::
  "'us externs \<Rightarrow> event_bcs \<Rightarrow> 'm membership_store
   \<Rightarrow> (string, (string, checkpoint_response) result list) result list
   \<Rightarrow> sync_service \<times> 'm \<Rightarrow> sync_service \<times> 'm" where
  "run_sessions X B MS [] s = s"
| "run_sessions X B MS (subscription # subscriptions) s =
     run_sessions X B MS subscriptions (snd (run_subscription X B MS subscription s))"

definition new_sync_service :: "string \<Rightarrow> sync_service" where
  "new_sync_service groups_package_id =
     \<lparr>sv_groups_package_id = groups_package_id, sv_last_cursor = None\<rparr>"

section \<open>The events of a checkpoint, in order\<close>

definition checkpoint_events :: "'us externs \<Rightarrow> event_bcs \<Rightarrow> string \<Rightarrow> checkpoint \<Rightarrow> groups_event list" where
  "checkpoint_events X B pkg cp =
     List.map_filter (\<lambda>event. parse_sui_event X B event pkg) (concat (map (unwrap_or []) cp))"

lemma process_events_fold:
  "process_events X B MS pkg events m =
     fold (apply_event MS) (List.map_filter (\<lambda>event. parse_sui_event X B event pkg) events) m"
  by (induction events arbitrary: m) (auto simp: List.map_filter_simps split: option.splits)

lemma map_filter_append:
  "List.map_filter f (xs @ ys) = List.map_filter f xs @ List.map_filter f ys"
  by (induction xs) (auto simp: List.map_filter_simps split: option.splits)

lemma process_checkpoint_fold:
  "process_checkpoint X B MS pkg cp m = fold (apply_event MS) (checkpoint_events X B pkg cp) m"
proof (induction cp arbitrary: m)
  case Nil
  then show ?case by (simp add: checkpoint_events_def List.map_filter_simps)
next
  case (Cons tr cp)
  have "checkpoint_events X B pkg (tr # cp) =
      List.map_filter (\<lambda>event. parse_sui_event X B event pkg) (unwrap_or [] tr)
        @ checkpoint_events X B pkg cp"
    by (simp add: checkpoint_events_def map_filter_append)
  with Cons show ?case
    by (cases tr) (simp_all add: process_events_fold List.map_filter_simps)
qed

section \<open>The abstract semantics of the events\<close>

text \<open>What an event does to the table of permissions, and the history reading of the table.\<close>

fun event_table :: "groups_event \<Rightarrow> perm_table \<Rightarrow> perm_table" where
  "event_table (MemberAdded g a) t = upd2 t g a (Some {})"
| "event_table (MemberRemoved g a) t = upd2 t g a None"
| "event_table (PermissionsGranted g a xs) t = upd2 t g a (map_option (\<lambda>ps. ps \<union> set xs) (t g a))"
| "event_table (PermissionsRevoked g a xs) t = upd2 t g a (map_option (\<lambda>ps. ps - set xs) (t g a))"

context membership_contract
begin

text \<open>Every store that meets the contract runs the events as its table does.\<close>

lemma apply_event_table: "table (apply_event MS ev m) = event_table ev (table m)"
  by (cases ev) (simp_all add: table_simps)

lemma apply_events_table: "table (fold (apply_event MS) evs m) = fold event_table evs (table m)"
  by (induction evs arbitrary: m) (simp_all add: apply_event_table)

lemma process_checkpoint_table:
  "table (process_checkpoint X B MS pkg cp m) = fold event_table (checkpoint_events X B pkg cp) (table m)"
  by (simp add: process_checkpoint_fold apply_events_table)

end

section \<open>When a permission is held\<close>

text \<open>
  \<open>takes_away\<close>: the event ends the permission \<open>p\<close> of \<open>a\<close> in \<open>g\<close>. A second \<open>MemberAdded\<close> does so too,
  as it replaces the permission set by the empty one.
\<close>

fun takes_away :: "string \<Rightarrow> string \<Rightarrow> messaging_permission \<Rightarrow> groups_event \<Rightarrow> bool" where
  "takes_away g a p (MemberAdded g' a') \<longleftrightarrow> g' = g \<and> a' = a"
| "takes_away g a p (MemberRemoved g' a') \<longleftrightarrow> g' = g \<and> a' = a"
| "takes_away g a p (PermissionsGranted g' a' xs) \<longleftrightarrow> False"
| "takes_away g a p (PermissionsRevoked g' a' xs) \<longleftrightarrow> g' = g \<and> a' = a \<and> p \<in> set xs"

definition listed_member :: "string \<Rightarrow> string \<Rightarrow> groups_event list \<Rightarrow> bool" where
  "listed_member g a evs \<longleftrightarrow>
     (\<exists>us vs. evs = us @ MemberAdded g a # vs \<and> MemberRemoved g a \<notin> set vs)"

definition granted_by :: "string \<Rightarrow> string \<Rightarrow> messaging_permission \<Rightarrow> groups_event list \<Rightarrow> bool" where
  "granted_by g a p evs \<longleftrightarrow>
     (\<exists>us xs vs. evs = us @ PermissionsGranted g a xs # vs \<and> p \<in> set xs \<and> listed_member g a us \<and>
        list_all (\<lambda>e. \<not> takes_away g a p e) vs)"

text \<open>Splitting a history with one more event at the end.\<close>

lemma ex_split_snoc:
  "(\<exists>us y vs. xs @ [x] = us @ y # vs \<and> P us y vs) \<longleftrightarrow>
     P xs x [] \<or> (\<exists>us y vs. xs = us @ y # vs \<and> P us y (vs @ [x]))" (is "?L \<longleftrightarrow> ?R")
proof
  assume ?L
  then obtain us y vs where eq: "xs @ [x] = us @ y # vs" and P: "P us y vs" by blast
  then show ?R by (cases vs rule: rev_cases) auto
next
  assume ?R
  then show ?L by (metis append.assoc append_Cons)
qed

lemma listed_member_snoc:
  "listed_member g a (evs @ [e]) \<longleftrightarrow>
     e = MemberAdded g a \<or> (listed_member g a evs \<and> e \<noteq> MemberRemoved g a)"
  using ex_split_snoc [of evs e "\<lambda>us y vs. y = MemberAdded g a \<and> MemberRemoved g a \<notin> set vs"]
  by (auto simp: listed_member_def)

lemma granted_by_snoc:
  "granted_by g a p (evs @ [e]) \<longleftrightarrow>
     (\<exists>xs. e = PermissionsGranted g a xs \<and> p \<in> set xs \<and> listed_member g a evs) \<or>
     (granted_by g a p evs \<and> \<not> takes_away g a p e)"
proof -
  define P where "P us y vs \<longleftrightarrow> (\<exists>xs. y = PermissionsGranted g a xs \<and> p \<in> set xs) \<and>
      listed_member g a us \<and> list_all (\<lambda>e. \<not> takes_away g a p e) vs" for us y vs
  have alt: "granted_by g a p es \<longleftrightarrow> (\<exists>us y vs. es = us @ y # vs \<and> P us y vs)" for es
    unfolding granted_by_def P_def by blast
  have snoc: "P us y (vs @ [e]) \<longleftrightarrow> P us y vs \<and> \<not> takes_away g a p e" for us y vs
    by (auto simp: P_def)
  have last: "P evs e [] \<longleftrightarrow> (\<exists>xs. e = PermissionsGranted g a xs \<and> p \<in> set xs \<and> listed_member g a evs)"
    by (auto simp: P_def)
  show ?thesis unfolding alt ex_split_snoc snoc last by blast
qed

lemma event_table_listed:
  "(\<exists>ps. fold event_table evs (\<lambda>_ _. None) g a = Some ps) \<longleftrightarrow> listed_member g a evs"
proof (induction evs rule: rev_induct)
  case Nil
  then show ?case by (simp add: listed_member_def)
next
  case (snoc e evs)
  then show ?case by (cases e) (auto simp: listed_member_snoc)
qed

lemma event_table_granted:
  "(\<exists>ps. fold event_table evs (\<lambda>_ _. None) g a = Some ps \<and> p \<in> ps) \<longleftrightarrow> granted_by g a p evs"
proof (induction evs rule: rev_induct)
  case Nil
  then show ?case by (simp add: granted_by_def)
next
  case (snoc e evs)
  note listed = event_table_listed [of evs g a, symmetric]
  from snoc show ?case
    by (cases e) (auto simp: granted_by_snoc listed)
qed

section \<open>Each checkpoint at most once\<close>

text \<open>
  \<open>delivered\<close> is what reaches the loop over a run of subscriptions: the items of each one up to its
  first error. \<open>accepted c\<close> is the part the loop does not skip when the last cursor is \<open>c\<close>.
\<close>

fun until_error :: "('e, 'a) result list \<Rightarrow> 'a list" where
  "until_error [] = []"
| "until_error (Inl e # items) = []"
| "until_error (Inr x # items) = x # until_error items"

definition delivered ::
  "(string, (string, checkpoint_response) result list) result list \<Rightarrow> checkpoint_response list" where
  "delivered subscriptions =
     concat (map (\<lambda>s. case s of Inl _ \<Rightarrow> [] | Inr items \<Rightarrow> until_error items) subscriptions)"

fun accepted :: "u64 option \<Rightarrow> checkpoint_response list \<Rightarrow> (u64 \<times> checkpoint) list" where
  "accepted c [] = []"
| "accepted c (r # rs) =
     (let k = unwrap_or 0 (cr_cursor r)
      in if (case c of None \<Rightarrow> False | Some prev \<Rightarrow> k \<le> prev) then accepted c rs
         else (k, unwrap_or [] (cr_checkpoint r)) # accepted (Some k) rs)"

definition last_cursor_after :: "u64 option \<Rightarrow> checkpoint_response list \<Rightarrow> u64 option" where
  "last_cursor_after c rs = (if accepted c rs = [] then c else Some (fst (last (accepted c rs))))"

lemma accepted_append:
  "accepted c (rs @ qs) = accepted c rs @ accepted (last_cursor_after c rs) qs"
  by (induction rs arbitrary: c) (auto simp: last_cursor_after_def Let_def)

lemma accepted_above: "(k, cp) \<in> set (accepted (Some c) rs) \<Longrightarrow> c < k"
proof (induction rs arbitrary: c)
  case (Cons r rs)
  then show ?case
    by (auto simp: Let_def not_le split: if_splits dest: less_trans)
qed simp

lemma accepted_increasing: "sorted_wrt (<) (map fst (accepted c rs))"
  by (induction rs arbitrary: c) (auto simp: Let_def accepted_above)

lemma process_stream_accepted:
  "snd (process_stream X B MS items (sv, m)) =
     (sv\<lparr>sv_last_cursor := last_cursor_after (sv_last_cursor sv) (until_error items)\<rparr>,
      fold (\<lambda>(k, cp). process_checkpoint X B MS (sv_groups_package_id sv) cp)
        (accepted (sv_last_cursor sv) (until_error items)) m)"
proof (induction X B MS items "(sv, m)" arbitrary: sv m rule: process_stream.induct)
  case (3 X B MS response items sv m)
  then show ?case
    by (cases "cr_checkpoint response"; cases "sv_last_cursor sv")
      (auto simp: Let_def last_cursor_after_def)
qed (simp_all add: last_cursor_after_def)

lemma run_sessions_accepted:
  "run_sessions X B MS subs (sv, m) =
     (sv\<lparr>sv_last_cursor := last_cursor_after (sv_last_cursor sv) (delivered subs)\<rparr>,
      fold (\<lambda>(k, cp). process_checkpoint X B MS (sv_groups_package_id sv) cp)
        (accepted (sv_last_cursor sv) (delivered subs)) m)"
proof (induction subs arbitrary: sv m)
  case Nil
  then show ?case by (simp add: delivered_def last_cursor_after_def)
next
  case (Cons sub subs)
  show ?case
  proof (cases sub)
    case (Inl e)
    with Cons show ?thesis by (simp add: run_subscription_def delivered_def)
  next
    case (Inr items)
    have d: "delivered (Inr items # subs) = until_error items @ delivered subs"
      by (simp add: delivered_def)
    have l: "last_cursor_after c (rs @ qs) = last_cursor_after (last_cursor_after c rs) qs" for c rs qs
      by (auto simp: last_cursor_after_def accepted_append)
    show ?thesis
      using Inr by (simp add: run_subscription_def process_stream_accepted Cons.IH d accepted_append l)
  qed
qed

text \<open>The whole history that a run of the service applied.\<close>

definition applied_events ::
  "'us externs \<Rightarrow> event_bcs \<Rightarrow> string
   \<Rightarrow> (string, (string, checkpoint_response) result list) result list \<Rightarrow> groups_event list" where
  "applied_events X B pkg subs =
     concat (map (\<lambda>(k, cp). checkpoint_events X B pkg cp) (accepted None (delivered subs)))"

lemma fold_concat_map: "fold f (concat (map g xs)) s = fold (\<lambda>x. fold f (g x)) xs s"
  by (induction xs arbitrary: s) simp_all

lemma run_sessions_applied:
  "snd (run_sessions X B MS subs (new_sync_service pkg, m)) =
     fold (apply_event MS) (applied_events X B pkg subs) m"
proof -
  have "(\<lambda>(k :: u64, cp). process_checkpoint X B MS pkg cp) =
      (\<lambda>x. fold (apply_event MS) (case x of (k, cp) \<Rightarrow> checkpoint_events X B pkg cp))"
    by (auto simp: process_checkpoint_fold fun_eq_iff)
  then show ?thesis
    by (simp add: run_sessions_accepted new_sync_service_def applied_events_def fold_concat_map)
qed

context membership_contract
begin

text \<open>A permission is held exactly when the applied history grants it.\<close>

lemma has_permission_history:
  assumes "table m = (\<lambda>_ _. None)"
  shows "ms_has_permission MS (snd (run_sessions X B MS subs (new_sync_service pkg, m))) g a p \<longleftrightarrow>
    granted_by g a p (applied_events X B pkg subs)"
  by (simp add: has_iff run_sessions_applied apply_events_table assms event_table_granted)

lemma member_history:
  assumes "table m = (\<lambda>_ _. None)"
  shows "ms_is_member MS (snd (run_sessions X B MS subs (new_sync_service pkg, m))) g a \<longleftrightarrow>
    (\<exists>p. granted_by g a p (applied_events X B pkg subs))"
  by (simp add: member_has_some has_permission_history [OF assms])

end

text \<open>Events of other packages have no effect.\<close>

lemma foreign_events_ignored:
  "process_events X B MS pkg events m =
     process_events X B MS pkg
       (filter (\<lambda>ev. \<exists>t. ev_type ev = Some t \<and> from_package pkg t) events) m"
proof (induction events arbitrary: m)
  case (Cons ev events)
  have "parse_sui_event X B ev pkg = None" if "\<not> (\<exists>t. ev_type ev = Some t \<and> from_package pkg t)"
    using that parse_sui_event_package [of X B ev pkg] by (cases "parse_sui_event X B ev pkg") blast+
  with Cons show ?case by (auto split: option.split)
qed simp

text \<open>Every group in which a permission is held is named by an id of the chain.\<close>

lemma applied_events_ids:
  "ge \<in> set (applied_events X B pkg subs) \<Longrightarrow> \<exists>g. ge_group ge = hex_id X g"
  by (auto simp: applied_events_def checkpoint_events_def map_filter_set dest: parse_sui_event_ids)

lemma held_group_id:
  assumes "granted_by g a p (applied_events X B pkg subs)"
  shows "\<exists>bs. g = hex_id X bs"
proof -
  from assms obtain xs where "PermissionsGranted g a xs \<in> set (applied_events X B pkg subs)"
    unfolding granted_by_def by (metis in_set_conv_decomp)
  from applied_events_ids [OF this] show ?thesis by simp
qed

section \<open>Properties\<close>

text \<open>
  C19. The permission the middleware asks for is decided by the chain's history alone: after any run of
  the service, over any number of subscriptions with any errors in between, an address holds a
  permission in a group exactly when, in the sequence of group events that were delivered and not
  skipped, some grant of it came while the address was a member and nothing has taken it away since.
\<close>
theorem permission_follows_history:
  "has_permission (snd (run_sessions X B (in_memory_membership io) subs
       (new_sync_service pkg, new_members))) g a p \<longleftrightarrow>
     granted_by g a p (applied_events X B pkg subs)"
  using mem.has_permission_history [of new_members io X B subs pkg g a p]
  by (simp add: in_memory_membership_def)

text \<open>
  C20. Each checkpoint is applied at most once and in order, across reconnections: whatever cursors the
  streams deliver, a run applies the checkpoints of a strictly increasing sequence of cursors, one
  after the other, and remembers the last of them.
\<close>
theorem checkpoints_applied_once:
  "run_sessions X B MS subs (new_sync_service pkg, m) =
     (\<lparr>sv_groups_package_id = pkg, sv_last_cursor = last_cursor_after None (delivered subs)\<rparr>,
      fold (\<lambda>(k, cp). process_checkpoint X B MS pkg cp) (accepted None (delivered subs)) m) \<and>
   sorted_wrt (<) (map fst (accepted None (delivered subs)))"
  by (simp add: run_sessions_accepted new_sync_service_def accepted_increasing)

end
