(* ===== verification/Walrus_Client.thy ===== *)
theory Walrus_Client
  imports Externals
begin

text \<open>
  \<open>src/relayer/src/walrus\<close>: the response types (\<open>types.rs\<close>) and the HTTP client of the Walrus publisher
  and aggregator (\<open>client.rs\<close>). Each operation sends at most one request; \<open>send\<close> is the outcome of
  sending it (\<open>reqwest\<close>), and the JSON codecs at the types involved are the record \<open>walrus_codec\<close>.
\<close>

section \<open>types.rs\<close>

datatype walrus_error =
    RequestFailed string
  | ApiError nat string  \<comment> \<open>status, message\<close>
  | ParseError string
  | BlobNotFound string

fun walrus_error_display :: "walrus_error \<Rightarrow> string" where
  "walrus_error_display (RequestFailed e) = ''HTTP request failed: '' @ e"
| "walrus_error_display (ApiError status msg) =
     ''Walrus API error: '' @ show_nat status @ '' - '' @ msg"
| "walrus_error_display (ParseError e) = ''Failed to parse response: '' @ e"
| "walrus_error_display (BlobNotFound b) = ''Blob not found: '' @ b"

type_synonym 'a walrus_result = "(walrus_error, 'a) result"

record blob_object =
  bo_blob_id :: string
  bo_id :: "string option"
  bo_size :: "u64 option"

record newly_created_blob =
  nc_blob_object :: blob_object
  nc_cost :: "u64 option"

record already_certified_blob =
  ac_blob_id :: string
  ac_end_epoch :: "u64 option"

record blob_store_response =
  bs_newly_created :: "newly_created_blob option"
  bs_already_certified :: "already_certified_blob option"

definition blob_id :: "blob_store_response \<Rightarrow> string option" where
  "blob_id r =
     (case bs_newly_created r of
        Some newly_created \<Rightarrow> Some (bo_blob_id (nc_blob_object newly_created))
      | None \<Rightarrow>
          (case bs_already_certified r of
             Some already_certified \<Rightarrow> Some (ac_blob_id already_certified)
           | None \<Rightarrow> None))"

record quilt_range =
  qr_start :: u64
  qr_end :: u64

record stored_quilt_patch =
  sp_identifier :: string
  sp_quilt_patch_id :: string
  sp_range :: "quilt_range option"

record quilt_store_response =
  qs_blob_store_result :: blob_store_response
  qs_stored_quilt_blobs :: "stored_quilt_patch list"

definition quilt_blob_id :: "quilt_store_response \<Rightarrow> string option" where
  "quilt_blob_id r = blob_id (qs_blob_store_result r)"

definition get_patch_id :: "quilt_store_response \<Rightarrow> string \<Rightarrow> string option" where
  "get_patch_id r identifier =
     map_option sp_quilt_patch_id
       (find (\<lambda>p. sp_identifier p = identifier) (qs_stored_quilt_blobs r))"

record patch_info =
  pi_identifier :: string
  pi_patch_id :: string
  pi_tags :: "string option"

record quilt_patch_metadata =
  qm_identifier :: string
  qm_tags :: "string \<rightharpoonup> string"

section \<open>HTTP\<close>

datatype form_part = FilePart string bytes | TextPart string

datatype call_body = NoBody | RawBody bytes | Multipart "(string \<times> form_part) list"

datatype call_method = CallGet | CallPut

record http_call =
  hc_method :: call_method
  hc_url :: string
  hc_body :: call_body

text \<open>\<open>ha_text\<close> and \<open>ha_bytes\<close>: reading the rest of the response may fail.\<close>

record http_answer =
  ha_status :: nat
  ha_text :: "(string, string) result"
  ha_bytes :: "(string, bytes) result"

type_synonym sender = "http_call \<Rightarrow> (string, http_answer) result"

record walrus_codec =
  wc_quilt :: "http_answer \<Rightarrow> (string, quilt_store_response) result"
  wc_blob :: "http_answer \<Rightarrow> (string, blob_store_response) result"
  wc_patches :: "http_answer \<Rightarrow> (string, patch_info list) result"
  wc_metadata :: "quilt_patch_metadata list \<Rightarrow> (string, string) result"

definition is_success :: "nat \<Rightarrow> bool" where
  "is_success status \<longleftrightarrow> 200 \<le> status \<and> status < 300"

section \<open>client.rs\<close>

record walrus_client =
  wl_publisher_url :: string
  wl_aggregator_url :: string

definition walrus_client_new :: "string \<Rightarrow> string \<Rightarrow> walrus_client" where
  "walrus_client_new publisher_url aggregator_url =
     \<lparr>wl_publisher_url = publisher_url, wl_aggregator_url = aggregator_url\<rparr>"

text \<open>The status check of every operation: the body of an error answer is its message.\<close>

definition require_success :: "http_answer \<Rightarrow> http_answer walrus_result" where
  "require_success response =
     (if \<not> is_success (ha_status response) then
        Inl (ApiError (ha_status response) (unwrap_or [] (ok (ha_text response))))
      else Inr response)"

definition store_quilt ::
  "walrus_codec \<Rightarrow> sender \<Rightarrow> walrus_client \<Rightarrow> (string \<times> bytes) list \<Rightarrow> quilt_patch_metadata list option
   \<Rightarrow> nat \<Rightarrow> quilt_store_response walrus_result" where
  "store_quilt W send client patches metadata epochs =
     (if patches = [] then Inl (ApiError 400 ''Cannot store quilt with zero patches'')
      else
        (let url = wl_publisher_url client @ ''/v1/quilts?epochs='' @ show_nat epochs;
             form = map (\<lambda>(identifier, data). (identifier, FilePart identifier data)) patches
         in bind_result
              (case metadata of
                 None \<Rightarrow> Inr form
               | Some meta \<Rightarrow>
                   bind_result (map_err ParseError (wc_metadata W meta))
                     (\<lambda>meta_json. Inr (form @ [(''_metadata'', TextPart meta_json)])))
              (\<lambda>form.
            bind_result (map_err RequestFailed
                (send \<lparr>hc_method = CallPut, hc_url = url, hc_body = Multipart form\<rparr>)) (\<lambda>response.
            bind_result (require_success response) (\<lambda>response.
              map_err ParseError (wc_quilt W response))))))"

definition store_blob ::
  "walrus_codec \<Rightarrow> sender \<Rightarrow> walrus_client \<Rightarrow> bytes \<Rightarrow> nat \<Rightarrow> blob_store_response walrus_result" where
  "store_blob W send client data epochs =
     (let url = wl_publisher_url client @ ''/v1/blobs?epochs='' @ show_nat epochs
      in bind_result (map_err RequestFailed
             (send \<lparr>hc_method = CallPut, hc_url = url, hc_body = RawBody data\<rparr>)) (\<lambda>response.
         bind_result (require_success response) (\<lambda>response.
           map_err ParseError (wc_blob W response))))"

text \<open>The reading operations answer 404 with an error of its own.\<close>

definition fetch :: "sender \<Rightarrow> string \<Rightarrow> string \<Rightarrow> http_answer walrus_result" where
  "fetch send url name =
     bind_result (map_err RequestFailed
         (send \<lparr>hc_method = CallGet, hc_url = url, hc_body = NoBody\<rparr>)) (\<lambda>response.
       if ha_status response = 404 then Inl (BlobNotFound name) else require_success response)"

definition read_by_patch_id :: "sender \<Rightarrow> walrus_client \<Rightarrow> string \<Rightarrow> bytes walrus_result" where
  "read_by_patch_id send client patch_id =
     (let url = wl_aggregator_url client @ ''/v1/blobs/by-quilt-patch-id/'' @ patch_id
      in bind_result (fetch send url patch_id) (\<lambda>response. map_err RequestFailed (ha_bytes response)))"

definition read_blob :: "sender \<Rightarrow> walrus_client \<Rightarrow> string \<Rightarrow> bytes walrus_result" where
  "read_blob send client bid =
     (let url = wl_aggregator_url client @ ''/v1/blobs/'' @ bid
      in bind_result (fetch send url bid) (\<lambda>response. map_err RequestFailed (ha_bytes response)))"

definition list_patches ::
  "walrus_codec \<Rightarrow> sender \<Rightarrow> walrus_client \<Rightarrow> string \<Rightarrow> patch_info list walrus_result" where
  "list_patches W send client bid =
     (let url = wl_aggregator_url client @ ''/v1/quilts/'' @ bid @ ''/patches''
      in bind_result (fetch send url bid) (\<lambda>response. map_err ParseError (wc_patches W response)))"

section \<open>Facts\<close>

lemma find_Some_split:
  "find P xs = Some q \<longleftrightarrow> (\<exists>us vs. xs = us @ q # vs \<and> P q \<and> (\<forall>u\<in>set us. \<not> P u))"
proof
  assume "find P xs = Some q"
  then show "\<exists>us vs. xs = us @ q # vs \<and> P q \<and> (\<forall>u\<in>set us. \<not> P u)"
  proof (induction xs)
    case (Cons x xs)
    show ?case
    proof (cases "P x")
      case True
      with Cons.prems show ?thesis by (intro exI [of _ "[]"] exI [of _ xs]) simp
    next
      case False
      with Cons obtain us vs where "xs = us @ q # vs" "P q" "\<forall>u\<in>set us. \<not> P u" by auto
      with False show ?thesis by (intro exI [of _ "x # us"] exI [of _ vs]) simp
    qed
  qed simp
next
  assume "\<exists>us vs. xs = us @ q # vs \<and> P q \<and> (\<forall>u\<in>set us. \<not> P u)"
  then obtain us vs where "xs = us @ q # vs" "P q" "\<forall>u\<in>set us. \<not> P u" by blast
  then show "find P xs = Some q" by (induction us arbitrary: xs) auto
qed

lemma get_patch_id_Some_iff:
  "get_patch_id r i = Some p \<longleftrightarrow>
     (\<exists>us q vs. qs_stored_quilt_blobs r = us @ q # vs \<and> sp_identifier q = i \<and>
        sp_quilt_patch_id q = p \<and> (\<forall>u\<in>set us. sp_identifier u \<noteq> i))"
  by (auto simp: get_patch_id_def find_Some_split)

lemma get_patch_id_None_iff:
  "get_patch_id r i = None \<longleftrightarrow> (\<forall>p\<in>set (qs_stored_quilt_blobs r). sp_identifier p \<noteq> i)"
  by (auto simp: get_patch_id_def find_None_iff)

lemma require_success_Inr_iff:
  "require_success a = Inr b \<longleftrightarrow> b = a \<and> is_success (ha_status a)"
  by (auto simp: require_success_def)

lemma store_quilt_Inr_iff:
  "store_quilt W send client patches (Some meta) epochs = Inr r \<longleftrightarrow>
     patches \<noteq> [] \<and>
     (\<exists>meta_json answer. wc_metadata W meta = Inr meta_json \<and>
        send \<lparr>hc_method = CallPut, hc_url = wl_publisher_url client @ ''/v1/quilts?epochs='' @ show_nat epochs,
              hc_body = Multipart (map (\<lambda>(i, d). (i, FilePart i d)) patches
                @ [(''_metadata'', TextPart meta_json)])\<rparr> = Inr answer \<and>
        is_success (ha_status answer) \<and> wc_quilt W answer = Inr r)"
  by (auto simp: store_quilt_def Let_def bind_result_Inr_iff require_success_Inr_iff)

lemma fetch_Inr_iff:
  "fetch send url name = Inr a \<longleftrightarrow>
     send \<lparr>hc_method = CallGet, hc_url = url, hc_body = NoBody\<rparr> = Inr a \<and> is_success (ha_status a)"
proof -
  have "is_success (ha_status x) \<Longrightarrow> ha_status x \<noteq> 404" for x :: http_answer
    by (auto simp: is_success_def)
  then show ?thesis
    by (auto simp: fetch_def bind_result_Inr_iff require_success_Inr_iff)
qed

section \<open>Properties\<close>

text \<open>
  C32. A quilt counts as stored only when it was: \<open>store_quilt\<close> succeeds exactly when there is at least one
  patch, the metadata serializes, one PUT to the publisher with every patch under its identifier in
  order and the metadata as the last form part was answered with a 2xx status, and that answer parses
  to the returned response. Without patches nothing is sent.
\<close>
theorem quilt_stored_iff:
  "(store_quilt W send client patches (Some meta) epochs = Inr r \<longleftrightarrow>
     patches \<noteq> [] \<and>
     (\<exists>meta_json answer. wc_metadata W meta = Inr meta_json \<and>
        send \<lparr>hc_method = CallPut, hc_url = wl_publisher_url client @ ''/v1/quilts?epochs='' @ show_nat epochs,
              hc_body = Multipart (map (\<lambda>(i, d). (i, FilePart i d)) patches
                @ [(''_metadata'', TextPart meta_json)])\<rparr> = Inr answer \<and>
        200 \<le> ha_status answer \<and> ha_status answer < 300 \<and> wc_quilt W answer = Inr r)) \<and>
   store_quilt W send client [] (Some meta) epochs =
     Inl (ApiError 400 ''Cannot store quilt with zero patches'')"
  using store_quilt_Inr_iff [of W send client patches meta epochs r]
  by (auto simp: is_success_def store_quilt_def)

end
