(* ===== verification/Walrus_Sync.thy ===== *)
theory Walrus_Sync
  imports Storage_Adapter Walrus_Client Config
begin

text \<open>
  \<open>src/relayer/src/services/walrus_sync.rs\<close>: the background worker that uploads messages to Walrus.
  Each of its three workflows reads a batch of messages from the storage, uploads it as one quilt, and
  then writes the new status of each message: three phases, with other requests possibly in between.
  The serializer of messages (\<open>serde_json\<close>), the HTTP send and the clock are arguments.
\<close>

definition MSG_PREFIX :: string where "MSG_PREFIX = ''msg-''"
definition SOURCE_TAG :: string where "SOURCE_TAG = ''sui-messaging-relayer''"

record walrus_sync_service =
  ws_walrus_client :: walrus_client
  ws_sync_interval_secs :: nat
  ws_batch_size :: nat
  ws_storage_epochs :: nat
  ws_message_threshold :: nat

definition walrus_sync_service_new :: "config \<Rightarrow> walrus_client \<Rightarrow> walrus_sync_service" where
  "walrus_sync_service_new config client =
     \<lparr> ws_walrus_client = client,
       ws_sync_interval_secs = cf_walrus_sync_interval_secs config,
       ws_batch_size = min (cf_walrus_sync_batch_size config) 666,
       ws_storage_epochs = cf_walrus_storage_epochs config,
       ws_message_threshold = cf_walrus_sync_message_threshold config \<rparr>"

datatype sync_error = SyncStorage storage_error | SyncWalrus walrus_error

text \<open>One workflow's contact with the outside: its upload, and the clock at each status update.\<close>

record workflow_io =
  wi_send :: sender
  wi_clock :: "uuid \<Rightarrow> datetime"

section \<open>One workflow\<close>

definition patch_identifier :: "'us externs \<Rightarrow> uuid \<Rightarrow> string" where
  "patch_identifier X mid = MSG_PREFIX @ x_uuid_display X mid"

definition patch_tags :: "sync_status \<Rightarrow> message \<Rightarrow> (string \<rightharpoonup> string)" where
  "patch_tags to_status msg =
     [''source'' \<mapsto> SOURCE_TAG,
      ''group_id'' \<mapsto> msg_group_id msg,
      ''sender'' \<mapsto> msg_sender_wallet_addr msg,
      ''sync_status'' \<mapsto> sync_status_display to_status,
      ''order'' \<mapsto> unwrap_or [] (map_option show_i64 (msg_order msg))]"

fun build_patches ::
  "'us externs \<Rightarrow> (message \<Rightarrow> (string, bytes) result) \<Rightarrow> sync_status \<Rightarrow> message list
   \<Rightarrow> (string \<times> bytes) list \<times> quilt_patch_metadata list" where
  "build_patches X ser to_status [] = ([], [])"
| "build_patches X ser to_status (msg # msgs) =
     (let identifier = patch_identifier X (msg_id msg);
          msg_for_walrus = msg\<lparr>msg_sync_status := to_status\<rparr>;
          (patches, metadata) = build_patches X ser to_status msgs
      in case ser msg_for_walrus of
           Inr data \<Rightarrow>
             ((identifier, data) # patches,
              \<lparr>qm_identifier = identifier, qm_tags = patch_tags to_status msg\<rparr> # metadata)
         | Inl _ \<Rightarrow> (patches, metadata))"

definition sync_upload ::
  "'us externs \<Rightarrow> (message \<Rightarrow> (string, bytes) result) \<Rightarrow> walrus_codec \<Rightarrow> walrus_sync_service \<Rightarrow> sender
   \<Rightarrow> sync_status \<Rightarrow> message list \<Rightarrow> (sync_error, quilt_store_response option) result" where
  "sync_upload X ser W sv send to_status messages =
     (case build_patches X ser to_status messages of
        (patches, metadata) \<Rightarrow>
          if patches = [] then Inr None
          else
            bind_result (map_err SyncWalrus
                (store_quilt W send (ws_walrus_client sv) patches (Some metadata) (ws_storage_epochs sv)))
              (\<lambda>response. Inr (Some response)))"

text \<open>Step 4; an error of the storage is logged and the loop goes on.\<close>

fun update_statuses ::
  "'us externs \<Rightarrow> 's storage_adapter \<Rightarrow> (uuid \<Rightarrow> datetime) \<Rightarrow> quilt_store_response \<Rightarrow> sync_status
   \<Rightarrow> message list \<Rightarrow> 's \<Rightarrow> 's" where
  "update_statuses X SA clock response to_status [] s = s"
| "update_statuses X SA clock response to_status (msg # msgs) s =
     (case get_patch_id response (patch_identifier X (msg_id msg)) of
        Some patch_id \<Rightarrow>
          update_statuses X SA clock response to_status msgs
            (snd (sa_update_sync_status SA (clock (msg_id msg)) (msg_id msg) to_status (Some patch_id) s))
      | None \<Rightarrow> update_statuses X SA clock response to_status msgs s)"

definition sync_messages ::
  "'us externs \<Rightarrow> 's storage_adapter \<Rightarrow> (message \<Rightarrow> (string, bytes) result) \<Rightarrow> walrus_codec
   \<Rightarrow> walrus_sync_service \<Rightarrow> workflow_io \<Rightarrow> sync_status \<Rightarrow> sync_status \<Rightarrow> 's
   \<Rightarrow> (sync_error, unit) result \<times> 's" where
  "sync_messages X SA ser W sv io from_status to_status s =
     (case map_err SyncStorage (sa_get_messages_by_sync_status SA from_status (ws_batch_size sv) s) of
        Inl e \<Rightarrow> (Inl e, s)
      | Inr messages \<Rightarrow>
          if messages = [] then (Inr (), s)
          else
            (case sync_upload X ser W sv (wi_send io) to_status messages of
               Inl e \<Rightarrow> (Inl e, s)
             | Inr None \<Rightarrow> (Inr (), s)
             | Inr (Some response) \<Rightarrow>
                 (Inr (), update_statuses X SA (wi_clock io) response to_status messages s)))"

definition sync_pending_messages where
  "sync_pending_messages X SA ser W sv io s = sync_messages X SA ser W sv io SyncPending Synced s"

definition sync_updated_messages where
  "sync_updated_messages X SA ser W sv io s = sync_messages X SA ser W sv io UpdatePending Updated s"

definition sync_deleted_messages where
  "sync_deleted_messages X SA ser W sv io s = sync_messages X SA ser W sv io DeletePending Deleted s"

text \<open>One cycle of the worker: an error of a workflow is logged and the next one runs.\<close>

definition sync_cycle ::
  "'us externs \<Rightarrow> 's storage_adapter \<Rightarrow> (message \<Rightarrow> (string, bytes) result) \<Rightarrow> walrus_codec
   \<Rightarrow> walrus_sync_service \<Rightarrow> workflow_io \<times> workflow_io \<times> workflow_io \<Rightarrow> 's \<Rightarrow> 's" where
  "sync_cycle X SA ser W sv ios s =
     (case ios of (io1, io2, io3) \<Rightarrow>
        (let s1 = snd (sync_pending_messages X SA ser W sv io1 s);
             s2 = snd (sync_updated_messages X SA ser W sv io2 s1)
         in snd (sync_deleted_messages X SA ser W sv io3 s2)))"

section \<open>The loop of the worker\<close>

datatype worker_event = TimerTick | Notification | ChannelClosed
datatype worker_action = KeepWaiting nat | RunCycle | Stop

text \<open>One turn of the \<open>select!\<close>: what the event does to the counter, and whether a cycle runs.\<close>

definition worker_turn :: "nat \<Rightarrow> nat \<Rightarrow> worker_event \<Rightarrow> worker_action" where
  "worker_turn message_threshold message_count event =
     (case event of
        TimerTick \<Rightarrow> RunCycle
      | Notification \<Rightarrow>
          (let message_count = message_count + 1
           in if message_threshold = 0 \<or> message_count < message_threshold
              then KeepWaiting message_count else RunCycle)
      | ChannelClosed \<Rightarrow> Stop)"

text \<open>
  The loop over the events that occur, each with the contacts of the cycle it may start. The state is
  the message counter and the storage; a closed channel ends the loop.
\<close>

fun worker_run ::
  "'us externs \<Rightarrow> 's storage_adapter \<Rightarrow> (message \<Rightarrow> (string, bytes) result) \<Rightarrow> walrus_codec
   \<Rightarrow> walrus_sync_service \<Rightarrow> (worker_event \<times> workflow_io \<times> workflow_io \<times> workflow_io) list
   \<Rightarrow> nat \<times> 's \<Rightarrow> nat \<times> 's" where
  "worker_run X SA ser W sv [] (message_count, s) = (message_count, s)"
| "worker_run X SA ser W sv ((event, ios) # rest) (message_count, s) =
     (case worker_turn (ws_message_threshold sv) message_count event of
        KeepWaiting n \<Rightarrow> worker_run X SA ser W sv rest (n, s)
      | RunCycle \<Rightarrow> worker_run X SA ser W sv rest (0, sync_cycle X SA ser W sv ios s)
      | Stop \<Rightarrow> (message_count, s))"

text \<open>
  \<open>run\<close> from its start: \<open>tokio::time::interval\<close> panics on a zero period (\<open>None\<close>), before the loop. The
  worker is a spawned task, but the release profile is built with \<open>panic = "abort"\<close>, so this panic ends
  the whole process.
\<close>

definition walrus_run ::
  "'us externs \<Rightarrow> 's storage_adapter \<Rightarrow> (message \<Rightarrow> (string, bytes) result) \<Rightarrow> walrus_codec
   \<Rightarrow> walrus_sync_service \<Rightarrow> (worker_event \<times> workflow_io \<times> workflow_io \<times> workflow_io) list
   \<Rightarrow> 's \<Rightarrow> (nat \<times> 's) option" where
  "walrus_run X SA ser W sv events s =
     (if ws_sync_interval_secs sv = 0 then None else Some (worker_run X SA ser W sv events (0, s)))"

text \<open>How many cycles a sequence of events starts.\<close>

fun cycles_started :: "nat \<Rightarrow> nat \<Rightarrow> worker_event list \<Rightarrow> nat" where
  "cycles_started t n [] = 0"
| "cycles_started t n (e # es) =
     (case worker_turn t n e of
        KeepWaiting k \<Rightarrow> cycles_started t k es
      | RunCycle \<Rightarrow> Suc (cycles_started t 0 es)
      | Stop \<Rightarrow> 0)"

lemma cycles_started_notifications:
  "n < t \<or> t = 0 \<Longrightarrow> cycles_started t n (replicate k Notification) = (n + k) div t"
proof (induction k arbitrary: n)
  case 0
  then show ?case by auto
next
  case (Suc k)
  show ?case
  proof (cases "t = 0 \<or> n + 1 < t")
    case True
    with Suc.IH [of "Suc n"] show ?thesis by (auto simp: worker_turn_def)
  next
    case False
    with Suc.prems have "n + Suc k = t + k" "0 < t" by auto
    moreover have "(t + k) div t = Suc (k div t)" if "0 < t" using that by (simp add: div_add_self1)
    moreover have "cycles_started t n (replicate (Suc k) Notification) = Suc (k div t)"
      using Suc.IH [of 0] False by (simp add: worker_turn_def)
    ultimately show ?thesis by (simp only:)
  qed
qed

text \<open>
  Notifications alone: every \<open>t\<close>-th of them runs a cycle, with the contacts that come with it, and the
  counter keeps the remainder.
\<close>

lemma worker_run_waits:
  "n + length ioss < ws_message_threshold sv \<or> ws_message_threshold sv = 0 \<Longrightarrow>
     worker_run X SA ser W sv (map (Pair Notification) ioss @ rest) (n, s) =
       worker_run X SA ser W sv rest (n + length ioss, s)"
  by (induction ioss arbitrary: n) (auto simp: worker_turn_def)

lemma worker_run_fills:
  "ioss \<noteq> [] \<Longrightarrow> n + length ioss = ws_message_threshold sv \<Longrightarrow>
     worker_run X SA ser W sv (map (Pair Notification) ioss @ rest) (n, s) =
       worker_run X SA ser W sv rest (0, sync_cycle X SA ser W sv (last ioss) s)"
proof (induction ioss arbitrary: n)
  case (Cons ios ioss)
  show ?case
  proof (cases ioss)
    case (Cons ios' ioss')
    with Cons.prems(2) have "Suc n < ws_message_threshold sv" by simp
    moreover have "ioss \<noteq> []" using Cons by simp
    moreover note Cons.IH [OF this, of "Suc n"] Cons.prems(2)
    ultimately show ?thesis by (simp add: worker_turn_def)
  qed (use Cons.prems in \<open>simp add: worker_turn_def\<close>)
qed simp

lemma worker_run_notifications:
  assumes t: "ws_message_threshold sv = t" "0 < t"
  shows "worker_run X SA ser W sv (map (Pair Notification) ioss) (0, s) =
    (length ioss mod t,
     fold (sync_cycle X SA ser W sv) (map (\<lambda>j. ioss ! (j * t + t - 1)) [0..<length ioss div t]) s)"
proof (induction "length ioss" arbitrary: ioss s rule: less_induct)
  case less
  show ?case
  proof (cases "length ioss < t")
    case True
    with worker_run_waits [of 0 ioss sv X SA ser W "[]" s] t show ?thesis by simp
  next
    case False
    let ?first = "take t ioss" and ?rest = "drop t ioss"
    let ?q = "length ?rest div t"
    have len: "length ioss = t + length ?rest" using False by simp
    have div: "length ioss div t = Suc ?q" unfolding len using t by (simp add: div_add_self1)
    have modulo: "length ioss mod t = length ?rest mod t" unfolding len by simp
    have "last ?first = ioss ! (t - 1)"
      using False t by (subst last_conv_nth) (auto simp: min_def)
    moreover have "?first \<noteq> []" "0 + length ?first = t" using False t by auto
    ultimately have "worker_run X SA ser W sv (map (Pair Notification) ioss) (0, s) =
        worker_run X SA ser W sv (map (Pair Notification) ?rest) (0, sync_cycle X SA ser W sv (ioss ! (t - 1)) s)"
      using worker_run_fills [of ?first 0 sv X SA ser W "map (Pair Notification) ?rest" s] t(1)
      by (simp flip: map_append)
    also have "\<dots> = (length ?rest mod t, fold (sync_cycle X SA ser W sv)
        (map (\<lambda>j. ?rest ! (j * t + t - 1)) [0..<?q]) (sync_cycle X SA ser W sv (ioss ! (t - 1)) s))"
      using t False by (intro less) simp
    also have "map (\<lambda>j. ?rest ! (j * t + t - 1)) [0..<?q] = map (\<lambda>j. ioss ! (j * t + t - 1)) [1..<Suc ?q]"
      using False t by (simp add: map_Suc_upt [symmetric] comp_def add.commute add.left_commute add.assoc
          del: map_Suc_upt upt_Suc)
    finally show ?thesis
      unfolding div modulo using t by (simp add: upt_conv_Cons del: upt_Suc)
  qed
qed

section \<open>The patches of a batch\<close>

lemma build_patches_set:
  "set (fst (build_patches X ser st msgs)) =
     {(patch_identifier X (msg_id m), d) |m d. m \<in> set msgs \<and> ser (m\<lparr>msg_sync_status := st\<rparr>) = Inr d}"
  by (induction msgs) (auto simp: Let_def split: prod.splits sum.splits)

lemma build_patches_length: "length (fst (build_patches X ser st msgs)) \<le> length msgs"
  by (induction msgs) (auto simp: Let_def split: prod.splits sum.splits)

lemma build_patches_metadata:
  "map qm_identifier (snd (build_patches X ser st msgs)) = map fst (fst (build_patches X ser st msgs))"
  by (induction msgs) (auto simp: Let_def split: prod.splits sum.splits)

lemma sync_upload_Inr_iff:
  "sync_upload X ser W sv send st msgs = Inr (Some r) \<longleftrightarrow>
     store_quilt W send (ws_walrus_client sv) (fst (build_patches X ser st msgs))
       (Some (snd (build_patches X ser st msgs))) (ws_storage_epochs sv) = Inr r"
  by (cases "build_patches X ser st msgs")
    (auto simp: sync_upload_def bind_result_Inr_iff store_quilt_def)

section \<open>What the worker does to any storage that meets the contract\<close>

text \<open>The new patch of a message of the batch.\<close>

definition patch_of :: "'us externs \<Rightarrow> quilt_store_response \<Rightarrow> message list \<Rightarrow> uuid \<Rightarrow> string option" where
  "patch_of X response msgs mid =
     (if mid \<in> msg_id ` set msgs then get_patch_id response (patch_identifier X mid) else None)"

definition synced_table ::
  "'us externs \<Rightarrow> (uuid \<Rightarrow> datetime) \<Rightarrow> quilt_store_response \<Rightarrow> sync_status \<Rightarrow> message list
   \<Rightarrow> message_table \<Rightarrow> message_table" where
  "synced_table X clock response st msgs t =
     (\<lambda>mid. case patch_of X response msgs mid of
              None \<Rightarrow> t mid
            | Some p \<Rightarrow> map_option (set_sync_status (clock mid) st (Some p)) (t mid))"

lemma set_sync_status_twice [simp]:
  "set_sync_status now st (Some p) (set_sync_status now st (Some p) m) = set_sync_status now st (Some p) m"
  by (simp add: set_sync_status_def)

lemma synced_table_keeps: "keeps_identities t (synced_table X clock response st msgs t)"
  by (auto simp: keeps_identities_def synced_table_def split: option.split)

context storage_contract
begin

lemma sync_one:
  assumes "inv s"
  shows "table (snd (sa_update_sync_status SA now mid st q s)) =
    (table s)(mid := map_option (set_sync_status now st q) (table s mid))"
proof (cases "table s mid")
  case None
  with sync_missing [OF assms] show ?thesis by (auto simp: fun_eq_iff)
next
  case (Some m)
  with sync_ok [OF assms] show ?thesis by simp
qed

lemma update_statuses_table:
  "inv s \<Longrightarrow> inv (update_statuses X SA clock response st msgs s) \<and>
     table (update_statuses X SA clock response st msgs s) =
       synced_table X clock response st msgs (table s)"
proof (induction msgs arbitrary: s)
  case Nil
  then show ?case by (simp add: synced_table_def patch_of_def)
next
  case (Cons m msgs)
  show ?case
  proof (cases "get_patch_id response (patch_identifier X (msg_id m))")
    case None
    with Cons show ?thesis by (auto simp: synced_table_def patch_of_def fun_eq_iff)
  next
    case (Some p)
    let ?s = "snd (sa_update_sync_status SA (clock (msg_id m)) (msg_id m) st (Some p) s)"
    have "inv ?s" by (rule sync_inv [OF Cons.prems])
    from Cons.IH [OF this] Some show ?thesis
      by (auto simp: sync_one [OF Cons.prems] synced_table_def patch_of_def fun_eq_iff
          option.map_comp comp_def split: option.split)
  qed
qed

text \<open>A workflow either leaves the storage alone or moves the batch it read.\<close>

lemma sync_messages_cases:
  assumes s: "inv s"
  obtains (unchanged) "snd (sync_messages X SA ser W sv io st st' s) = s"
    | (synced) found r where
      "sa_get_messages_by_sync_status SA st (ws_batch_size sv) s = Inr found"
      and "sync_upload X ser W sv (wi_send io) st' found = Inr (Some r)"
      and "sync_messages X SA ser W sv io st st' s =
        (Inr (), update_statuses X SA (wi_clock io) r st' found s)"
proof -
  obtain found where f: "sa_get_messages_by_sync_status SA st (ws_batch_size sv) s = Inr found"
    using by_status [OF s] by blast
  show thesis
  proof (cases "found = []")
    case True
    then show thesis using f unchanged by (simp add: sync_messages_def)
  next
    case False
    show thesis
    proof (cases "sync_upload X ser W sv (wi_send io) st' found")
      case (Inl e)
      then show thesis using f False unchanged by (simp add: sync_messages_def)
    next
      case (Inr r)
      then show thesis using f False synced unchanged
        by (cases r) (simp_all add: sync_messages_def)
    qed
  qed
qed

lemma sync_messages_inv:
  assumes "inv s"
  shows "inv (snd (sync_messages X SA ser W sv io st st' s)) \<and>
    keeps_identities (table s) (table (snd (sync_messages X SA ser W sv io st st' s)))"
  using assms
  by (cases rule: sync_messages_cases [OF assms, of X ser W sv io st st'])
    (simp_all add: update_statuses_table synced_table_keeps)

lemma sync_cycle_inv:
  assumes "inv s"
  shows "inv (sync_cycle X SA ser W sv ios s) \<and>
    keeps_identities (table s) (table (sync_cycle X SA ser W sv ios s))"
proof -
  obtain io1 io2 io3 where ios: "ios = (io1, io2, io3)" by (cases ios)
  note one = sync_messages_inv [of s X ser W sv io1 SyncPending Synced, OF assms]
  note two = sync_messages_inv [OF conjunct1 [OF one], of X ser W sv io2 UpdatePending Updated]
  note three = sync_messages_inv [OF conjunct1 [OF two], of X ser W sv io3 DeletePending Deleted]
  show ?thesis
    using one two three keeps_identities_trans
    unfolding sync_cycle_def ios sync_pending_messages_def sync_updated_messages_def
      sync_deleted_messages_def
    by (simp add: Let_def) blast
qed

lemma worker_run_inv:
  "inv s \<Longrightarrow> inv (snd (worker_run X SA ser W sv evs (n, s))) \<and>
     keeps_identities (table s) (table (snd (worker_run X SA ser W sv evs (n, s))))"
proof (induction evs arbitrary: n s)
  case Nil
  then show ?case by simp
next
  case (Cons ev evs)
  obtain e ios where ev: "ev = (e, ios)" by (cases ev)
  show ?case
  proof (cases "worker_turn (ws_message_threshold sv) n e")
    case RunCycle
    note cycle = sync_cycle_inv [OF Cons.prems, of X ser W sv ios]
    note rest = Cons.IH [OF conjunct1 [OF cycle], of 0]
    from RunCycle rest cycle keeps_identities_trans show ?thesis by (simp add: ev) blast
  qed (use Cons ev in simp_all)
qed

text \<open>A message that waits for no upload is read by no workflow: nothing the worker does changes it.\<close>

lemma sync_messages_settled:
  assumes s: "inv s" and m: "table s i = Some m" and st: "msg_sync_status m \<noteq> st"
  shows "table (snd (sync_messages X SA ser W sv io st st' s)) i = Some m"
proof (cases rule: sync_messages_cases [OF s, of X ser W sv io st st'])
  case (2 found r)
  have "i \<notin> msg_id ` set found"
  proof
    assume "i \<in> msg_id ` set found"
    then obtain x where x: "x \<in> set found" "msg_id x = i" by blast
    with by_status [OF s, of st "ws_batch_size sv"] 2(1)
    have "x \<in> ran (table s)" "msg_sync_status x = st" by (auto dest: in_set_takeD)
    moreover from this(1) x(2) m have "x = m" using keyed [OF s] by (auto simp: ran_def)
    ultimately show False using st by simp
  qed
  with 2(3) m show ?thesis
    by (simp add: update_statuses_table [OF s] synced_table_def patch_of_def)
qed (simp add: m)

lemma sync_cycle_settled:
  assumes "inv s" and "table s i = Some m"
    and "msg_sync_status m \<notin> {SyncPending, UpdatePending, DeletePending}"
  shows "table (sync_cycle X SA ser W sv ios s) i = Some m"
proof -
  obtain io1 io2 io3 where ios: "ios = (io1, io2, io3)" by (cases ios)
  from assms show ?thesis
    by (simp add: sync_cycle_def ios Let_def sync_messages_settled sync_messages_inv
        sync_pending_messages_def sync_updated_messages_def sync_deleted_messages_def)
qed

lemma worker_run_settled:
  "inv s \<Longrightarrow> table s i = Some m \<Longrightarrow> msg_sync_status m \<notin> {SyncPending, UpdatePending, DeletePending} \<Longrightarrow>
     table (snd (worker_run X SA ser W sv evs (n, s))) i = Some m"
proof (induction evs arbitrary: n s)
  case (Cons ev evs)
  obtain e ios where "ev = (e, ios)" by (cases ev)
  with Cons sync_cycle_inv [of s X ser W sv ios] sync_cycle_settled [of s i m X ser W sv ios]
  show ?case by (cases "worker_turn (ws_message_threshold sv) n e") simp_all
qed simp

end

end
