(* ===== verification/System.thy ===== *)
theory System
  imports Server Memory_Storage Membership_Sync Walrus_Sync
begin

text \<open>
  The running relayer: any number of requests, the membership service and the Walrus worker, sharing
  one storage and one membership store. Between two lock acquisitions anything else may run, so the
  unit of a step is what one lock protects: the order counter, the insertion, one update, one
  deletion, one status write. What a request or a workflow has still to do is a task in flight.
\<close>

section \<open>State\<close>

text \<open>
  \<open>CreateOrder\<close> and \<open>CreateInsert\<close> are the two halves of \<open>mem_create_message\<close>; \<open>UpdateCommit\<close> and
  \<open>DeleteCommit\<close> are handlers past their checks; \<open>StatusWrites\<close> is a workflow after its upload.
\<close>

datatype task =
    CreateOrder message
  | CreateInsert message
  | UpdateCommit auth_context update_message_request content
  | DeleteCommit auth_context uuid
  | StatusWrites sync_status quilt_store_response "message list"

record system =
  sy_storage :: mem_storage
  sy_members :: mem_members
  sy_tasks :: "nat \<rightharpoonup> task"

text \<open>What does not change while the server runs.\<close>

record 'us deployment =
  su_externs :: "'us externs"
  su_extractors :: extractors
  su_order_of :: "mem_storage \<Rightarrow> uuid list"
  su_iter_order :: "messaging_permission list"
  su_serializer :: "message \<Rightarrow> (string, bytes) result"
  su_walrus_codec :: walrus_codec
  su_worker :: walrus_sync_service
  su_ttl :: i64

definition initial_system :: system where
  "initial_system = \<lparr>sy_storage = new_storage, sy_members = new_members, sy_tasks = Map.empty\<rparr>"

definition set_task :: "nat \<Rightarrow> task option \<Rightarrow> system \<Rightarrow> system" where
  "set_task i t sy = sy\<lparr>sy_tasks := (sy_tasks sy)(i := t)\<rparr>"

definition accepts ::
  "'us deployment \<Rightarrow> system \<Rightarrow> i64 \<Rightarrow> route http_request \<Rightarrow> route http_request \<Rightarrow> auth_context \<Rightarrow> bool" where
  "accepts P sy now request request' ctx \<longleftrightarrow>
     request_accepted (su_externs P) (su_extractors P) (in_memory_membership (su_iter_order P))
       (sy_members sy) (su_ttl P) now request request' ctx"

section \<open>Steps\<close>

inductive system_step :: "'us deployment \<Rightarrow> system \<Rightarrow> system \<Rightarrow> bool" for P :: "'us deployment" where
  post_accepted:
    "sy_tasks sy i = None \<Longrightarrow> accepts P sy now request request' ctx \<Longrightarrow> rq_method request = POST \<Longrightarrow>
     ex_create (su_extractors P) (rq_headers request') (unwrap_or [] (rq_body request')) = Inr req \<Longrightarrow>
     create_prepare (su_externs P) env ctx req = Inr m \<Longrightarrow>
     system_step P sy (set_task i (Some (CreateOrder m)) sy)"
| post_order:
    "sy_tasks sy i = Some (CreateOrder m) \<Longrightarrow>
     next_order (msg_group_id m) (sy_storage sy) = (Inr k, s) \<Longrightarrow>
     system_step P sy (set_task i (Some (CreateInsert (set_order k m))) (sy\<lparr>sy_storage := s\<rparr>))"
| post_insert:
    "sy_tasks sy i = Some (CreateInsert m) \<Longrightarrow>
     system_step P sy (set_task i None
       (sy\<lparr>sy_storage := snd (create_insert m (sy_storage sy))\<rparr>))"
| put_accepted:
    "sy_tasks sy i = None \<Longrightarrow> accepts P sy now request request' ctx \<Longrightarrow> rq_method request = PUT \<Longrightarrow>
     ex_update (su_extractors P) (rq_headers request') (unwrap_or [] (rq_body request')) = Inr req \<Longrightarrow>
     update_check (su_externs P) (in_memory_storage (su_order_of P)) ctx req (sy_storage sy) = Inr c \<Longrightarrow>
     system_step P sy (set_task i (Some (UpdateCommit ctx req c)) sy)"
| put_commit:
    "sy_tasks sy i = Some (UpdateCommit ctx req c) \<Longrightarrow>
     system_step P sy (set_task i None (sy\<lparr>sy_storage :=
       snd (update_commit (su_externs P) (in_memory_storage (su_order_of P)) now req c (sy_storage sy))\<rparr>))"
| delete_accepted:
    "sy_tasks sy i = None \<Longrightarrow> accepts P sy now request request' ctx \<Longrightarrow> rq_method request = DELETE \<Longrightarrow>
     delete_check (su_externs P) (in_memory_storage (su_order_of P)) ctx mid (sy_storage sy) = Inr () \<Longrightarrow>
     system_step P sy (set_task i (Some (DeleteCommit ctx mid)) sy)"
| delete_commit:
    "sy_tasks sy i = Some (DeleteCommit ctx mid) \<Longrightarrow>
     system_step P sy (set_task i None
       (sy\<lparr>sy_storage := snd (mem_delete_message now mid (sy_storage sy))\<rparr>))"
| sync_uploaded:
    "sy_tasks sy i = None \<Longrightarrow>
     mem_get_messages_by_sync_status (su_order_of P) st (ws_batch_size (su_worker P)) (sy_storage sy)
       = Inr found \<Longrightarrow>
     (st, st') \<in> {(SyncPending, Synced), (UpdatePending, Updated), (DeletePending, Deleted)} \<Longrightarrow>
     sync_upload (su_externs P) (su_serializer P) (su_walrus_codec P) (su_worker P) send st' found
       = Inr (Some response) \<Longrightarrow>
     system_step P sy (set_task i (Some (StatusWrites st' response found)) sy)"
| sync_write:
    "sy_tasks sy i = Some (StatusWrites st response (msg # msgs)) \<Longrightarrow>
     system_step P sy (set_task i (Some (StatusWrites st response msgs))
       (sy\<lparr>sy_storage := update_statuses (su_externs P) (in_memory_storage (su_order_of P)) clock response
          st [msg] (sy_storage sy)\<rparr>))"
| sync_done:
    "sy_tasks sy i = Some (StatusWrites st response []) \<Longrightarrow> system_step P sy (set_task i None sy)"
| membership_event:
    "system_step P sy (sy\<lparr>sy_members :=
       apply_event (in_memory_membership (su_iter_order P)) event (sy_members sy)\<rparr>)"

inductive_cases system_stepE: "system_step P sy sy'"

text \<open>The states the server can be in after \<open>n\<close> steps.\<close>

inductive reachable :: "'us deployment \<Rightarrow> nat \<Rightarrow> system \<Rightarrow> bool" for P :: "'us deployment" where
  start: "reachable P 0 initial_system"
| more: "reachable P n sy \<Longrightarrow> system_step P sy sy' \<Longrightarrow> reachable P (Suc n) sy'"

section \<open>The invariant\<close>

text \<open>What holds of a task in flight, over the storage.\<close>

fun task_ok :: "'us externs \<Rightarrow> mem_storage \<Rightarrow> task \<Rightarrow> bool" where
  "task_ok X s (CreateOrder m) \<longleftrightarrow> authentic X m"
| "task_ok X s (CreateInsert m) \<longleftrightarrow> authentic X m \<and> order_fits s m"
| "task_ok X s (UpdateCommit ctx req c) \<longleftrightarrow>
     auth_bound X ctx \<and> content_signed X ctx (ur_group_id req) (ur_key_version req) c \<and>
     (\<exists>m. st_messages s (ur_message_id req) = Some m \<and> msg_group_id m = ur_group_id req \<and>
          msg_sender_wallet_addr m = ac_sender_address ctx)"
| "task_ok X s (DeleteCommit ctx mid) \<longleftrightarrow>
     auth_bound X ctx \<and>
     (\<exists>m. st_messages s mid = Some m \<and> ac_authorized_group ctx = Some (msg_group_id m) \<and>
          msg_sender_wallet_addr m = ac_sender_address ctx)"
| "task_ok X s (StatusWrites st response msgs) \<longleftrightarrow> st \<in> {Synced, Updated, Deleted}"

definition all_authentic :: "'us externs \<Rightarrow> mem_storage \<Rightarrow> bool" where
  "all_authentic X s \<longleftrightarrow> (\<forall>i m. st_messages s i = Some m \<longrightarrow> authentic X m)"

definition orders_apart :: "(nat \<rightharpoonup> task) \<Rightarrow> bool" where
  "orders_apart ts \<longleftrightarrow>
     (\<forall>i j m n. ts i = Some (CreateInsert m) \<longrightarrow> ts j = Some (CreateInsert n) \<longrightarrow>
        msg_group_id m = msg_group_id n \<longrightarrow> msg_order m = msg_order n \<longrightarrow> i = j)"

definition counters_below :: "nat \<Rightarrow> mem_storage \<Rightarrow> bool" where
  "counters_below n s \<longleftrightarrow> (\<forall>g c. st_group_orders s g = Some c \<longrightarrow> sint c \<le> int n)"

definition system_inv :: "'us deployment \<Rightarrow> nat \<Rightarrow> system \<Rightarrow> bool" where
  "system_inv P n sy \<longleftrightarrow>
     mem_inv (sy_storage sy) \<and> counters_below n (sy_storage sy) \<and>
     all_authentic (su_externs P) (sy_storage sy) \<and>
     (\<forall>i t. sy_tasks sy i = Some t \<longrightarrow> task_ok (su_externs P) (sy_storage sy) t) \<and>
     orders_apart (sy_tasks sy)"

lemma system_invD:
  assumes "system_inv P n sy"
  shows "mem_inv (sy_storage sy)" "all_authentic (su_externs P) (sy_storage sy)"
    "counters_below n (sy_storage sy)" "orders_apart (sy_tasks sy)"
  using assms by (simp_all add: system_inv_def)

lemma system_inv_task:
  "system_inv P n sy \<Longrightarrow> sy_tasks sy i = Some t \<Longrightarrow> task_ok (su_externs P) (sy_storage sy) t"
  by (simp add: system_inv_def)

lemma set_task_simps [simp]:
  "sy_storage (set_task i t sy) = sy_storage sy"
  "sy_members (set_task i t sy) = sy_members sy"
  "sy_tasks (set_task i t sy) = (sy_tasks sy)(i := t)"
  by (simp_all add: set_task_def)

lemma counters_below_room:
  "counters_below n s \<Longrightarrow> int n < 2 ^ 63 - 1 \<Longrightarrow> mem_room s g"
  by (force simp: counters_below_def mem_room_def split: option.split)

text \<open>
  A change of the storage that keeps the tasks sound: identities and counters are kept, and no new
  message takes an order that an insertion in flight holds.
\<close>

definition storage_grows :: "mem_storage \<Rightarrow> mem_storage \<Rightarrow> bool" where
  "storage_grows s s' \<longleftrightarrow> keeps_identities (st_messages s) (st_messages s') \<and>
     st_group_orders s' = st_group_orders s"

lemma order_fits_grow:
  assumes "order_fits s m" and "st_group_orders s' = st_group_orders s"
    and "\<And>i n. st_messages s' i = Some n \<Longrightarrow>
      \<exists>n'. st_messages s i = Some n' \<and> same_identity n' n"
  shows "order_fits s' m"
  using assms unfolding order_fits_def ran_def same_identity_def
  by clarsimp (metis mem_Collect_eq)

lemma task_ok_identities:
  assumes "task_ok X s t" and "keeps_identities (st_messages s) (st_messages s')"
    and "\<And>m. t = CreateInsert m \<Longrightarrow> order_fits s' m"
  shows "task_ok X s' t"
  using assms by (cases t) (auto simp: keeps_identities_def same_identity_def, metis+)

text \<open>The writers that replace one message by one of the same identity.\<close>

definition replaces_only :: "mem_storage \<Rightarrow> mem_storage \<Rightarrow> bool" where
  "replaces_only s s' \<longleftrightarrow> st_group_orders s' = st_group_orders s \<and>
     dom (st_messages s') = dom (st_messages s) \<and>
     keeps_identities (st_messages s) (st_messages s')"

lemma replaces_only_refl [simp]: "replaces_only s s"
  by (simp add: replaces_only_def)

lemma replaces_only_upd:
  "st_messages s i = Some m \<Longrightarrow> same_identity m n \<Longrightarrow>
     replaces_only s (s\<lparr>st_nonces := N, st_messages := (st_messages s)(i \<mapsto> n)\<rparr>)"
  by (auto simp: replaces_only_def keeps_identities_def dom_def)

lemma replaces_only_back:
  assumes "replaces_only s s'" and "st_messages s' i = Some n"
  obtains n' where "st_messages s i = Some n'" and "same_identity n' n"
proof -
  from assms obtain n' where n': "st_messages s i = Some n'"
    unfolding replaces_only_def by (metis domD domI)
  with assms show thesis
    using that unfolding replaces_only_def keeps_identities_def by (metis option.inject)
qed

lemma order_fits_replaced: "order_fits s m \<Longrightarrow> replaces_only s s' \<Longrightarrow> order_fits s' m"
  by (erule order_fits_grow) (simp add: replaces_only_def, erule (1) replaces_only_back, blast)

lemma task_ok_replaced:
  "task_ok X s t \<Longrightarrow> replaces_only s s' \<Longrightarrow> task_ok X s' t"
  by (rule task_ok_identities) (auto simp: replaces_only_def intro: order_fits_replaced)

section \<open>The writers of the storage\<close>

lemma mem_update_replaces:
  "mem_inv s \<Longrightarrow> replaces_only s (snd (mem_update_message now i e n k a sg pk s))"
  by (cases "st_messages s i")
    (simp_all add: mem_update_message_eq replaces_only_upd)

lemma mem_delete_replaces:
  assumes "mem_inv s"
  shows "replaces_only s (snd (mem_delete_message now i s))"
proof (cases "st_messages s i")
  case (Some m)
  then show ?thesis
    using assms replaces_only_upd [OF Some, of "mark_for_deletion now m" "st_nonces s"]
    by (simp add: mem_delete_message_def Let_def)
qed (use assms in \<open>simp add: mem_delete_message_def\<close>)

lemma mem_sync_replaces:
  assumes "mem_inv s"
  shows "replaces_only s (snd (mem_update_sync_status now i st q s))"
proof (cases "st_messages s i")
  case (Some m)
  then show ?thesis
    using assms replaces_only_upd [OF Some, of "set_sync_status now st q m" "st_nonces s"]
    by (simp add: mem_update_sync_status_eq)
qed (use assms in \<open>simp add: mem_update_sync_status_eq\<close>)

lemma all_authentic_upd:
  "all_authentic X s \<Longrightarrow> authentic X n \<Longrightarrow>
     all_authentic X (s\<lparr>st_nonces := N, st_messages := (st_messages s)(i \<mapsto> n)\<rparr>)"
  by (simp add: all_authentic_def)

lemma mem_delete_authentic:
  assumes "mem_inv s" and "all_authentic X s"
  shows "all_authentic X (snd (mem_delete_message now i s))"
  using assms
  by (cases "st_messages s i")
    (auto simp: mem_delete_message_def Let_def all_authentic_def)

lemma mem_sync_authentic:
  assumes "mem_inv s" and "all_authentic X s"
  shows "all_authentic X (snd (mem_update_sync_status now i st q s))"
  using assms
  by (cases "st_messages s i") (auto simp: mem_update_sync_status_eq all_authentic_def)

lemma mem_update_authentic:
  assumes inv: "mem_inv s" and auth: "all_authentic X s"
    and new: "\<And>m. st_messages s i = Some m \<Longrightarrow> authentic X (update_content now e n k a sg pk m)"
  shows "all_authentic X (snd (mem_update_message now i e n k a sg pk s))"
  using inv auth new
  by (cases "st_messages s i") (auto simp: mem_update_message_eq all_authentic_def)

section \<open>The invariant is kept\<close>

lemma system_inv_initial: "system_inv P 0 initial_system"
  using mem_inv_new
  by (simp add: system_inv_def initial_system_def counters_below_def all_authentic_def
      orders_apart_def) (simp add: new_storage_def)

lemma system_inv_more_steps: "system_inv P n sy \<Longrightarrow> n \<le> n' \<Longrightarrow> system_inv P n' sy"
  by (force simp: system_inv_def counters_below_def)

lemma system_inv_add:
  "system_inv P n sy \<Longrightarrow> task_ok (su_externs P) (sy_storage sy) t \<Longrightarrow> \<forall>m. t \<noteq> CreateInsert m \<Longrightarrow>
     system_inv P n (set_task i (Some t) sy)"
  by (auto simp: system_inv_def orders_apart_def)

lemma system_inv_drop: "system_inv P n sy \<Longrightarrow> system_inv P n (set_task i None sy)"
  by (auto simp: system_inv_def orders_apart_def)

lemma system_inv_members: "system_inv P n (sy\<lparr>sy_members := ms\<rparr>) = system_inv P n sy"
  by (simp add: system_inv_def)

lemma system_inv_replaced:
  assumes "system_inv P n sy" and "mem_inv s'" and "replaces_only (sy_storage sy) s'"
    and "all_authentic (su_externs P) s'"
  shows "system_inv P n (sy\<lparr>sy_storage := s'\<rparr>)"
proof -
  have "task_ok (su_externs P) s' t" if "sy_tasks sy i = Some t" for i t
    using assms(1) that by (intro task_ok_replaced [OF _ assms(3)]) (simp add: system_inv_def)
  moreover have "counters_below n s'"
    using assms(1,3) by (simp add: system_inv_def counters_below_def replaces_only_def)
  ultimately show ?thesis using assms by (simp add: system_inv_def)
qed

lemma next_order_result:
  assumes "mem_inv s" and "next_order g s = (Inr k, s')"
  shows "s' = s\<lparr>st_group_orders := (st_group_orders s)(g \<mapsto> k)\<rparr>"
    and "k = unwrap_or 1 (map_option (\<lambda>k. k + 1) (st_group_orders s g))"
  using assms by (auto simp: next_order_def Let_def)

text \<open>Raising a counter: the messages in flight still fit, and none of them has the new number.\<close>

lemma order_fits_raise:
  assumes "order_fits s x" and above: "\<And>c. st_group_orders s g = Some c \<Longrightarrow> sint c < sint k"
  shows "order_fits (s\<lparr>st_group_orders := (st_group_orders s)(g \<mapsto> k)\<rparr>) x \<and>
    (msg_group_id x = g \<longrightarrow> msg_order x \<noteq> Some k)"
proof -
  from assms(1) obtain l c where x: "msg_order x = Some l" "st_group_orders s (msg_group_id x) = Some c"
      "0 < sint l" "sint l \<le> sint c"
    and y: "\<forall>n\<in>ran (st_messages s). msg_group_id n = msg_group_id x \<longrightarrow> msg_order n \<noteq> msg_order x"
    unfolding order_fits_def by blast
  show ?thesis
  proof (cases "msg_group_id x = g")
    case True
    with x above [of c] have "sint l < sint k" by simp
    with x y True show ?thesis by (auto simp: order_fits_def)
  next
    case False
    with x y show ?thesis by (auto simp: order_fits_def)
  qed
qed

lemma orders_apart_add:
  assumes apart: "orders_apart tasks"
    and free: "\<And>j x. tasks j = Some (CreateInsert x) \<Longrightarrow> \<not> (msg_group_id x = msg_group_id m \<and> msg_order x = msg_order m)"
  shows "orders_apart (tasks(i \<mapsto> CreateInsert m))"
  unfolding orders_apart_def
proof (intro allI impI)
  fix a b x y
  assume x: "(tasks(i \<mapsto> CreateInsert m)) a = Some (CreateInsert x)"
    and y: "(tasks(i \<mapsto> CreateInsert m)) b = Some (CreateInsert y)"
    and eq: "msg_group_id x = msg_group_id y" "msg_order x = msg_order y"
  show "a = b"
  proof (cases "a = i"; cases "b = i")
    assume "a = i" "b \<noteq> i"
    with x y eq free [of b y] show ?thesis by auto
  next
    assume "a \<noteq> i" "b = i"
    with x y eq free [of a x] show ?thesis by auto
  next
    assume "a \<noteq> i" "b \<noteq> i"
    with x y eq apart show ?thesis unfolding orders_apart_def by simp
  qed (use x y in simp)
qed

lemma post_order_inv:
  assumes inv: "system_inv P n sy" and n: "int n < 2 ^ 63 - 1"
    and t: "sy_tasks sy i = Some (CreateOrder m)"
    and no: "next_order (msg_group_id m) (sy_storage sy) = (Inr k, s)"
  shows "system_inv P (Suc n) (set_task i (Some (CreateInsert (set_order k m))) (sy\<lparr>sy_storage := s\<rparr>))"
proof -
  let ?s = "sy_storage sy" and ?g = "msg_group_id m"
  from inv have mi: "mem_inv ?s" and below: "counters_below n ?s"
    and auth: "all_authentic (su_externs P) ?s" and apart: "orders_apart (sy_tasks sy)"
    and tasks: "\<And>j t. sy_tasks sy j = Some t \<Longrightarrow> task_ok (su_externs P) ?s t"
    by (auto simp: system_inv_def)
  have room: "mem_room ?s ?g" by (rule counters_below_room [OF below n])
  note s = next_order_result [OF mi no]
  from next_order_spec [OF mi room] no have mi': "mem_inv s" and pos: "0 < sint k"
    and above: "\<forall>x\<in>ran (st_messages ?s). msg_group_id x = ?g \<longrightarrow> order_key x < sint k"
    by auto
  have old: "sint k = sint c + 1" if "st_group_orders ?s ?g = Some c" for c
    using s(2) that room by (simp add: mem_room_def sint_succ)
  have fits_old: "order_fits s x \<and> (msg_group_id x = ?g \<longrightarrow> msg_order x \<noteq> Some k)" if "order_fits ?s x" for x
    using order_fits_raise [OF that, of ?g k] old by (simp add: s(1))
  have "task_ok (su_externs P) s t'" if "sy_tasks sy j = Some t'" for j t'
    by (rule task_ok_identities [OF tasks [OF that]])
      (use fits_old tasks [OF that] in \<open>auto simp: s(1)\<close>)
  moreover have "order_fits s (set_order k m)"
    using above pos by (auto simp: order_fits_def s(1) order_key_def)
  then have "task_ok (su_externs P) s (CreateInsert (set_order k m))"
    using tasks [OF t] by simp
  moreover have "sint k \<le> int (Suc n)"
    using old below s(2) by (cases "st_group_orders ?s ?g") (auto simp: counters_below_def)
  then have "counters_below (Suc n) s"
    using below by (force simp: counters_below_def s(1))
  moreover have "orders_apart ((sy_tasks sy)(i \<mapsto> CreateInsert (set_order k m)))"
    by (rule orders_apart_add [OF apart]) (use tasks fits_old in fastforce)
  ultimately show ?thesis
    using mi' auth by (auto simp: system_inv_def all_authentic_def s(1))
qed

lemma create_insert_result:
  assumes "mem_inv s"
  obtains (failed) "snd (create_insert m s) = s"
    | (stored) "st_messages s (msg_id m) = None"
      and "snd (create_insert m s) = s\<lparr>st_nonces := insert (msg_nonce m) (st_nonces s),
        st_messages := (st_messages s)(msg_id m \<mapsto> m)\<rparr>"
  using create_insert_dup_id [OF assms, of m] create_insert_dup_nonce [OF assms, of m]
    create_insert_ok [OF assms, of m]
  by (cases "st_messages s (msg_id m)"; cases "nonce_used (st_messages s) (msg_nonce m)") auto

lemma post_insert_inv:
  assumes inv: "system_inv P n sy" and t: "sy_tasks sy i = Some (CreateInsert m)"
  shows "system_inv P n (set_task i None (sy\<lparr>sy_storage := snd (create_insert m (sy_storage sy))\<rparr>))"
proof -
  let ?s = "sy_storage sy"
  let ?s' = "snd (create_insert m ?s)"
  from inv have mi: "mem_inv ?s" and below: "counters_below n ?s"
    and auth: "all_authentic (su_externs P) ?s" and apart: "orders_apart (sy_tasks sy)"
    and tasks: "\<And>j t. sy_tasks sy j = Some t \<Longrightarrow> task_ok (su_externs P) ?s t"
    by (auto simp: system_inv_def)
  from tasks [OF t] have m: "authentic (su_externs P) m" "order_fits ?s m" by simp_all
  from mi show ?thesis
  proof (cases rule: create_insert_result [where m = m])
    case failed
    with system_inv_drop [OF inv, of i] show ?thesis by simp
  next
    case stored
    have "task_ok (su_externs P) ?s' t'" if j: "sy_tasks sy j = Some t'" "j \<noteq> i" for j t'
    proof (rule task_ok_identities [OF tasks [OF j(1)]])
      show "keeps_identities (st_messages ?s) (st_messages ?s')"
        using stored by (simp add: keeps_identities_new)
      fix x assume x: "t' = CreateInsert x"
      with apart j t have "\<not> (msg_group_id m = msg_group_id x \<and> msg_order m = msg_order x)"
        unfolding orders_apart_def by metis
      with tasks [OF j(1)] x stored show "order_fits ?s' x"
        by (auto simp: order_fits_def ran_def)
    qed
    moreover have "mem_inv ?s'" by (rule create_insert_inv [OF mi m(2)])
    moreover have "all_authentic (su_externs P) ?s'"
      using auth m(1) stored by (simp add: all_authentic_def)
    moreover have "counters_below n ?s'"
      using below stored by (simp add: counters_below_def)
    moreover have "orders_apart ((sy_tasks sy)(i := None))"
      using apart by (auto simp: orders_apart_def)
    ultimately show ?thesis by (simp add: system_inv_def)
  qed
qed

lemma put_commit_inv:
  assumes inv: "system_inv P n sy" and t: "sy_tasks sy i = Some (UpdateCommit ctx req c)"
  shows "system_inv P n (set_task i None (sy\<lparr>sy_storage :=
    snd (update_commit X (in_memory_storage order_of) now req c (sy_storage sy))\<rparr>))"
proof -
  let ?s = "sy_storage sy"
  note mi = system_invD(1) [OF inv] and auth = system_invD(2) [OF inv]
  note ok = system_inv_task [OF inv t]
  have "all_authentic (su_externs P) (snd (mem_update_message now (ur_message_id req)
      (ct_encrypted_msg c) (ct_nonce c) (ur_key_version req) (ct_attachments c) (ct_signature c)
      (ct_public_key c) ?s))"
    by (rule mem_update_authentic [OF mi auth]) (use ok in \<open>auto intro: authentic_updated\<close>)
  then show ?thesis
    unfolding update_commit_def in_memory_storage_def storage_adapter.select_convs
    by (intro system_inv_drop system_inv_replaced [OF inv] mem_update_inv mem_update_replaces mi)
qed

lemma delete_commit_inv:
  assumes inv: "system_inv P n sy"
  shows "system_inv P n (set_task i None
    (sy\<lparr>sy_storage := snd (mem_delete_message now mid (sy_storage sy))\<rparr>))"
proof -
  note mi = system_invD(1) [OF inv] and auth = system_invD(2) [OF inv]
  show ?thesis
    using mi
    by (intro system_inv_drop system_inv_replaced [OF inv] mem_delete_replaces
        mem_delete_authentic [OF mi auth])
      (use asc.mem_contract.delete_inv [of "sy_storage sy" now mid] in
        \<open>simp_all add: in_memory_storage_def\<close>)
qed

lemma sync_one_inv:
  assumes inv: "system_inv P n sy"
  shows "system_inv P n (sy\<lparr>sy_storage :=
    snd (mem_update_sync_status now mid st q (sy_storage sy))\<rparr>)"
proof -
  note mi = system_invD(1) [OF inv] and auth = system_invD(2) [OF inv]
  show ?thesis
    using mi
    by (intro system_inv_replaced [OF inv] mem_sync_replaces mem_sync_authentic [OF mi auth])
      (use asc.mem_contract.sync_inv [of "sy_storage sy" now mid st q] in
        \<open>simp_all add: in_memory_storage_def\<close>)
qed

lemma sync_write_inv:
  assumes inv: "system_inv P n sy" and t: "sy_tasks sy i = Some (StatusWrites st r (msg # msgs))"
  shows "system_inv P n (set_task i (Some (StatusWrites st r msgs)) (sy\<lparr>sy_storage :=
    update_statuses X (in_memory_storage order_of) clock r st [msg] (sy_storage sy)\<rparr>))"
proof -
  have "task_ok (su_externs P) s (StatusWrites st r msgs)" for s
    using system_inv_task [OF inv t] by simp
  moreover have "system_inv P n (sy\<lparr>sy_storage :=
      update_statuses X (in_memory_storage order_of) clock r st [msg] (sy_storage sy)\<rparr>)"
    using inv sync_one_inv [OF inv]
    by (auto simp: in_memory_storage_def split: option.split)
  ultimately show ?thesis by (intro system_inv_add) simp_all
qed

lemma accepts_bound: "accepts P sy now request request' ctx \<Longrightarrow> auth_bound (su_externs P) ctx"
  unfolding accepts_def by (erule accepted_context)

lemma system_step_inv:
  assumes step: "system_step P sy sy'" and inv: "system_inv P n sy" and n: "int n < 2 ^ 63 - 1"
    and agree: "bodies_agree (su_extractors P)" and order: "hash_order (su_order_of P)"
  shows "system_inv P (Suc n) sy'"
proof -
  note later = system_inv_more_steps [of P n _ "Suc n"]
  note mi = system_invD(1) [OF inv]
  from step show ?thesis
  proof cases
    case (post_accepted i now request request' ctx req env m)
    from accepted_create [OF agree post_accepted(3) [unfolded accepts_def] post_accepted(5)]
    have "authentic (su_externs P) m"
      by (intro create_prepare_authentic [OF post_accepted(6)] accepts_bound [OF post_accepted(3)]) simp
    with later system_inv_add [OF inv] post_accepted(1) show ?thesis by simp
  next
    case (post_order i m k s)
    with post_order_inv [OF inv n] show ?thesis by simp
  next
    case (post_insert i m)
    with later post_insert_inv [OF inv] show ?thesis by simp
  next
    case (put_accepted i now request request' ctx req c)
    from accepted_update [OF agree put_accepted(3) [unfolded accepts_def] put_accepted(5)]
    have g: "ac_authorized_group ctx = Some (ur_group_id req)" by simp
    from put_accepted(6) obtain m where m: "st_messages (sy_storage sy) (ur_message_id req) = Some m"
        "ac_authorized_group ctx = Some (msg_group_id m)"
        "msg_sender_wallet_addr m = ac_sender_address ctx"
      and d: "decode_content (su_externs P) ctx (ur_group_id req) (ur_encrypted_text req) (ur_nonce req)
          (ur_key_version req) (ur_message_signature req) (ur_attachments req) = Inr c"
      unfolding storage_contract.update_check_Inr_iff [OF hash_order.meets_contract [OF order] mi]
      by blast
    have "task_ok (su_externs P) (sy_storage sy) (UpdateCommit ctx req c)"
      using m g accepts_bound [OF put_accepted(3)] decode_content_signed [OF d] by simp
    with later system_inv_add [OF inv] put_accepted(1) show ?thesis by simp
  next
    case (put_commit i ctx req c now)
    from later [OF put_commit_inv [OF inv put_commit(2)]] show ?thesis by (simp add: put_commit(1))
  next
    case (delete_accepted i now request request' ctx mid)
    have "task_ok (su_externs P) (sy_storage sy) (DeleteCommit ctx mid)"
      using delete_accepted(5) accepts_bound [OF delete_accepted(3)]
      unfolding storage_contract.delete_check_Inr_iff [OF hash_order.meets_contract [OF order] mi]
      by auto
    with later system_inv_add [OF inv] delete_accepted(1) show ?thesis by simp
  next
    case (delete_commit i ctx mid now)
    with later delete_commit_inv [OF inv] show ?thesis by simp
  next
    case (sync_uploaded i st found st' send response)
    then have "task_ok (su_externs P) (sy_storage sy) (StatusWrites st' response found)" by auto
    with later system_inv_add [OF inv] sync_uploaded(1) show ?thesis by simp
  next
    case (sync_write i st response msg msgs clock)
    from later [OF sync_write_inv [OF inv sync_write(2)]] show ?thesis by (simp add: sync_write(1))
  next
    case (sync_done i st response)
    with later system_inv_drop [OF inv] show ?thesis by simp
  next
    case (membership_event event)
    have "system_inv P n sy'" unfolding membership_event system_inv_members by (rule inv)
    then show ?thesis by (rule later) simp
  qed
qed

lemma reachable_inv:
  assumes "reachable P n sy" and "int n < 2 ^ 63"
    and "bodies_agree (su_extractors P)" and "hash_order (su_order_of P)"
  shows "system_inv P n sy"
  using assms(1,2)
proof induction
  case start
  show ?case by (rule system_inv_initial)
next
  case (more n sy sy')
  then show ?case by (intro system_step_inv [OF _ _ _ assms(3,4)]) simp_all
qed

text \<open>No step loses a message or changes its identity.\<close>

lemma system_step_keeps:
  assumes step: "system_step P sy sy'" and inv: "system_inv P n sy"
  shows "keeps_identities (st_messages (sy_storage sy)) (st_messages (sy_storage sy'))"
proof -
  note mi = system_invD(1) [OF inv]
  have replaced: "replaces_only s s' \<Longrightarrow> keeps_identities (st_messages s) (st_messages s')" for s s'
    by (simp add: replaces_only_def)
  from step show ?thesis
  proof cases
    case (post_order i m k s)
    with next_order_result(1) [OF mi post_order(3)] show ?thesis by simp
  next
    case (post_insert i m)
    from mi show ?thesis
      by (cases rule: create_insert_result [where m = m])
        (simp_all add: post_insert keeps_identities_new)
  next
    case (put_commit i ctx req c now)
    then show ?thesis
      by (simp add: update_commit_def in_memory_storage_def replaced mem_update_replaces [OF mi])
  next
    case (delete_commit i ctx mid now)
    then show ?thesis by (simp add: replaced mem_delete_replaces [OF mi])
  next
    case (sync_write i st response msg msgs clock)
    then show ?thesis
      by (auto simp: in_memory_storage_def replaced mem_sync_replaces [OF mi] split: option.split)
  qed simp_all
qed

end
