(* ===== verification/Example.thy ===== *)
theory Example
  imports System
begin

text \<open>
  One concrete deployment, in which the properties are applied: a group with one member who holds all
  permissions, and her four requests. \<open>ref_externs\<close> stands for the cryptography, and the extractors
  know the two bodies she sends.
\<close>

definition demo_group :: string where "demo_group = ''0xaa''"
definition demo_pk :: bytes where "demo_pk = replicate 32 7"
definition demo_address :: string where "demo_address = ''0x'' @ hex_encode (0 # replicate 31 7)"

text \<open>A signature that \<open>ref_verify\<close> accepts for the given bytes.\<close>

definition demo_sign :: "bytes \<Rightarrow> bytes" where
  "demo_sign m = sum_list m # replicate 63 0"

definition demo_nonce :: "u8 \<Rightarrow> bytes" where "demo_nonce b = replicate 12 b"

definition demo_message_signature :: "bytes \<Rightarrow> bytes \<Rightarrow> bytes" where
  "demo_message_signature text nonce =
     demo_sign (as_bytes (canonical_message demo_group (hex_encode text) (hex_encode nonce) 1))"

definition demo_create_request :: create_message_request where
  "demo_create_request =
     \<lparr> cr_group_id = demo_group, cr_encrypted_text = hex_encode [1, 2, 3],
       cr_nonce = hex_encode (demo_nonce 1), cr_key_version = 1, cr_sender_address = demo_address,
       cr_message_signature = hex_encode (demo_message_signature [1, 2, 3] (demo_nonce 1)),
       cr_attachments = [] \<rparr>"

definition demo_update_request :: update_message_request where
  "demo_update_request =
     \<lparr> ur_message_id = 42, ur_group_id = demo_group, ur_sender_address = demo_address,
       ur_encrypted_text = hex_encode [4, 5], ur_nonce = hex_encode (demo_nonce 2), ur_key_version = 1,
       ur_message_signature = hex_encode (demo_message_signature [4, 5] (demo_nonce 2)),
       ur_attachments = [] \<rparr>"

definition demo_create_body :: bytes where "demo_create_body = [123, 1]"
definition demo_update_body :: bytes where "demo_update_body = [123, 2]"

definition demo_extractors :: extractors where
  "demo_extractors =
     \<lparr> ex_body_auth = (\<lambda>b. if b = demo_create_body \<or> b = demo_update_body
         then Inr \<lparr>ba_group_id = demo_group, ba_sender_address = demo_address, ba_timestamp = 1000\<rparr>
         else Inl ''expected value''),
       ex_create = (\<lambda>h b. if b = demo_create_body then Inr demo_create_request else Inl (400, ''bad'')),
       ex_update = (\<lambda>h b. if b = demo_update_body then Inr demo_update_request else Inl (400, ''bad'')),
       ex_query = (\<lambda>q. if q = ''id'' then
           Inr \<lparr>q_message_id = Some 42, q_group_id = None, q_after_order = None, q_before_order = None,
                q_limit = None\<rparr>
         else Inr \<lparr>q_message_id = None, q_group_id = Some demo_group, q_after_order = None,
                   q_before_order = None, q_limit = None\<rparr>),
       ex_message_id = (\<lambda>p. Inr 42),
       ex_logs_lines = (\<lambda>q. Inr None),
       ex_attest = (\<lambda>pk d. Inr ''00'') \<rparr>"

definition demo_headers :: "bytes \<Rightarrow> string \<rightharpoonup> bytes" where
  "demo_headers msg = map_of
     [(''x-signature'', as_bytes (hex_encode (demo_sign msg))),
      (''x-public-key'', as_bytes (hex_encode (0 # demo_pk))),
      (''x-sender-address'', as_bytes demo_address),
      (''x-timestamp'', as_bytes ''1000''),
      (''x-group-id'', as_bytes demo_group)]"

definition demo_request :: "http_method \<Rightarrow> route \<Rightarrow> bytes \<Rightarrow> route http_request" where
  "demo_request meth rt body =
     \<lparr> rq_method = meth, rq_route = rt,
       rq_headers = demo_headers
         (if body = [] then as_bytes (canonical_headers 1000 demo_address demo_group) else body),
       rq_body = Some body \<rparr>"

definition demo_context :: auth_context where
  "demo_context = \<lparr>ac_sender_address = demo_address, ac_public_key = demo_pk, ac_scheme = Ed25519,
     ac_authorized_group = Some demo_group\<rparr>"

definition demo_permissions :: "messaging_permission list" where
  "demo_permissions = [MessagingSender, MessagingReader, MessagingEditor, MessagingDeleter]"

definition demo_members :: mem_members where
  "demo_members = snd (grant_permissions demo_group demo_address demo_permissions
     (add_member demo_group demo_address [] new_members))"

section \<open>Headers of plain text\<close>

definition plain :: "string \<Rightarrow> bool" where
  "plain s \<longleftrightarrow> (\<forall>c\<in>set s. 33 \<le> (of_char c :: nat) \<and> (of_char c :: nat) < 127)"

lemma unat_of_char_u8: "unat (of_char c :: u8) = of_char c"
proof -
  have "(of_char c :: u8) = of_nat (of_char c)" by (simp only: of_nat_of_char)
  moreover have "(of_char c :: nat) < 256" by (rule nat_of_char_less_256)
  ultimately show ?thesis by (simp only: unat_of_nat) simp
qed

lemma ref_header_to_str_plain: "plain s \<Longrightarrow> ref_header_to_str (as_bytes s) = Some s"
  by (auto simp: ref_header_to_str_def as_bytes_def plain_def list_all_iff word_le_nat_alt
      word_less_nat_alt unat_of_char_u8 comp_def intro!: map_idI)

lemma trim_plain: "plain s \<Longrightarrow> trim s = s"
proof -
  assume "plain s"
  then have "\<forall>c\<in>set s. \<not> is_ascii_space c"
    by (auto simp: plain_def is_ascii_space_def Let_def)
  then have "dropWhile is_ascii_space s = s" "dropWhile is_ascii_space (rev s) = rev s"
    by (cases s; simp) (cases s rule: rev_cases; simp add: \<open>\<forall>c\<in>set s. \<not> is_ascii_space c\<close>)
  then show ?thesis by (simp add: trim_def)
qed

lemma get_header_plain:
  "headers name = Some (as_bytes s) \<Longrightarrow> plain s \<Longrightarrow> get_header ref_externs headers name = Some s"
  by (simp add: get_header_def ref_header_to_str_plain trim_plain)

lemma plain_Cons [simp]:
  "plain []" "plain (c # s) \<longleftrightarrow> 33 \<le> (of_char c :: nat) \<and> (of_char c :: nat) < 127 \<and> plain s"
  by (auto simp: plain_def)

lemma plain_append [simp]: "plain (s @ t) \<longleftrightarrow> plain s \<and> plain t"
  by (auto simp: plain_def)

lemma plain_hex_digit: "n < 16 \<Longrightarrow> 33 \<le> (of_char (hex_digit n) :: nat) \<and> (of_char (hex_digit n) :: nat) < 127"
  by (auto simp: hex_digit_def of_char_of)

lemma plain_hex_encode [simp]: "plain (hex_encode bs)"
  using plain_hex_digit u8_nibble_less
  by (fastforce simp: plain_def hex_encode_def)

section \<open>The requests are accepted\<close>

lemma demo_decode_key: "decode_public_key ref_externs (hex_encode (0 # demo_pk)) = Inr (Ed25519, demo_pk)"
  by (simp add: decode_public_key_Inr_iff hx.dec_enc demo_pk_def)

lemma demo_has_permission: "has_permission demo_members demo_group demo_address p"
  by (cases p) (simp_all add: demo_members_def demo_permissions_def has_permission_def lookup_member_def
    grant_permissions_def add_member_def new_members_def)

lemma demo_derived: "derive_sui_address ref_externs demo_pk Ed25519 = Inr demo_address"
  by (simp add: derive_sui_address_def demo_pk_def demo_address_def numeral_eq_Suc)

lemma demo_signature_valid: "signature_valid ref_externs m (demo_sign m) demo_pk Ed25519"
  by (simp add: signature_valid_def demo_sign_def demo_pk_def serialized_signature_def ref_verify_def)

lemma demo_context_sel [simp]:
  "ac_sender_address demo_context = demo_address" "ac_public_key demo_context = demo_pk"
  "ac_scheme demo_context = Ed25519" "ac_authorized_group demo_context = Some demo_group"
  by (simp_all add: demo_context_def)

definition demo_claim :: "bytes \<Rightarrow> auth_claim" where
  "demo_claim m = \<lparr>cl_group_id = demo_group, cl_sender_address = demo_address, cl_timestamp = 1000,
     cl_message_bytes = m\<rparr>"

lemma demo_check_claim:
  "check_claim ref_externs (in_memory_membership io) demo_members 900 1000 perm Ed25519 demo_pk
     (demo_sign m) (demo_claim m) = Inr demo_context"
  by (simp add: check_claim_Inr_iff demo_claim_def demo_context_def demo_signature_valid demo_derived
      in_memory_membership_def demo_has_permission validate_timestamp_def i64_abs_def Let_def)

lemma demo_headers_sel:
  "demo_headers m ''x-signature'' = Some (as_bytes (hex_encode (demo_sign m)))"
  "demo_headers m ''x-public-key'' = Some (as_bytes (hex_encode (0 # demo_pk)))"
  "demo_headers m ''x-sender-address'' = Some (as_bytes demo_address)"
  "demo_headers m ''x-timestamp'' = Some (as_bytes ''1000'')"
  "demo_headers m ''x-group-id'' = Some (as_bytes demo_group)"
  by (simp_all add: demo_headers_def)

definition demo_signed_bytes :: "bytes \<Rightarrow> bytes" where
  "demo_signed_bytes body =
     (if body = [] then as_bytes (canonical_headers 1000 demo_address demo_group) else body)"

lemma demo_claim_of:
  assumes "body \<in> {[], demo_create_body, demo_update_body}"
  shows "auth_claim_of ref_externs (ex_body_auth demo_extractors) (demo_headers (demo_signed_bytes body)) body
    = Inr (demo_claim (demo_signed_bytes body))"
proof (cases "body = []")
  case True
  have "get_header ref_externs (demo_headers m) ''x-sender-address'' = Some demo_address"
    "get_header ref_externs (demo_headers m) ''x-timestamp'' = Some ''1000''"
    "get_header ref_externs (demo_headers m) ''x-group-id'' = Some demo_group" for m
    by (rule get_header_plain, rule demo_headers_sel, simp add: demo_address_def demo_group_def)+
  moreover have "parse_i64 ''1000'' = Some 1000"
    by (simp add: parse_i64_def parse_signed_def parse_digits_def is_digit_def digit_val_def)
  ultimately show ?thesis
    using True by (simp add: auth_claim_of_def header_claim_Inr_iff demo_claim_def demo_signed_bytes_def)
next
  case False
  with assms show ?thesis
    by (auto simp: auth_claim_of_def body_claim_def demo_extractors_def demo_claim_def
        demo_signed_bytes_def)
qed

lemma demo_authenticate:
  assumes "body \<in> {[], demo_create_body, demo_update_body}"
  shows "authenticate ref_externs (ex_body_auth demo_extractors) (in_memory_membership io) demo_members
    900 1000 perm (demo_request meth rt body) = Inr (body, demo_context)"
proof -
  let ?m = "demo_signed_bytes body"
  have "get_header ref_externs (demo_headers ?m) ''x-signature'' = Some (hex_encode (demo_sign ?m))"
    "get_header ref_externs (demo_headers ?m) ''x-public-key'' = Some (hex_encode (0 # demo_pk))"
    by (rule get_header_plain, rule demo_headers_sel, simp)+
  moreover have "rq_headers (demo_request meth rt body) = demo_headers ?m"
    "rq_body (demo_request meth rt body) = Some body"
    by (simp_all add: demo_request_def demo_signed_bytes_def)
  ultimately show ?thesis
    unfolding authenticate_Inr_iff
    by (intro exI [of _ "hex_encode (demo_sign ?m)"] exI [of _ "hex_encode (0 # demo_pk)"]
        exI [of _ "demo_sign ?m"] exI [of _ "demo_claim ?m"])
      (simp add: demo_decode_key demo_claim_of [OF assms] demo_check_claim hx.dec_enc)
qed

lemma demo_request_sel [simp]:
  "rq_method (demo_request meth rt body) = meth" "rq_route (demo_request meth rt body) = rt"
  "rq_body (demo_request meth rt body) = Some body"
  "demo_request meth rt body\<lparr>rq_body := Some body\<rparr> = demo_request meth rt body"
  by (simp_all add: demo_request_def)

lemma demo_accepted:
  assumes "body \<in> {[], demo_create_body, demo_update_body}" and "required_permission meth = Some perm"
  shows "request_accepted ref_externs demo_extractors (in_memory_membership io) demo_members 900 1000
    (demo_request meth rt body) (demo_request meth rt body) demo_context"
  unfolding request_accepted_def auth_middleware_Next
  by (intro exI [of _ perm] exI [of _ body])
    (simp add: demo_authenticate [OF assms(1)] assms(2))

lemma demo_bodies_agree: "bodies_agree demo_extractors"
  by (auto simp: bodies_agree_def demo_extractors_def demo_create_request_def demo_update_request_def
      demo_create_body_def demo_update_body_def split: if_splits)

section \<open>The message she posts\<close>

definition demo_env :: handler_env where
  "demo_env =
     \<lparr> he_auth_now = 1000000000000, he_uuid = 42, he_now = 5, he_reply_now = 6,
       he_key_pair = \<lparr>kp_sign = demo_sign, kp_public_key_bytes = demo_pk\<rparr>,
       he_bcs_create = (\<lambda>m. Inr [1]), he_bcs_empty = (\<lambda>m. Inr [2]) \<rparr>"

definition demo_content :: "bytes \<Rightarrow> bytes \<Rightarrow> content" where
  "demo_content text nonce =
     \<lparr>ct_encrypted_msg = text, ct_nonce = nonce, ct_signature = demo_message_signature text nonce,
      ct_attachments = [], ct_public_key = 0 # demo_pk\<rparr>"

lemma demo_decode_content:
  "length nonce = 12 \<Longrightarrow>
     decode_content ref_externs demo_context demo_group (hex_encode text) (hex_encode nonce) 1
       (hex_encode (demo_message_signature text nonce)) [] = Inr (demo_content text nonce)"
  by (simp add: decode_content_Inr_iff demo_content_def hx.dec_enc verify_message_signature_Inr_iff
      decode_attachments_Inr_iff demo_message_signature_def demo_signature_valid)

definition demo_message :: message where
  "demo_message = message_new 5 42 demo_group demo_address [1, 2, 3] (demo_nonce 1) 1 []
     (demo_message_signature [1, 2, 3] (demo_nonce 1)) (0 # demo_pk)"

lemma demo_create_prepare:
  "create_prepare ref_externs demo_env demo_context demo_create_request = Inr demo_message"
  by (simp add: create_prepare_def demo_create_request_def demo_decode_content demo_nonce_def
      demo_message_def demo_env_def demo_content_def)

definition demo_stored :: message where "demo_stored = set_order 1 demo_message"

lemma demo_message_sel [simp]:
  "msg_id demo_message = 42" "msg_group_id demo_message = demo_group" "msg_nonce demo_message = demo_nonce 1"
  "msg_id demo_stored = 42" "msg_group_id demo_stored = demo_group" "msg_nonce demo_stored = demo_nonce 1"
  "msg_sender_wallet_addr demo_stored = demo_address" "msg_order demo_stored = Some 1"
  "msg_sync_status demo_stored = SyncPending" "msg_created_at demo_stored = 5"
  "msg_updated_at demo_stored = 5"
  by (simp_all add: demo_message_def demo_stored_def message_new_def set_order_def default_sync_status_def)

definition demo_storage :: mem_storage where
  "demo_storage = \<lparr>st_messages = [42 \<mapsto> demo_stored], st_group_orders = [demo_group \<mapsto> 1],
     st_nonces = {demo_nonce 1}\<rparr>"

lemma demo_next_order:
  "next_order demo_group new_storage = (Inr 1, new_storage\<lparr>st_group_orders := [demo_group \<mapsto> 1]\<rparr>)"
  by (simp add: next_order_def new_storage_def)

lemma demo_create_insert:
  "create_insert demo_stored (new_storage\<lparr>st_group_orders := [demo_group \<mapsto> 1]\<rparr>)
     = (Inr demo_stored, demo_storage)"
  by (simp add: create_insert_def new_storage_def demo_storage_def)

lemma demo_create: "mem_create_message demo_message new_storage = (Inr demo_stored, demo_storage)"
  using demo_create_insert by (simp add: mem_create_message_def demo_next_order demo_stored_def)

lemma demo_storage_room [simp]: "mem_room demo_storage g" "mem_room new_storage g"
  by (simp_all add: mem_room_def new_storage_def demo_storage_def)

lemma demo_storage_inv: "mem_inv demo_storage"
  using asc.mem_contract.create_inv [OF mem_inv_new, of demo_message]
  by (simp add: in_memory_storage_def demo_create)

lemma demo_storage_sel [simp]:
  "st_messages demo_storage = [42 \<mapsto> demo_stored]" "st_group_orders demo_storage = [demo_group \<mapsto> 1]"
  "st_nonces demo_storage = {demo_nonce 1}"
  by (simp_all add: demo_storage_def)

section \<open>The run that stores it\<close>

definition demo_quilt :: quilt_store_response where
  "demo_quilt = \<lparr>qs_blob_store_result = \<lparr>bs_newly_created = None, bs_already_certified = None\<rparr>,
     qs_stored_quilt_blobs = [\<lparr>sp_identifier = ''msg-42'', sp_quilt_patch_id = ''patch'', sp_range = None\<rparr>]\<rparr>"

definition demo_send :: sender where
  "demo_send c = Inr \<lparr>ha_status = 200, ha_text = Inr ''ok'', ha_bytes = Inr [1]\<rparr>"

definition demo_walrus_codec :: walrus_codec where
  "demo_walrus_codec =
     \<lparr> wc_quilt = (\<lambda>a. Inr demo_quilt), wc_blob = (\<lambda>a. Inl ''no blob''), wc_patches = (\<lambda>a. Inr []),
       wc_metadata = (\<lambda>m. Inr ''[]'') \<rparr>"

definition demo_worker :: walrus_sync_service where
  "demo_worker = walrus_sync_service_new default_config (walrus_client_new ''https://p'' ''https://a'')"

definition demo_deployment :: "bytes deployment" where
  "demo_deployment =
     \<lparr> su_externs = ref_externs, su_extractors = demo_extractors, su_order_of = ascending,
       su_iter_order = [], su_serializer = (\<lambda>m. Inr [1]), su_walrus_codec = demo_walrus_codec,
       su_worker = demo_worker, su_ttl = 900 \<rparr>"

lemma demo_deployment_sel [simp]:
  "su_externs demo_deployment = ref_externs" "su_extractors demo_deployment = demo_extractors"
  "su_order_of demo_deployment = ascending" "su_iter_order demo_deployment = []"
  "su_serializer demo_deployment = (\<lambda>m. Inr [1])" "su_walrus_codec demo_deployment = demo_walrus_codec"
  "su_worker demo_deployment = demo_worker" "su_ttl demo_deployment = 900"
  by (simp_all add: demo_deployment_def)

definition demo_system :: "mem_storage \<Rightarrow> (nat \<rightharpoonup> task) \<Rightarrow> system" where
  "demo_system s ts = \<lparr>sy_storage = s, sy_members = demo_members, sy_tasks = ts\<rparr>"

lemma demo_system_sel [simp]:
  "sy_storage (demo_system s ts) = s" "sy_members (demo_system s ts) = demo_members"
  "sy_tasks (demo_system s ts) = ts"
  by (simp_all add: demo_system_def)

lemma demo_members_reachable: "reachable demo_deployment 2 (demo_system new_storage Map.empty)"
proof -
  let ?add = "MemberAdded demo_group demo_address"
    and ?grant = "PermissionsGranted demo_group demo_address demo_permissions"
  note one = reachable.more [OF reachable.start system_step.membership_event, of demo_deployment ?add]
  note two = reachable.more [OF one system_step.membership_event, of ?grant]
  then show ?thesis
    by (simp add: initial_system_def demo_system_def demo_members_def in_memory_membership_def
        numeral_2_eq_2)
qed

lemma demo_post_accepts:
  "accepts demo_deployment (demo_system s ts) 1000 (demo_request POST (Messages []) demo_create_body)
     (demo_request POST (Messages []) demo_create_body) demo_context"
  by (simp add: accepts_def demo_accepted [where perm = MessagingSender])

lemma demo_post_step:
  "ts i = None \<Longrightarrow> system_step demo_deployment (demo_system s ts)
     (demo_system s (ts(i \<mapsto> CreateOrder demo_message)))"
  using system_step.post_accepted [OF _ demo_post_accepts [of s ts], where i = i and env = demo_env
      and req = demo_create_request and m = demo_message]
  by (simp add: demo_extractors_def demo_create_prepare set_task_def demo_system_def)

lemma demo_stored_reachable: "reachable demo_deployment 5 (demo_system demo_storage Map.empty)"
proof -
  let ?o = "new_storage\<lparr>st_group_orders := [demo_group \<mapsto> 1]\<rparr>"
  have "reachable demo_deployment 3 (demo_system new_storage [0 \<mapsto> CreateOrder demo_message])"
    using reachable.more [OF demo_members_reachable demo_post_step [of Map.empty 0]] by simp
  moreover have "system_step demo_deployment (demo_system new_storage [0 \<mapsto> CreateOrder demo_message])
      (demo_system ?o [0 \<mapsto> CreateInsert demo_stored])"
    using system_step.post_order [of "demo_system new_storage [0 \<mapsto> CreateOrder demo_message]" 0 demo_message
        1 ?o demo_deployment]
    by (simp add: demo_next_order set_task_def demo_system_def demo_stored_def)
  moreover have "system_step demo_deployment (demo_system ?o [0 \<mapsto> CreateInsert demo_stored])
      (demo_system demo_storage Map.empty)"
    using system_step.post_insert [of "demo_system ?o [0 \<mapsto> CreateInsert demo_stored]" 0 demo_stored
        demo_deployment]
    by (simp add: demo_create_insert set_task_def demo_system_def)
  ultimately show ?thesis
    using reachable.more [of demo_deployment 3] reachable.more [of demo_deployment 4] by simp metis
qed

section \<open>Her requests, served\<close>

lemma demo_middleware:
  assumes "body \<in> {[], demo_create_body, demo_update_body}" and "required_permission meth = Some perm"
  shows "auth_middleware ref_externs (ex_body_auth demo_extractors) (in_memory_membership io) demo_members
    900 1000 (demo_request meth rt body) = Next (demo_request meth rt body) (Some demo_context)"
  using demo_accepted [OF assms] by (simp add: request_accepted_def)

lemma demo_env_sel [simp]:
  "he_auth_now demo_env = 1000000000000" "he_uuid demo_env = 42" "he_now demo_env = 5"
  "he_reply_now demo_env = 6"
  by (simp_all add: demo_env_def)

lemma demo_serve:
  assumes "body \<in> {[], demo_create_body, demo_update_body}" and "required_permission meth = Some perm"
    and "is_message_route rt"
  shows "serve ref_externs demo_extractors (in_memory_membership io) SA default_config demo_env
    demo_members logs (demo_request meth rt body) st =
    authenticated_routes ref_externs demo_extractors SA demo_env (demo_request meth rt body)
      (Some demo_context) st"
  using demo_middleware [OF assms(1,2)] assms(3)
  by (simp add: serve_def default_config_def)

lemma demo_serve_post:
  "\<exists>reply. serve ref_externs demo_extractors (in_memory_membership io) (in_memory_storage ascending)
    default_config demo_env demo_members logs (demo_request POST (Messages []) demo_create_body)
    \<lparr>as_storage = new_storage, as_notified = 0\<rparr>
    = (Some (201, CreatedBody reply), \<lparr>as_storage = demo_storage, as_notified = 1\<rparr>)"
proof -
  obtain signed where "to_signed_response ref_externs (he_bcs_create demo_env) (he_key_pair demo_env)
      \<lparr>cresp_message_id = 42\<rparr> (x_unix_millis ref_externs 6) MessageDelivery = Some signed"
    by (simp add: to_signed_response_def demo_env_def Let_def)
  then have "create_message ref_externs (in_memory_storage ascending) demo_env demo_context
      demo_create_request \<lparr>as_storage = new_storage, as_notified = 0\<rparr>
      = (Some (Inr (201, signed)), \<lparr>as_storage = demo_storage, as_notified = 1\<rparr>)"
    by (simp add: create_message_def demo_create_prepare in_memory_storage_def demo_create
        create_reply_def Let_def)
  then show ?thesis
    by (subst demo_serve [where perm = MessagingSender])
      (simp_all add: is_message_route_def authenticated_routes_def messages_route_def with_context_def
        extracted_def demo_extractors_def api_reply_def)
qed

lemma demo_update_check:
  "update_check ref_externs (in_memory_storage order_of) demo_context demo_update_request demo_storage
     = Inr (demo_content [4, 5] (demo_nonce 2))"
  by (simp add: update_check_def in_memory_storage_def mem_get_message_def demo_update_request_def
      demo_decode_content demo_nonce_def)

lemma demo_update_free: "\<not> nonce_used_by_other (st_messages demo_storage) 42 (demo_nonce 2)"
  by (simp add: nonce_used_by_other_def)

lemma demo_serve_put:
  "\<exists>reply st'. serve ref_externs demo_extractors (in_memory_membership io) (in_memory_storage ascending)
    default_config demo_env demo_members logs (demo_request PUT (Messages []) demo_update_body)
    \<lparr>as_storage = demo_storage, as_notified = 0\<rparr> = (Some (200, UpdatedBody reply), st')"
proof -
  obtain signed where "to_signed_response ref_externs (he_bcs_empty demo_env) (he_key_pair demo_env)
      EmptyResponse (x_unix_millis ref_externs 6) MessageDelivery = Some signed"
    by (simp add: to_signed_response_def demo_env_def Let_def)
  moreover obtain m s where "update_commit ref_externs (in_memory_storage ascending) 5 demo_update_request
      (demo_content [4, 5] (demo_nonce 2)) demo_storage = (Inr m, s)"
    using demo_update_free
    by (simp add: update_commit_def in_memory_storage_def mem_update_message_eq [OF demo_storage_inv]
        demo_update_request_def demo_content_def)
  ultimately have "update_message ref_externs (in_memory_storage ascending) demo_env demo_context
      demo_update_request \<lparr>as_storage = demo_storage, as_notified = 0\<rparr>
      = (Some (Inr signed), \<lparr>as_storage = s, as_notified = 0\<rparr>)"
    by (simp add: update_message_def demo_update_check empty_reply_def Let_def)
  then show ?thesis
    by (subst demo_serve [where perm = MessagingEditor])
      (simp_all add: is_message_route_def authenticated_routes_def messages_route_def with_context_def
        extracted_def demo_extractors_def api_reply_def demo_update_body_def demo_create_body_def)
qed

lemma demo_serve_delete:
  "\<exists>st'. serve ref_externs demo_extractors (in_memory_membership io) (in_memory_storage ascending)
    default_config demo_env demo_members logs (demo_request DELETE (MessageById ''42'') [])
    \<lparr>as_storage = demo_storage, as_notified = 0\<rparr> = (Some (200, DeletedBody EmptyResponse), st')"
  by (subst demo_serve [where perm = MessagingDeleter])
    (simp_all add: is_message_route_def authenticated_routes_def message_by_id_route_def with_context_def
      extracted_def demo_extractors_def api_reply_def delete_message_def delete_check_def
      in_memory_storage_def mem_get_message_def mem_delete_message_def Let_def)

lemma demo_serve_get:
  "serve ref_externs demo_extractors (in_memory_membership io) (in_memory_storage ascending)
    default_config demo_env demo_members logs (demo_request GET (Messages ''id'') [])
    \<lparr>as_storage = demo_storage, as_notified = 0\<rparr>
    = (Some (200, MessagesBody (Single (message_response_from ref_externs demo_stored))),
       \<lparr>as_storage = demo_storage, as_notified = 0\<rparr>)"
  by (subst demo_serve [where perm = MessagingReader])
    (simp_all add: is_message_route_def authenticated_routes_def messages_route_def with_context_def
      extracted_def demo_extractors_def api_reply_def get_messages_def in_memory_storage_def
      mem_get_message_def)

section \<open>A publisher that answers every upload\<close>

text \<open>
  The text of the answer lists the identifiers of the uploaded parts; each character is preceded by a
  \<open>c\<close> and each identifier followed by a dot, so that it can be read back.
\<close>

definition write_ids :: "string list \<Rightarrow> string" where
  "write_ids ids = concat (map (\<lambda>i. concat (map (\<lambda>c. [CHR ''c'', c]) i) @ ''.'') ids)"

fun read_ids :: "string \<Rightarrow> string \<Rightarrow> string list" where
  "read_ids acc [] = []"
| "read_ids acc (x # s) =
     (if x = CHR ''.'' then acc # read_ids [] s
      else (case s of [] \<Rightarrow> [] | c # s' \<Rightarrow> read_ids (acc @ [c]) s'))"

lemma read_one: "read_ids acc (concat (map (\<lambda>c. [CHR ''c'', c]) i) @ CHR ''.'' # s) = (acc @ i) # read_ids [] s"
  by (induction i arbitrary: acc) simp_all

lemma read_write_ids: "read_ids [] (write_ids ids) = ids"
  by (induction ids) (simp_all add: write_ids_def read_one)

definition file_names :: "call_body \<Rightarrow> string list" where
  "file_names b =
     (case b of
        Multipart form \<Rightarrow> List.map_filter (\<lambda>(n, p). case p of FilePart i d \<Rightarrow> Some i | TextPart t \<Rightarrow> None) form
      | _ \<Rightarrow> [])"

lemma file_names_form:
  "file_names (Multipart (map (\<lambda>(i, d). (i, FilePart i d)) patches @ [(n, TextPart t)])) = map fst patches"
  by (induction patches) (auto simp: file_names_def List.map_filter_simps)

definition publisher_send :: sender where
  "publisher_send c =
     Inr \<lparr>ha_status = 200, ha_text = Inr (write_ids (file_names (hc_body c))), ha_bytes = Inr []\<rparr>"

definition publisher_codec :: walrus_codec where
  "publisher_codec = demo_walrus_codec\<lparr>wc_quilt := (\<lambda>a. Inr
     \<lparr>qs_blob_store_result = \<lparr>bs_newly_created = None, bs_already_certified = None\<rparr>,
      qs_stored_quilt_blobs = map (\<lambda>i. \<lparr>sp_identifier = i, sp_quilt_patch_id = ''patch-'' @ i, sp_range = None\<rparr>)
        (read_ids [] (unwrap_or [] (ok (ha_text a))))\<rparr>)\<rparr>"

end
