(* ===== verification/Message_Lifecycle.thy ===== *)
theory Message_Lifecycle
  imports System
begin

text \<open>
  The life of a stored message in the running relayer: which step can change it, and how. The five
  ways are the writers of the storage, each with the task that carries it out; what holds of stored
  messages beyond \<open>system_inv\<close> (their form, and that an uploaded message has a patch id) follows from
  that case analysis.
\<close>

section \<open>What a step does to one message\<close>

datatype message_change =
    Unchanged
  | Inserted
  | ContentUpdated auth_context update_message_request content datetime
  | MarkedDeleted auth_context datetime
  | StatusWritten sync_status string datetime

text \<open>The effect of a change, from what is stored under the id to what is stored afterwards.\<close>

fun change_effect :: "message_change \<Rightarrow> message option \<Rightarrow> message \<Rightarrow> bool" where
  "change_effect Unchanged old m' \<longleftrightarrow> old = Some m'"
| "change_effect Inserted old m' \<longleftrightarrow> old = None"
| "change_effect (ContentUpdated ctx req c now) old m' \<longleftrightarrow>
     (\<exists>m. old = Some m \<and> m' = update_content now (ct_encrypted_msg c) (ct_nonce c) (ur_key_version req)
        (ct_attachments c) (ct_signature c) (ct_public_key c) m)"
| "change_effect (MarkedDeleted ctx now) old m' \<longleftrightarrow> (\<exists>m. old = Some m \<and> m' = mark_for_deletion now m)"
| "change_effect (StatusWritten st p now) old m' \<longleftrightarrow>
     (\<exists>m. old = Some m \<and> m' = set_sync_status now st (Some p) m)"

text \<open>The task that carries a change out, for the message with id \<open>i\<close>.\<close>

fun change_task :: "'us externs \<Rightarrow> uuid \<Rightarrow> message \<Rightarrow> message_change \<Rightarrow> task \<Rightarrow> bool" where
  "change_task X i m' Unchanged t \<longleftrightarrow> True"
| "change_task X i m' Inserted t \<longleftrightarrow> t = CreateInsert m' \<and> msg_id m' = i"
| "change_task X i m' (ContentUpdated ctx req c now) t \<longleftrightarrow> t = UpdateCommit ctx req c \<and> ur_message_id req = i"
| "change_task X i m' (MarkedDeleted ctx now) t \<longleftrightarrow> t = DeleteCommit ctx i"
| "change_task X i m' (StatusWritten st p now) t \<longleftrightarrow>
     (\<exists>r msg msgs. t = StatusWrites st r (msg # msgs) \<and> msg_id msg = i \<and>
        get_patch_id r (patch_identifier X i) = Some p)"

definition step_change :: "'us externs \<Rightarrow> system \<Rightarrow> uuid \<Rightarrow> message \<Rightarrow> message_change \<Rightarrow> bool" where
  "step_change X sy i m' ch \<longleftrightarrow>
     change_effect ch (st_messages (sy_storage sy) i) m' \<and>
     (ch = Unchanged \<or> (\<exists>j t. sy_tasks sy j = Some t \<and> change_task X i m' ch t))"

lemma step_change_same:
  "st_messages (sy_storage sy) i = Some m' \<Longrightarrow> \<exists>ch. step_change X sy i m' ch"
  by (rule exI [of _ Unchanged]) (simp add: step_change_def)

lemma step_change_task:
  "change_effect ch (st_messages (sy_storage sy) i) m' \<Longrightarrow> sy_tasks sy j = Some t \<Longrightarrow>
     change_task X i m' ch t \<Longrightarrow> \<exists>ch. step_change X sy i m' ch"
  unfolding step_change_def by blast

lemma system_step_change:
  assumes step: "system_step P sy sy'" and inv: "mem_inv (sy_storage sy)"
    and new: "st_messages (sy_storage sy') i = Some m'"
  shows "\<exists>ch. step_change (su_externs P) sy i m' ch"
  using step
proof cases
  case (post_order j m k s)
  with new next_order_result(1) [OF inv post_order(3)] show ?thesis by (simp add: step_change_same)
next
  case (post_insert j m)
  from inv show ?thesis
  proof (cases rule: create_insert_result [where m = m])
    case failed
    with post_insert new show ?thesis by (simp add: step_change_same)
  next
    case stored
    with post_insert new show ?thesis
      by (cases "i = msg_id m") (auto intro: step_change_same step_change_task [of Inserted])
  qed
next
  case (put_commit j ctx req c now)
  show ?thesis
  proof (cases "ur_message_id req = i")
    case True
    with put_commit new inv show ?thesis
      by (auto simp: update_commit_def in_memory_storage_def mem_update_message_eq
          intro: step_change_same step_change_task [of "ContentUpdated ctx req c now"]
          split: option.splits if_splits)
  next
    case False
    with put_commit new inv show ?thesis
      by (auto simp: update_commit_def in_memory_storage_def mem_update_message_eq
          intro: step_change_same split: option.splits if_splits)
  qed
next
  case (delete_commit j ctx mid now)
  with new inv show ?thesis
    by (cases "st_messages (sy_storage sy) mid"; cases "mid = i")
      (auto simp: mem_delete_message_def Let_def
        intro: step_change_same step_change_task [of "MarkedDeleted ctx now"])
next
  case (sync_write j st r msg msgs clock)
  show ?thesis
  proof (cases "get_patch_id r (patch_identifier (su_externs P) (msg_id msg))")
    case None
    with sync_write new show ?thesis by (simp add: step_change_same)
  next
    case (Some p)
    with sync_write new inv show ?thesis
      by (cases "msg_id msg = i"; cases "st_messages (sy_storage sy) (msg_id msg)")
        (auto simp: in_memory_storage_def mem_update_sync_status_eq
          intro: step_change_same step_change_task [of "StatusWritten st p (clock i)"])
  qed
qed (use new in \<open>simp_all add: step_change_same\<close>)

section \<open>The form of stored messages\<close>

text \<open>An uploaded message has the patch it was uploaded as.\<close>

definition patched :: "message \<Rightarrow> bool" where
  "patched m \<longleftrightarrow> (msg_sync_status m \<in> {Synced, Updated, Deleted} \<longrightarrow> msg_quilt_patch_id m \<noteq> None)"

definition all_patched :: "system \<Rightarrow> bool" where
  "all_patched sy \<longleftrightarrow>
     (\<forall>i m. st_messages (sy_storage sy) i = Some m \<longrightarrow> patched m) \<and>
     (\<forall>j m. sy_tasks sy j = Some (CreateOrder m) \<or> sy_tasks sy j = Some (CreateInsert m) \<longrightarrow>
        msg_sync_status m = SyncPending)"

lemma change_effect_patched:
  assumes "change_effect ch old m'" and "\<And>m. old = Some m \<Longrightarrow> patched m"
    and "ch = Inserted \<Longrightarrow> patched m'"
  shows "patched m'"
  using assms
  by (cases ch) (auto simp: patched_def update_content_def mark_for_deletion_def set_sync_status_def Let_def)

lemma create_tasks_pending:
  assumes "system_step P sy sy'"
    and "\<And>j m. sy_tasks sy j = Some (CreateOrder m) \<or> sy_tasks sy j = Some (CreateInsert m) \<Longrightarrow>
      msg_sync_status m = SyncPending"
    and "sy_tasks sy' j = Some (CreateOrder m) \<or> sy_tasks sy' j = Some (CreateInsert m)"
  shows "msg_sync_status m = SyncPending"
  using assms(1,3)
  by cases
    (auto simp: set_order_def create_prepare_fields(4) intro: assms(2) [OF disjI1] assms(2) split: if_splits)

lemma all_patched_step:
  assumes "system_step P sy sy'" and "mem_inv (sy_storage sy)" and "all_patched sy"
  shows "all_patched sy'"
proof -
  note pending = assms(3) [unfolded all_patched_def, THEN conjunct2, rule_format]
  have "patched m'" if "st_messages (sy_storage sy') i = Some m'" for i m'
  proof -
    from system_step_change [OF assms(1,2) that] obtain ch where ch: "step_change (su_externs P) sy i m' ch" ..
    then have eff: "change_effect ch (st_messages (sy_storage sy) i) m'" by (simp add: step_change_def)
    show ?thesis
    proof (rule change_effect_patched [OF eff])
      show "patched m" if "st_messages (sy_storage sy) i = Some m" for m
        using assms(3) that by (simp add: all_patched_def)
      assume "ch = Inserted"
      with ch obtain j where "sy_tasks sy j = Some (CreateInsert m')" by (auto simp: step_change_def)
      with pending [of j m'] show "patched m'" by (simp add: patched_def)
    qed
  qed
  moreover have "msg_sync_status m = SyncPending"
    if "sy_tasks sy' j = Some (CreateOrder m) \<or> sy_tasks sy' j = Some (CreateInsert m)" for j m
    using create_tasks_pending [OF assms(1) pending that] .
  ultimately show ?thesis by (simp add: all_patched_def)
qed

lemma reachable_patched:
  assumes "reachable P n sy" and "int n < 2 ^ 63"
    and "bodies_agree (su_extractors P)" and "hash_order (su_order_of P)"
  shows "all_patched sy"
  using assms(1,2)
proof induction
  case start
  show ?case by (simp add: all_patched_def initial_system_def new_storage_def)
next
  case (more n sy sy')
  from more.prems have n: "int n < 2 ^ 63" by simp
  from all_patched_step [OF more.hyps(2) system_invD(1) [OF reachable_inv [OF more.hyps(1) n assms(3,4)]]
      more.IH [OF n]]
  show ?case .
qed

text \<open>What the sizes of an authentic message are.\<close>

lemma authentic_sizes:
  assumes "authentic X m"
  shows "length (msg_nonce m) = 12" and "length (msg_signature m) = 64"
    and "\<exists>scheme. hd (msg_public_key m) = scheme_flag scheme \<and>
      length (msg_public_key m) = Suc (public_key_length scheme)"
  using assms by (auto simp: authentic_def signature_valid_def)

section \<open>Properties\<close>

text \<open>
  C21. Every stored message is well formed, in every state the relayer can reach: its nonce has 12 bytes, its
  signature 64, its key is the flag of one of the three schemes followed by a key of that scheme's
  length, from which its sender's address derives; and a message that counts as uploaded (synced,
  updated or deleted on Walrus) has the patch id under which it can be read there.
\<close>
theorem stored_messages_well_formed:
  assumes "reachable P n sy" and "int n < 2 ^ 63"
    and "bodies_agree (su_extractors P)" and "hash_order (su_order_of P)"
    and "st_messages (sy_storage sy) i = Some m"
  shows "length (msg_nonce m) = 12 \<and> length (msg_signature m) = 64 \<and>
    (\<exists>scheme. from_flag (hd (msg_public_key m)) = Some scheme \<and>
      length (msg_public_key m) = Suc (public_key_length scheme) \<and>
      derive_sui_address (su_externs P) (tl (msg_public_key m)) scheme = Inr (msg_sender_wallet_addr m)) \<and>
    (msg_sync_status m \<in> {Synced, Updated, Deleted} \<longrightarrow> msg_quilt_patch_id m \<noteq> None)"
proof -
  from system_invD(2) [OF reachable_inv [OF assms(1-4)]] assms(5)
  have auth: "authentic (su_externs P) m" by (simp add: all_authentic_def)
  moreover from reachable_patched [OF assms(1-4)] assms(5) have "patched m" by (simp add: all_patched_def)
  ultimately show ?thesis
    using authentic_sizes(1,2) [OF auth] by (auto simp: authentic_def signature_valid_def patched_def)
qed

text \<open>
  C11. The states of a stored message change only in three ways. When a step of a reachable system changes
  the status of a message, then either the author's accepted update makes it pending for update, or
  the author's accepted deletion makes it pending for deletion, or the Walrus worker, past an upload
  whose answer names a patch for the message, writes one of the three final states together with that
  patch id. No message goes back to its first state.
\<close>
theorem status_transitions:
  assumes "reachable P n sy" and "int n < 2 ^ 63"
    and "bodies_agree (su_extractors P)" and "hash_order (su_order_of P)"
    and "system_step P sy sy'"
    and "st_messages (sy_storage sy) i = Some m" and "st_messages (sy_storage sy') i = Some m'"
    and "msg_sync_status m' \<noteq> msg_sync_status m"
  shows "(\<exists>j ctx req c. sy_tasks sy j = Some (UpdateCommit ctx req c) \<and> ur_message_id req = i \<and>
      ac_sender_address ctx = msg_sender_wallet_addr m \<and> msg_sync_status m' = UpdatePending) \<or>
    (\<exists>j ctx. sy_tasks sy j = Some (DeleteCommit ctx i) \<and>
      ac_sender_address ctx = msg_sender_wallet_addr m \<and> msg_sync_status m' = DeletePending) \<or>
    (\<exists>j st r msg msgs p. sy_tasks sy j = Some (StatusWrites st r (msg # msgs)) \<and> msg_id msg = i \<and>
      get_patch_id r (patch_identifier (su_externs P) i) = Some p \<and> st \<in> {Synced, Updated, Deleted} \<and>
      msg_sync_status m' = st \<and> msg_quilt_patch_id m' = Some p)"
proof -
  note inv = reachable_inv [OF assms(1-4)]
  from system_step_change [OF assms(5) system_invD(1) [OF inv] assms(7)] obtain ch where
    ch: "step_change (su_externs P) sy i m' ch" ..
  show ?thesis
  proof (cases ch)
    case (ContentUpdated ctx req c now)
    with ch obtain j where j: "sy_tasks sy j = Some (UpdateCommit ctx req c)" "ur_message_id req = i"
      by (auto simp: step_change_def)
    with system_inv_task [OF inv j(1)] ch ContentUpdated assms(6) show ?thesis
      by (auto simp: step_change_def update_content_def)
  next
    case (MarkedDeleted ctx now)
    with ch obtain j where j: "sy_tasks sy j = Some (DeleteCommit ctx i)" by (auto simp: step_change_def)
    with system_inv_task [OF inv j] ch MarkedDeleted assms(6) show ?thesis
      by (auto simp: step_change_def mark_for_deletion_def)
  next
    case (StatusWritten st p now)
    with ch obtain j r msg msgs where j: "sy_tasks sy j = Some (StatusWrites st r (msg # msgs))"
        "msg_id msg = i" "get_patch_id r (patch_identifier (su_externs P) i) = Some p"
      by (auto simp: step_change_def)
    have "st \<in> {Synced, Updated, Deleted}" using system_inv_task [OF inv j(1)] by simp
    moreover have "msg_sync_status m' = st" "msg_quilt_patch_id m' = Some p"
      using ch StatusWritten assms(6) by (auto simp: step_change_def set_sync_status_def Let_def)
    ultimately show ?thesis using j by blast
  qed (use ch assms(6,8) in \<open>simp_all add: step_change_def\<close>)
qed

end
