(* ===== verification/Pagination.thy ===== *)
theory Pagination
  imports Handlers Memory_Storage
begin

text \<open>
  Reading a group page by page, in the way the documentation of \<open>get_messages_by_group\<close>
  (\<open>src/relayer/src/storage/adapter.rs\<close>) and of the list response describe: ask for messages after the last order seen, as
  long as \<open>has_next\<close> is set. The loop is the client's; each round is one call of \<open>get_messages\<close>.
\<close>

definition page_query :: "string \<Rightarrow> nat \<Rightarrow> i64 option \<Rightarrow> get_messages_query" where
  "page_query g limit after =
     \<lparr>q_message_id = None, q_group_id = Some g, q_after_order = after, q_before_order = None,
      q_limit = Some limit\<rparr>"

text \<open>
  \<open>read_pages k\<close> makes at most \<open>k\<close> calls; \<open>None\<close>: more would be needed, or a call failed. A page without
  messages leaves the position where it was.
\<close>

fun read_pages ::
  "'us externs \<Rightarrow> 's storage_adapter \<Rightarrow> auth_context \<Rightarrow> string \<Rightarrow> nat \<Rightarrow> 's \<Rightarrow> nat \<Rightarrow> i64 option
   \<Rightarrow> message_response list option" where
  "read_pages X SA auth g limit s 0 after = None"
| "read_pages X SA auth g limit s (Suc k) after =
     (case get_messages X SA auth (page_query g limit after) s of
        Inr (Listing r) \<Rightarrow>
          if lr_has_next r then
            map_option (\<lambda>rest. lr_messages r @ rest)
              (read_pages X SA auth g limit s k
                (if lr_messages r = [] then after else Some (mr_order (last (lr_messages r)))))
          else Some (lr_messages r)
      | _ \<Rightarrow> None)"

section \<open>Lists in strict order\<close>

lemma strict_key_unique:
  fixes f :: "'a \<Rightarrow> int"
  assumes "sorted_wrt (<) (map f xs)" and "sorted_wrt (<) (map f ys)" and "set xs = set ys"
  shows "xs = ys"
proof (rule map_sorted_distinct_set_unique)
  from assms(1) show "sorted (map f xs)" "distinct (map f xs)" by (simp_all add: strict_sorted_iff)
  then show "inj_on f (set xs \<union> set ys)" using assms(3) by (simp add: distinct_map)
  from assms(2) show "sorted (map f ys)" "distinct (map f ys)" by (simp_all add: strict_sorted_iff)
qed (rule assms(3))

lemma set_drop_nth: "x \<in> set (drop n xs) \<longleftrightarrow> (\<exists>j\<ge>n. j < length xs \<and> xs ! j = x)"
proof
  assume "x \<in> set (drop n xs)"
  then obtain i where "i < length xs - n" "xs ! (n + i) = x" by (auto simp: in_set_conv_nth)
  then show "\<exists>j\<ge>n. j < length xs \<and> xs ! j = x" by (intro exI [of _ "n + i"]) simp
next
  assume "\<exists>j\<ge>n. j < length xs \<and> xs ! j = x"
  then obtain j where "n \<le> j" "j < length xs" "xs ! j = x" by blast
  then have "j - n < length (drop n xs)" and "drop n xs ! (j - n) = x" by simp_all
  then show "x \<in> set (drop n xs)" by (metis nth_mem)
qed

lemma last_take_nth: "0 < n \<Longrightarrow> n < length xs \<Longrightarrow> last (take n xs) = xs ! (n - 1)"
  by (subst last_conv_nth) auto

lemma strict_key_drop:
  fixes f :: "'a \<Rightarrow> int"
  assumes "sorted_wrt (<) (map f xs)" and "0 < n" and "n \<le> length xs"
  shows "set (drop n xs) = {x \<in> set xs. f (xs ! (n - 1)) < f x}"
proof -
  have less: "f (xs ! i) < f (xs ! j)" if "i < j" "j < length xs" for i j
    using assms(1) that by (simp add: sorted_wrt_iff_nth_less)
  have "x \<in> set (drop n xs) \<longleftrightarrow> f (xs ! (n - 1)) < f x" if "x \<in> set xs" for x
  proof -
    from that obtain i where i: "i < length xs" "x = xs ! i" by (auto simp: in_set_conv_nth)
    note drop = set_drop_nth [of x n xs]
    show ?thesis
    proof (cases "n \<le> i")
      case True
      then have "f (xs ! (n - 1)) < f x" using less [of "n - 1" i] i assms(2) by simp
      with drop True i show ?thesis by blast
    next
      case False
      then consider "i = n - 1" | "i < n - 1" by linarith
      moreover have "n - 1 < length xs" using assms(2,3) by simp
      ultimately have "f x \<le> f (xs ! (n - 1))"
        using less [of i "n - 1"] i by cases (simp_all add: less_imp_le)
      moreover have "xs ! j \<noteq> x" if "n \<le> j" "j < length xs" for j
        using less [of i j] that False i by force
      ultimately show ?thesis using drop by auto
    qed
  qed
  then show ?thesis by (auto dest: in_set_dropD)
qed

section \<open>All pages of a group\<close>

lemma mr_order_key: "sint (mr_order (message_response_from X m)) = order_key m"
  by (simp add: message_response_from_def Let_def order_key_def)

lemma in_page_None: "P \<and> in_page None None m \<longleftrightarrow> P"
  by (simp add: in_page_def)

context storage_contract
begin

lemma one_page:
  assumes "inv s" and "ac_authorized_group auth = Some g"
  obtains page where "set page = {m \<in> ran (table s). msg_group_id m = g \<and> in_page after None m}"
    and "sorted_wrt (<) (map order_key page)"
    and "get_messages X SA auth (page_query g limit after) s =
      Inr (Listing \<lparr>lr_messages = map (message_response_from X) (take (min limit 100) page),
        lr_has_next = (min limit 100 < length page)\<rparr>)"
  using get_page [OF assms(1) _ _ assms(2), of "page_query g limit after" X]
  by (auto simp: page_query_def DEFAULT_PAGE_LIMIT_def MAX_PAGE_LIMIT_def)

text \<open>What is left after a page is what the next request asks for.\<close>

lemma next_page:
  assumes page: "set page = {m \<in> ran (table s). msg_group_id m = g \<and> in_page after None m}"
    and sorted: "sorted_wrt (<) (map order_key page)" and n: "0 < n" "n < length page"
  shows "set (drop n page) = {m \<in> ran (table s). msg_group_id m = g \<and>
    in_page (Some (mr_order (message_response_from X (page ! (n - 1))))) None m}"
proof -
  let ?m = "page ! (n - 1)"
  have "?m \<in> set page" using n by simp
  then have "in_page after None ?m" using page by simp
  then have above: "in_page after None m" if "order_key ?m < order_key m" for m
    using that by (cases after) (simp_all add: in_page_def)
  have "set (drop n page) = {m \<in> set page. order_key ?m < order_key m}"
    using strict_key_drop [OF sorted n(1)] n(2) by simp
  then show ?thesis using page above by (auto simp: in_page_def mr_order_key)
qed

lemma read_pages_suffix:
  assumes "inv s" and "ac_authorized_group auth = Some g" and "0 < limit"
    and "set page = {m \<in> ran (table s). msg_group_id m = g \<and> in_page after None m}"
    and "sorted_wrt (<) (map order_key page)" and "length page \<le> Suc k * min limit 100"
  shows "read_pages X SA auth g limit s (Suc k) after = Some (map (message_response_from X) page)"
  using assms(4-6)
proof (induction k arbitrary: page after)
  case 0
  from one_page [OF assms(1,2), of after X limit] obtain page' where
    page': "set page' = set page" "sorted_wrt (<) (map order_key page')"
    and get: "get_messages X SA auth (page_query g limit after) s =
      Inr (Listing \<lparr>lr_messages = map (message_response_from X) (take (min limit 100) page'),
        lr_has_next = (min limit 100 < length page')\<rparr>)"
    using "0.prems"(1) by auto
  from strict_key_unique [OF page'(2) "0.prems"(2) page'(1)] get "0.prems"(3) show ?case by simp
next
  case (Suc k)
  let ?n = "min limit 100"
  from one_page [OF assms(1,2), of after X limit] obtain page' where
    page': "set page' = set page" "sorted_wrt (<) (map order_key page')"
    and get': "get_messages X SA auth (page_query g limit after) s =
      Inr (Listing \<lparr>lr_messages = map (message_response_from X) (take ?n page'),
        lr_has_next = (?n < length page')\<rparr>)"
    using Suc.prems(1) by auto
  from strict_key_unique [OF page'(2) Suc.prems(2) page'(1)] get' have
    get: "get_messages X SA auth (page_query g limit after) s =
      Inr (Listing \<lparr>lr_messages = map (message_response_from X) (take ?n page),
        lr_has_next = (?n < length page)\<rparr>)" by simp
  show ?case
  proof (cases "?n < length page")
    case False
    with get show ?thesis by (simp add: not_less)
  next
    case True
    have n: "0 < ?n" and nz: "(?n = 0) = False" using assms(3) by simp_all
    let ?m = "page ! (?n - 1)"
    have taken: "take ?n page \<noteq> []" "last (take ?n page) = ?m"
      using last_take_nth [OF n True] n True by auto
    let ?after = "Some (mr_order (message_response_from X ?m))"
    have rest: "read_pages X SA auth g limit s (Suc k) ?after =
        Some (map (message_response_from X) (drop ?n page))"
      using Suc.prems(2,3) next_page [OF Suc.prems(1,2) n True, of X]
      by (intro Suc.IH) (auto simp: drop_map [symmetric] sorted_wrt_drop)
    have step: "read_pages X SA auth g limit s (Suc (Suc k)) after =
        map_option (\<lambda>rest. map (message_response_from X) (take ?n page) @ rest)
          (read_pages X SA auth g limit s (Suc k) ?after)"
      using get True taken by (subst read_pages.simps) (simp add: last_map nz del: read_pages.simps)
    show ?thesis
      unfolding step rest by (simp flip: map_append)
  qed
qed

lemma read_pages_zero_limit:
  assumes "inv s" and "ac_authorized_group auth = Some g"
    and "\<exists>m\<in>ran (table s). msg_group_id m = g"
  shows "read_pages X SA auth g 0 s k None = None"
proof (induction k)
  case (Suc k)
  obtain page where
    page: "set page = {m \<in> ran (table s). msg_group_id m = g \<and> in_page None None m}"
    and get: "get_messages X SA auth (page_query g 0 None) s =
      Inr (Listing \<lparr>lr_messages = map (message_response_from X) (take (min 0 100) page),
        lr_has_next = (min 0 100 < length page)\<rparr>)"
    by (rule one_page [OF assms(1,2), of None X 0])
  have "page \<noteq> []" using page assms(3) by (auto simp: in_page_def)
  with get Suc.IH show ?case by simp
qed simp

end

section \<open>Properties\<close>

text \<open>
  C15. Reading page by page ends and misses nothing. With any limit from 1 on, a reader who asks for the
  messages after the last order seen until \<open>has_next\<close> is unset gets, within \<open>n div l + 1\<close> calls for a
  group of \<open>n\<close> messages, where \<open>l\<close> is the limit or 100 if the limit is higher (the server caps a page at
  100), every message of the group exactly once, in ascending order. With limit 0 the pages of a
  non-empty group are empty but claim to have a successor, and the reading never ends.
\<close>
theorem pages_cover_group:
  assumes "hash_order order_of" and "mem_inv s" and "ac_authorized_group auth = Some g"
  shows "(\<exists>all. set all = {m \<in> ran (st_messages s). msg_group_id m = g} \<and>
      sorted_wrt (\<lambda>x y. order_key x < order_key y) all \<and>
      (0 < limit \<longrightarrow>
        read_pages X (in_memory_storage order_of) auth g limit s (Suc (length all div min limit 100)) None =
          Some (map (message_response_from X) all))) \<and>
    ((\<exists>m\<in>ran (st_messages s). msg_group_id m = g) \<longrightarrow>
      read_pages X (in_memory_storage order_of) auth g 0 s k None = None)"
proof -
  note contract = hash_order.meets_contract [OF assms(1)]
  obtain all where all': "set all = {m \<in> ran (st_messages s). msg_group_id m = g \<and> in_page None None m}"
    and sorted: "sorted_wrt (<) (map order_key all)"
    by (rule storage_contract.one_page [OF contract assms(2,3), of None X limit])
  note all = all' [unfolded in_page_None] sorted
  have "read_pages X (in_memory_storage order_of) auth g limit s (Suc (length all div min limit 100)) None =
      Some (map (message_response_from X) all)" if "0 < limit"
  proof (rule storage_contract.read_pages_suffix [OF contract assms(2,3) that _ all(2)])
    show "set all = {m \<in> ran (st_messages s). msg_group_id m = g \<and> in_page None None m}"
      by (rule all')
    show "length all \<le> Suc (length all div min limit 100) * min limit 100"
      using that dividend_less_div_times [of "min limit 100" "length all"] by (simp add: algebra_simps)
  qed
  moreover have "sorted_wrt (\<lambda>x y. order_key x < order_key y) all" using all(2) by (simp add: sorted_wrt_map)
  ultimately show ?thesis
    using all(1) storage_contract.read_pages_zero_limit [OF contract assms(2,3), of X k]
    by (intro conjI impI exI [of _ all]) simp_all
qed

end
