(* ===== verification/Signed_Texts.thy ===== *)
theory Signed_Texts
  imports Middleware Handlers Membership_Sync
begin

text \<open>
  The three kinds of text a client signs, all as Sui personal messages with the same key: the body of a
  request (\<open>src/relayer/src/auth/middleware.rs\<close>), the canonical text of a request without a body (same
  file), and the canonical text of a message (\<open>src/relayer/src/handlers/messages/handlers.rs\<close>). Message
  signatures are handed out to every reader of the group, so none of them must pass for a request.
\<close>

section \<open>How the texts begin\<close>

text \<open>What \<open>serde_json\<close> accepts for a struct is not a number: it starts with a bracket or white space.\<close>

definition struct_text :: "(bytes \<Rightarrow> (string, body_auth_fields) result) \<Rightarrow> bool" where
  "struct_text parse \<longleftrightarrow>
     (\<forall>b f. parse b = Inr f \<longrightarrow> (\<exists>c rest. b = of_char c # rest \<and> \<not> is_digit c \<and> c \<noteq> CHR ''-''))"

definition numeric :: "char \<Rightarrow> bool" where
  "numeric c \<longleftrightarrow> is_digit c \<or> c = CHR ''-''"

lemma show_i64_numeric: "c \<in> set (show_i64 w) \<Longrightarrow> numeric c"
  using show_nat_digits [of "nat (- sint w)"] show_nat_digits [of "nat (sint w)"]
  by (auto simp: show_i64_def show_int_def numeric_def split: if_splits)

lemma show_i64_not_Nil: "show_i64 w \<noteq> []"
  by (simp add: show_i64_def show_int_def)

lemma canonical_headers_start:
  "\<exists>c rest. canonical_headers t a g = c # rest \<and> numeric c \<and> rest \<noteq> [] \<and>
     (numeric (hd rest) \<or> hd rest = CHR '':'')"
proof -
  obtain c cs where c: "show_i64 t = c # cs" using show_i64_not_Nil by (cases "show_i64 t") auto
  have "numeric c" "\<forall>d\<in>set cs. numeric d" using show_i64_numeric [of _ t] by (auto simp: c)
  then show ?thesis by (cases cs) (auto simp: canonical_headers_def c)
qed

lemma canonical_message_start:
  "\<exists>rest. canonical_message (hex_id X bs) e n k = CHR ''0'' # CHR ''x'' # rest"
  by (simp add: canonical_message_def hex_id_def)

lemma of_char_u8: "(of_char c :: u8) = of_char d \<longleftrightarrow> c = d"
  by (rule of_char_u8_inject)

section \<open>Properties\<close>

text \<open>
  C22. The three kinds of text that clients sign never coincide. For a group in which anybody holds a
  permission, whatever the history of the chain: the canonical text of a message in that group, the
  text that authenticates a request without a body, and a body that parses are three different byte
  sequences. The signature that readers get with a message is therefore never a signature over the
  text of a request. Within one kind this separates nothing: the text of a request without a body
  names neither its method nor a message, so \<open>GET\<close> and \<open>DELETE\<close> are signed by the same text.
\<close>
theorem signed_texts_disjoint:
  assumes "struct_text parse"
    and "has_permission (snd (run_sessions X B (in_memory_membership io) subs
      (new_sync_service pkg, new_members))) g a p"
    and "header_claim X headers = Inr c" and "parse body = Inr f"
  shows "distinct [cl_message_bytes c, body, as_bytes (canonical_message g e n k)]"
proof -
  from assms(2) mem.has_permission_history [of new_members io X B subs pkg g a p]
  have "granted_by g a p (applied_events X B pkg subs)" by (simp add: in_memory_membership_def)
  from held_group_id [OF this] obtain bs where g: "g = hex_id X bs" ..
  define z x where zx: "z = CHR ''0''" "x = CHR ''x''"
  have nz: "numeric z" "\<not> numeric x" "x \<noteq> CHR '':''" by (simp_all add: zx numeric_def is_digit_def)
  obtain rest where m: "canonical_message g e n k = z # x # rest"
    using canonical_message_start g zx by blast
  from assms(3) obtain t a' g' where "cl_message_bytes c = as_bytes (canonical_headers t a' g')"
    by (auto simp: header_claim_Inr_iff)
  with canonical_headers_start [of t a' g'] obtain d d' ds where
    h: "cl_message_bytes c = as_bytes (d # d' # ds)" "numeric d" and "numeric d' \<or> d' = CHR '':''"
    by (metis list.exhaust_sel)
  with nz have "d' \<noteq> x" by blast
  moreover from assms(1,4) obtain b bs' where b: "body = of_char b # bs'" "\<not> numeric b"
    by (auto simp: struct_text_def numeric_def)
  ultimately show ?thesis using h nz m by (auto simp: as_bytes_def of_char_u8)
qed

end
