(* ===== verification/Worker_Progress.thy ===== *)
theory Worker_Progress
  imports Walrus_Sync Memory_Storage
begin

text \<open>
  What the Walrus worker achieves on the in-memory storage when no other request comes between: the
  effect of one workflow, and how a backlog shrinks while the publisher answers.
\<close>

section \<open>One workflow\<close>

lemma workflow_effect:
  assumes "hash_order order_of" and "mem_inv s"
    and "mem_get_messages_by_sync_status order_of st (ws_batch_size sv) s = Inr found"
    and "sync_upload X ser W sv (wi_send io) st' found = Inr (Some r)"
  shows "\<exists>s'. sync_messages X (in_memory_storage order_of) ser W sv io st st' s = (Inr (), s') \<and> mem_inv s' \<and>
    dom (st_messages s') = dom (st_messages s) \<and>
    (\<forall>i m. st_messages s i = Some m \<longrightarrow>
      st_messages s' i = Some
        (case get_patch_id r (patch_identifier X i) of
           Some p \<Rightarrow> if m \<in> set found
             then m\<lparr>msg_sync_status := st', msg_updated_at := wi_clock io i, msg_quilt_patch_id := Some p\<rparr>
             else m
         | None \<Rightarrow> m))"
proof -
  note contract = hash_order.meets_contract [OF assms(1)]
  have stored: "st_messages s (msg_id m) = Some m" if "m \<in> set found" for m
  proof -
    from storage_contract.by_status [OF contract assms(2), of st "ws_batch_size sv"] assms(3) that
    have "m \<in> ran (st_messages s)" by (auto dest: in_set_takeD)
    then obtain j where "st_messages s j = Some m" by (auto simp: ran_def)
    with assms(2) show ?thesis by (auto simp: mem_inv_def keys_ok_def)
  qed
  have "found \<noteq> []" using assms(4) by (auto simp: sync_upload_def)
  then have run: "sync_messages X (in_memory_storage order_of) ser W sv io st st' s =
      (Inr (), update_statuses X (in_memory_storage order_of) (wi_clock io) r st' found s)"
    using assms(3,4) by (simp add: sync_messages_def)
  let ?s' = "update_statuses X (in_memory_storage order_of) (wi_clock io) r st' found s"
  from storage_contract.update_statuses_table [OF contract assms(2)]
  have inv: "mem_inv ?s'" and table: "st_messages ?s' = synced_table X (wi_clock io) r st' found (st_messages s)"
    by blast+
  have moved: "st_messages ?s' i = Some
        (case get_patch_id r (patch_identifier X i) of
           Some p \<Rightarrow> if m \<in> set found
             then m\<lparr>msg_sync_status := st', msg_updated_at := wi_clock io i, msg_quilt_patch_id := Some p\<rparr>
             else m
         | None \<Rightarrow> m)" if m: "st_messages s i = Some m" for i m
  proof -
    have key: "msg_id m = i" using m assms(2) by (auto simp: mem_inv_def keys_ok_def)
    have "x = m" if "x \<in> set found" "msg_id x = i" for x
      using stored [OF that(1)] that(2) m by simp
    with key have batch: "i \<in> msg_id ` set found \<longleftrightarrow> m \<in> set found" by blast
    show ?thesis
      unfolding table synced_table_def patch_of_def batch m
      by (cases "get_patch_id r (patch_identifier X i)") (simp_all add: set_sync_status_def)
  qed
  have "dom (st_messages ?s') = dom (st_messages s)"
    by (auto simp: table synced_table_def split: option.splits)
  with run inv moved show ?thesis by blast
qed

text \<open>
  A status write of the batch \<open>found\<close> onto a storage that has changed since: a message of the batch with a
  patch id gets the status over whatever it has become, and no later event of the worker changes it.
\<close>

lemma late_write_settles:
  assumes "hash_order order_of" and "mem_inv s" and "st_messages s i = Some m"
    and "i \<in> msg_id ` set found" and "get_patch_id r (patch_identifier X i) = Some p"
    and "st' \<notin> {SyncPending, UpdatePending, DeletePending}"
  shows "let w = update_statuses X (in_memory_storage order_of) clock r st' found s;
      m' = m\<lparr>msg_sync_status := st', msg_updated_at := clock i, msg_quilt_patch_id := Some p\<rparr>
    in st_messages w i = Some m' \<and>
      st_messages (snd (worker_run X (in_memory_storage order_of) ser W sv events (n, w))) i = Some m'"
proof -
  note contract = hash_order.meets_contract [OF assms(1)]
  let ?w = "update_statuses X (in_memory_storage order_of) clock r st' found s"
  from storage_contract.update_statuses_table [OF contract assms(2)]
  have inv: "mem_inv ?w" and "st_messages ?w = synced_table X clock r st' found (st_messages s)"
    by blast+
  with assms(3-5) have m': "st_messages ?w i = Some (set_sync_status (clock i) st' (Some p) m)"
    by (simp add: synced_table_def patch_of_def)
  from storage_contract.worker_run_settled [OF contract inv m'] assms(6) m'
  show ?thesis by (simp add: set_sync_status_def Let_def)
qed

section \<open>Uploads that are answered\<close>

text \<open>
  Walrus answers every upload with a 2xx status and a patch id for each identifier it was sent, and
  the serializers do not fail.
\<close>

definition walrus_answers ::
  "(message \<Rightarrow> (string, bytes) result) \<Rightarrow> walrus_codec \<Rightarrow> sender \<Rightarrow> bool" where
  "walrus_answers ser W send \<longleftrightarrow>
     (\<forall>m. is_ok (ser m)) \<and> (\<forall>meta. is_ok (wc_metadata W meta)) \<and>
     (\<forall>url patches meta_json. \<exists>answer r.
        send \<lparr>hc_method = CallPut, hc_url = url,
              hc_body = Multipart (map (\<lambda>(i, d). (i, FilePart i d)) patches
                @ [(''_metadata'', TextPart meta_json)])\<rparr> = Inr answer \<and>
        is_success (ha_status answer) \<and> wc_quilt W answer = Inr r \<and>
        (\<forall>p\<in>set patches. get_patch_id r (fst p) \<noteq> None))"

lemma is_ok_iff: "is_ok r \<longleftrightarrow> (\<exists>x. r = Inr x)"
  by (cases r) simp_all

lemma upload_answered:
  assumes "walrus_answers ser W send" and "msgs \<noteq> []"
  shows "\<exists>r. sync_upload X ser W sv send st msgs = Inr (Some r) \<and>
    (\<forall>m\<in>set msgs. get_patch_id r (patch_identifier X (msg_id m)) \<noteq> None)"
proof -
  let ?patches = "fst (build_patches X ser st msgs)" and ?meta = "snd (build_patches X ser st msgs)"
  obtain meta_json where meta: "wc_metadata W ?meta = Inr meta_json"
    using assms(1) unfolding walrus_answers_def is_ok_iff by blast
  from assms(1) obtain answer r where
    a: "send \<lparr>hc_method = CallPut,
        hc_url = wl_publisher_url (ws_walrus_client sv) @ ''/v1/quilts?epochs='' @ show_nat (ws_storage_epochs sv),
        hc_body = Multipart (map (\<lambda>(i, d). (i, FilePart i d)) ?patches @ [(''_metadata'', TextPart meta_json)])\<rparr>
        = Inr answer" "is_success (ha_status answer)" "wc_quilt W answer = Inr r"
    and ids: "\<forall>p\<in>set ?patches. get_patch_id r (fst p) \<noteq> None"
    unfolding walrus_answers_def by blast
  have patch: "\<exists>d. (patch_identifier X (msg_id m), d) \<in> set ?patches" if "m \<in> set msgs" for m
  proof -
    obtain d where "ser (m\<lparr>msg_sync_status := st\<rparr>) = Inr d"
      using assms(1) unfolding walrus_answers_def is_ok_iff by blast
    with that show ?thesis unfolding build_patches_set by blast
  qed
  from assms(2) patch have "?patches \<noteq> []" by (cases msgs) fastforce+
  with meta a have "sync_upload X ser W sv send st msgs = Inr (Some r)"
    unfolding sync_upload_Inr_iff store_quilt_Inr_iff by blast
  moreover have "get_patch_id r (patch_identifier X (msg_id m)) \<noteq> None" if "m \<in> set msgs" for m
    using patch [OF that] ids by fastforce
  ultimately show ?thesis by blast
qed

section \<open>The backlog\<close>

definition pending_ids :: "sync_status \<Rightarrow> mem_storage \<Rightarrow> uuid set" where
  "pending_ids st s = {i. \<exists>m. st_messages s i = Some m \<and> msg_sync_status m = st}"

text \<open>An answered workflow moves \<open>moved\<close>, and no other message, from \<open>st\<close> to \<open>st'\<close>.\<close>

definition moves :: "sync_status \<Rightarrow> sync_status \<Rightarrow> uuid set \<Rightarrow> mem_storage \<Rightarrow> mem_storage \<Rightarrow> bool" where
  "moves st st' moved s s' \<longleftrightarrow> mem_inv s' \<and> dom (st_messages s') = dom (st_messages s) \<and>
     (\<forall>i m. st_messages s i = Some m \<longrightarrow> (\<exists>m'. st_messages s' i = Some m' \<and>
        msg_sync_status m' = (if i \<in> moved then st' else msg_sync_status m)))"

lemma moves_nothing: "mem_inv s \<Longrightarrow> moves st st' {} s s"
  by (simp add: moves_def)

lemma moves_pending:
  assumes "moves st st' moved s s'" and "moved \<subseteq> pending_ids st s" and "st \<noteq> st'"
  shows "pending_ids st s' = pending_ids st s - moved"
    and "u \<noteq> st \<Longrightarrow> u \<noteq> st' \<Longrightarrow> pending_ids u s' = pending_ids u s"
proof -
  have before: "\<exists>m. st_messages s i = Some m \<and>
      msg_sync_status m' = (if i \<in> moved then st' else msg_sync_status m)"
    if "st_messages s' i = Some m'" for i m'
  proof -
    have "i \<in> dom (st_messages s)" using assms(1) that by (auto simp: moves_def)
    with assms(1) that show ?thesis by (fastforce simp: moves_def)
  qed
  have status: "msg_sync_status m = st" if "i \<in> moved" "st_messages s i = Some m" for i m
    using assms(2) that by (auto simp: pending_ids_def)
  have ahead: "\<exists>m'. st_messages s' i = Some m' \<and>
      msg_sync_status m' = (if i \<in> moved then st' else msg_sync_status m)"
    if "st_messages s i = Some m" for i m
    using assms(1) that unfolding moves_def by blast
  show "pending_ids st s' = pending_ids st s - moved"
    using assms(3) before ahead by (fastforce simp: pending_ids_def split: if_splits)
  show "pending_ids u s' = pending_ids u s" if "u \<noteq> st" "u \<noteq> st'"
    using that before ahead status by (fastforce simp: pending_ids_def split: if_splits)
qed

text \<open>The batch that the storage hands out: pending messages, as many as fit.\<close>

lemma pending_batch:
  assumes "hash_order order_of" and "mem_inv s"
  obtains batch where "mem_get_messages_by_sync_status order_of st b s = Inr batch"
    and "\<And>m. m \<in> set batch \<Longrightarrow> m \<in> ran (st_messages s)"
    and "msg_id ` set batch \<subseteq> pending_ids st s" and "finite (pending_ids st s)"
    and "card (msg_id ` set batch) = min b (card (pending_ids st s))"
proof -
  from storage_contract.by_status [OF hash_order.meets_contract [OF assms(1)] assms(2), of st b] obtain all where
    get: "mem_get_messages_by_sync_status order_of st b s = Inr (take b all)"
    and all: "set all = {m \<in> ran (st_messages s). msg_sync_status m = st}" "distinct (map msg_id all)" by auto
  have key: "msg_id m = i" if "st_messages s i = Some m" for i m
    using that assms(2) by (auto simp: mem_inv_def keys_ok_def)
  have pending: "pending_ids st s = msg_id ` set all"
    using key by (force simp: pending_ids_def all(1) ran_def image_iff)
  have "card (msg_id ` set (take b all)) = min b (card (pending_ids st s))"
    using all(2) distinct_card [of "map msg_id all"] distinct_card [of "map msg_id (take b all)"]
    by (simp add: pending min.commute flip: take_map set_map)
  with get all(1) show thesis
    by (intro that [of "take b all"]) (auto simp: pending dest: in_set_takeD)
qed

text \<open>What the workflow does with a batch that is not empty.\<close>

lemma batch_answered:
  assumes "hash_order order_of" and "mem_inv s" and "walrus_answers ser W (wi_send io)"
    and get: "mem_get_messages_by_sync_status order_of st (ws_batch_size sv) s = Inr batch"
    and batch: "\<And>m. m \<in> set batch \<Longrightarrow> m \<in> ran (st_messages s)" and "batch \<noteq> []"
  shows "\<exists>s'. sync_messages X (in_memory_storage order_of) ser W sv io st st' s = (Inr (), s') \<and>
    moves st st' (msg_id ` set batch) s s'"
proof -
  have key: "msg_id m = i" if "st_messages s i = Some m" for i m
    using that assms(2) by (auto simp: mem_inv_def keys_ok_def)
  from upload_answered [OF assms(3) \<open>batch \<noteq> []\<close>, of X sv st'] obtain r where
    r: "sync_upload X ser W sv (wi_send io) st' batch = Inr (Some r)"
      "\<forall>m\<in>set batch. get_patch_id r (patch_identifier X (msg_id m)) \<noteq> None" by blast
  from workflow_effect [OF assms(1,2) get r(1)] obtain s' where
    run: "sync_messages X (in_memory_storage order_of) ser W sv io st st' s = (Inr (), s')"
    and inv: "mem_inv s'" and dom: "dom (st_messages s') = dom (st_messages s)"
    and moved: "\<And>i m. st_messages s i = Some m \<Longrightarrow> st_messages s' i = Some
      (case get_patch_id r (patch_identifier X i) of
         Some p \<Rightarrow> if m \<in> set batch
           then m\<lparr>msg_sync_status := st', msg_updated_at := wi_clock io i, msg_quilt_patch_id := Some p\<rparr>
           else m
       | None \<Rightarrow> m)" by blast
  have "\<exists>m'. st_messages s' i = Some m' \<and>
      msg_sync_status m' = (if i \<in> msg_id ` set batch then st' else msg_sync_status m)"
    if m: "st_messages s i = Some m" for i m
  proof -
    have "x = m" if "x \<in> set batch" "msg_id x = i" for x
      using that m batch key by (force simp: ran_def)
    then have "i \<in> msg_id ` set batch \<longleftrightarrow> m \<in> set batch" using key [OF m] by blast
    then show ?thesis
      using moved [OF m] r(2) key [OF m]
      by (cases "get_patch_id r (patch_identifier X i)") auto
  qed
  with run inv dom show ?thesis unfolding moves_def by blast
qed

lemma workflow_answered:
  assumes "hash_order order_of" and "mem_inv s" and "walrus_answers ser W (wi_send io)"
  shows "\<exists>s' moved. sync_messages X (in_memory_storage order_of) ser W sv io st st' s = (Inr (), s') \<and>
    moves st st' moved s s' \<and> moved \<subseteq> pending_ids st s \<and> finite (pending_ids st s) \<and>
    card moved = min (ws_batch_size sv) (card (pending_ids st s))"
proof -
  obtain batch where get: "mem_get_messages_by_sync_status order_of st (ws_batch_size sv) s = Inr batch"
    and stored: "\<And>m. m \<in> set batch \<Longrightarrow> m \<in> ran (st_messages s)"
    and counted: "msg_id ` set batch \<subseteq> pending_ids st s" "finite (pending_ids st s)"
      "card (msg_id ` set batch) = min (ws_batch_size sv) (card (pending_ids st s))"
    by (rule pending_batch [OF assms(1,2), of st "ws_batch_size sv"]) (rule that)
  have "\<exists>s'. sync_messages X (in_memory_storage order_of) ser W sv io st st' s = (Inr (), s') \<and>
      moves st st' (msg_id ` set batch) s s'"
  proof (cases "batch = []")
    case True
    then have "sync_messages X (in_memory_storage order_of) ser W sv io st st' s = (Inr (), s)"
      using get by (simp add: sync_messages_def)
    with moves_nothing [OF assms(2)] show ?thesis unfolding True by simp
  qed (rule batch_answered [OF assms get stored])
  then show ?thesis using counted by blast
qed

text \<open>A backlog that fits into one batch is gone after one workflow.\<close>

lemma workflow_drains_batch:
  assumes "hash_order order_of" and "mem_inv s" and "walrus_answers ser W (wi_send io)" and "st \<noteq> st'"
    and "card (pending_ids st s) \<le> ws_batch_size sv"
  shows "\<exists>s'. sync_messages X (in_memory_storage order_of) ser W sv io st st' s = (Inr (), s') \<and>
    moves st st' (pending_ids st s) s s' \<and> pending_ids st s' = {}"
proof -
  from workflow_answered [OF assms(1-3), where X = X and sv = sv and st = st and st' = st'] obtain s' moved where
    run: "sync_messages X (in_memory_storage order_of) ser W sv io st st' s = (Inr (), s')"
    and mv: "moves st st' moved s s'" and sub: "moved \<subseteq> pending_ids st s" and fin: "finite (pending_ids st s)"
    and card: "card moved = min (ws_batch_size sv) (card (pending_ids st s))" by blast
  have all: "moved = pending_ids st s" using card_subset_eq [OF fin sub] card assms(5) by simp
  from moves_pending(1) [OF mv sub assms(4)] have "pending_ids st s' = {}" unfolding all by simp
  with run mv show ?thesis unfolding all by blast
qed

text \<open>The three pending states, each with the state its workflow moves messages to.\<close>

definition pending_states :: "sync_status set" where
  "pending_states = {SyncPending, UpdatePending, DeletePending}"

lemma workflow_shrinks:
  assumes "hash_order order_of" and "mem_inv s" and "walrus_answers ser W (wi_send io)"
    and "st \<in> pending_states" and "st' \<notin> pending_states"
  shows "mem_inv (snd (sync_messages X (in_memory_storage order_of) ser W sv io st st' s))"
    and "u \<in> pending_states \<Longrightarrow>
      card (pending_ids u (snd (sync_messages X (in_memory_storage order_of) ser W sv io st st' s))) =
      (if u = st then card (pending_ids u s) - ws_batch_size sv else card (pending_ids u s))"
proof -
  from workflow_answered [OF assms(1-3), where X = X and sv = sv and st = st and st' = st'] obtain s' moved where
    run: "sync_messages X (in_memory_storage order_of) ser W sv io st st' s = (Inr (), s')"
    and mv: "moves st st' moved s s'" and sub: "moved \<subseteq> pending_ids st s" and fin: "finite (pending_ids st s)"
    and card: "card moved = min (ws_batch_size sv) (card (pending_ids st s))" by blast
  from mv run show "mem_inv (snd (sync_messages X (in_memory_storage order_of) ser W sv io st st' s))"
    by (simp add: moves_def)
  have neq: "st \<noteq> st'" using assms(4,5) by blast
  note p = moves_pending [OF mv sub neq]
  show "card (pending_ids u (snd (sync_messages X (in_memory_storage order_of) ser W sv io st st' s))) =
      (if u = st then card (pending_ids u s) - ws_batch_size sv else card (pending_ids u s))"
    if "u \<in> pending_states"
  proof (cases "u = st")
    case True
    with card_Diff_subset [OF finite_subset [OF sub fin] sub] run p(1) card show ?thesis by simp
  next
    case False
    with that assms(5) p(2) run show ?thesis by (metis snd_conv)
  qed
qed

lemma cycle_shrinks:
  assumes "hash_order order_of" and "mem_inv s"
    and "walrus_answers ser W (wi_send io1)" and "walrus_answers ser W (wi_send io2)"
    and "walrus_answers ser W (wi_send io3)"
  shows "mem_inv (sync_cycle X (in_memory_storage order_of) ser W sv (io1, io2, io3) s)"
    and "u \<in> pending_states \<Longrightarrow>
      card (pending_ids u (sync_cycle X (in_memory_storage order_of) ser W sv (io1, io2, io3) s)) =
      card (pending_ids u s) - ws_batch_size sv"
proof -
  let ?SA = "in_memory_storage order_of"
  let ?s1 = "snd (sync_messages X ?SA ser W sv io1 SyncPending Synced s)"
  let ?s2 = "snd (sync_messages X ?SA ser W sv io2 UpdatePending Updated ?s1)"
  let ?s3 = "snd (sync_messages X ?SA ser W sv io3 DeletePending Deleted ?s2)"
  have cycle: "sync_cycle X ?SA ser W sv (io1, io2, io3) s = ?s3"
    by (simp add: sync_cycle_def sync_pending_messages_def sync_updated_messages_def
        sync_deleted_messages_def Let_def)
  note w1 = workflow_shrinks [OF assms(1,2,3), where X = X and sv = sv and st = SyncPending and st' = Synced]
  have i1: "mem_inv ?s1" by (rule w1(1)) (simp_all add: pending_states_def)
  note w2 = workflow_shrinks [OF assms(1) i1 assms(4), where X = X and sv = sv and st = UpdatePending and st' = Updated]
  have i2: "mem_inv ?s2" by (rule w2(1)) (simp_all add: pending_states_def)
  note w3 = workflow_shrinks [OF assms(1) i2 assms(5), where X = X and sv = sv and st = DeletePending and st' = Deleted]
  show "mem_inv (sync_cycle X ?SA ser W sv (io1, io2, io3) s)"
    unfolding cycle by (rule w3(1)) (simp_all add: pending_states_def)
  show "card (pending_ids u (sync_cycle X ?SA ser W sv (io1, io2, io3) s)) =
      card (pending_ids u s) - ws_batch_size sv" if "u \<in> pending_states"
    unfolding cycle using w1(2) [OF _ _ that] w2(2) [OF _ _ that] w3(2) [OF _ _ that] that
    by (auto simp: pending_states_def)
qed

text \<open>
  C17. The worker works off any backlog. While Walrus answers its uploads and no request intervenes, every
  cycle that the loop starts, by timer or by threshold, moves up to one batch out of each of the three pending
  states: after any sequence of events that starts \<open>c\<close> cycles, the number of messages pending in a
  state is its number before less \<open>c\<close> batches, so a backlog of \<open>n\<close> messages is gone once \<open>c * batch \<ge> n\<close>.
\<close>
theorem worker_drains_backlog:
  assumes "hash_order order_of" and "mem_inv s"
    and "\<forall>(e, io1, io2, io3) \<in> set events. walrus_answers ser W (wi_send io1) \<and>
      walrus_answers ser W (wi_send io2) \<and> walrus_answers ser W (wi_send io3)"
  shows "mem_inv (snd (worker_run X (in_memory_storage order_of) ser W sv events (n, s))) \<and>
    (\<forall>u \<in> {SyncPending, UpdatePending, DeletePending}.
      card (pending_ids u (snd (worker_run X (in_memory_storage order_of) ser W sv events (n, s)))) =
      card (pending_ids u s) - cycles_started (ws_message_threshold sv) n (map fst events) * ws_batch_size sv)"
  unfolding pending_states_def [symmetric] using assms(2,3)
proof (induction events arbitrary: n s)
  case (Cons ev events)
  obtain e io1 io2 io3 where ev: "ev = (e, io1, io2, io3)" by (cases ev)
  show ?case
  proof (cases "worker_turn (ws_message_threshold sv) n e")
    case (KeepWaiting k)
    with Cons ev show ?thesis by simp
  next
    case RunCycle
    have "walrus_answers ser W (wi_send io1)" "walrus_answers ser W (wi_send io2)"
      "walrus_answers ser W (wi_send io3)"
      using Cons.prems(2) ev by auto
    note shrink = cycle_shrinks [OF assms(1) Cons.prems(1) this, where X = X and sv = sv]
    from Cons.IH [OF shrink(1), of 0] Cons.prems(2) RunCycle ev shrink(2) show ?thesis
      by (simp add: diff_diff_left)
  next
    case Stop
    with Cons.prems ev show ?thesis by simp
  qed
qed simp

end
