(* ===== verification/Log_Layer.thy ===== *)
theory Log_Layer
  imports Enclave
begin

text \<open>
  The log layer of \<open>src/relayer/src/main.rs\<close>: from a tracing event to a line of the ring buffer behind
  \<open>GET /logs\<close>. The names of the levels and the rendering of values and times are data of the event, and so is the
  order in which \<open>tracing\<close> visits the fields. Events that the filter drops do not reach the layer.
\<close>

section \<open>Events\<close>

text \<open>
  What \<open>Event::record\<close> hands to the visitor: strings go to \<open>record_str\<close>, every other value to \<open>record_debug\<close>,
  here with its rendering.
\<close>

datatype field_value = DebugValue string | StrValue string

record log_field =
  lf_name :: string
  lf_value :: field_value

record log_event =
  le_time :: string
  le_level :: string
  le_target :: string
  le_fields :: "log_field list"

section \<open>The visitor\<close>

record log_visitor =
  lv_message :: string

definition record_debug :: "string \<Rightarrow> string \<Rightarrow> log_visitor \<Rightarrow> log_visitor" where
  "record_debug name value v =
     (if name = ''message'' then v\<lparr>lv_message := value\<rparr>
      else if lv_message v \<noteq> [] then v\<lparr>lv_message := lv_message v @ '' '' @ name @ ''='' @ value\<rparr>
      else v\<lparr>lv_message := name @ ''='' @ value\<rparr>)"

definition record_str :: "string \<Rightarrow> string \<Rightarrow> log_visitor \<Rightarrow> log_visitor" where
  "record_str name value v =
     (if name = ''message'' then v\<lparr>lv_message := value\<rparr>
      else if lv_message v \<noteq> [] then v\<lparr>lv_message := lv_message v @ '' '' @ name @ ''='' @ value\<rparr>
      else v\<lparr>lv_message := name @ ''='' @ value\<rparr>)"

definition record_field :: "log_field \<Rightarrow> log_visitor \<Rightarrow> log_visitor" where
  "record_field f v =
     (case lf_value f of
        DebugValue s \<Rightarrow> record_debug (lf_name f) s v
      | StrValue s \<Rightarrow> record_str (lf_name f) s v)"

definition event_message :: "log_event \<Rightarrow> string" where
  "event_message event = lv_message (fold record_field (le_fields event) \<lparr>lv_message = []\<rparr>)"

definition event_line :: "log_event \<Rightarrow> string" where
  "event_line event =
     le_time event @ '' '' @ pad_left 5 (le_level event) @ '' '' @ le_target event @ '' ''
       @ event_message event"

definition on_event :: "log_event \<Rightarrow> log_buffer \<Rightarrow> log_buffer" where
  "on_event event buffer = log_push (event_line event) buffer"

section \<open>What the message of a line says\<close>

definition value_text :: "log_field \<Rightarrow> string" where
  "value_text f = (case lf_value f of DebugValue s \<Rightarrow> s | StrValue s \<Rightarrow> s)"

fun join_space :: "string list \<Rightarrow> string" where
  "join_space [] = []"
| "join_space [s] = s"
| "join_space (s # t # ss) = s @ '' '' @ join_space (t # ss)"

text \<open>
  The parts of a message: the text of the last \<open>message\<close> field, and \<open>name=value\<close> for each field after it;
  what was visited before a \<open>message\<close> field is overwritten by it.
\<close>

definition message_parts :: "log_field list \<Rightarrow> string list" where
  "message_parts fs =
     (let plain = (\<lambda>f. lf_name f \<noteq> ''message'') in
      (case dropWhile plain (rev fs) of
         [] \<Rightarrow> []
       | f # _ \<Rightarrow> if value_text f = [] then [] else [value_text f]) @
      map (\<lambda>f. lf_name f @ ''='' @ value_text f) (rev (takeWhile plain (rev fs))))"

lemma record_field_message:
  "lv_message (record_field f v) =
     (if lf_name f = ''message'' then value_text f
      else if lv_message v \<noteq> [] then lv_message v @ '' '' @ lf_name f @ ''='' @ value_text f
      else lf_name f @ ''='' @ value_text f)"
  by (simp add: record_field_def record_debug_def record_str_def value_text_def split: field_value.split)

lemma join_space_snoc:
  "join_space (ss @ [s]) = (if ss = [] then s else join_space ss @ '' '' @ s)"
  by (induction ss rule: join_space.induct) simp_all

lemma join_space_Nil_iff: "\<forall>s\<in>set ss. s \<noteq> [] \<Longrightarrow> join_space ss = [] \<longleftrightarrow> ss = []"
  by (cases ss rule: join_space.cases) auto

lemma message_parts_not_Nil: "s \<in> set (message_parts fs) \<Longrightarrow> s \<noteq> []"
  by (auto simp: message_parts_def Let_def split: list.splits if_splits)

lemma message_parts_snoc:
  "message_parts (fs @ [f]) =
     (if lf_name f = ''message'' then (if value_text f = [] then [] else [value_text f])
      else message_parts fs @ [lf_name f @ ''='' @ value_text f])"
  by (simp add: message_parts_def Let_def)

lemma visited_message:
  "lv_message (fold record_field fs \<lparr>lv_message = []\<rparr>) = join_space (message_parts fs)"
proof (induction fs rule: rev_induct)
  case Nil
  show ?case by (simp add: message_parts_def)
next
  case (snoc f fs)
  have "join_space (message_parts fs) = [] \<longleftrightarrow> message_parts fs = []"
    by (rule join_space_Nil_iff) (blast dest: message_parts_not_Nil)
  with snoc show ?case
    by (simp add: record_field_message message_parts_snoc join_space_snoc)
qed

lemma on_events_log_all: "fold on_event events b = log_all (map event_line events) b"
  by (simp add: log_all_def fold_map on_event_def [abs_def] comp_def)

lemma last_n_map: "last_n n (map f xs) = map f (last_n n xs)"
  by (simp add: last_n_def drop_map)

section \<open>Properties\<close>

text \<open>
  C37. \<open>GET /logs\<close> shows the most recent events: with the buffer of 1000 lines that \<open>main\<close> creates, after any
  sequence of events the reply holds the lines of the last \<open>n\<close> of them in the order they happened, where
  \<open>n\<close> is the requested number (100 by default), at most 1000, and its count is their number. The line of
  an event is its time, its level padded to five characters, its target, and its text: the message,
  then \<open>name=value\<close> for each further field, separated by single spaces.
\<close>
theorem logs_show_last_events:
  "get_logs q (fold on_event events (log_buffer_new 1000)) =
     Inr \<lparr>logs_lines = map event_line (last_n (min (unwrap_or 100 q) 1000) events),
          logs_count = min (min (unwrap_or 100 q) 1000) (length events)\<rparr> \<and>
   event_line e = le_time e @ '' '' @ pad_left 5 (le_level e) @ '' '' @ le_target e @ '' ''
     @ join_space (message_parts (le_fields e))"
  by (simp add: on_events_log_all logs_are_the_last_lines event_line_def event_message_def visited_message
      last_n_map)

end
