(* ===== verification/Startup.thy ===== *)
theory Startup
  imports System Log_Layer
begin

text \<open>
  The set-up in \<open>main\<close> (\<open>src/relayer/src/main.rs\<close>): what it builds from the environment before it
  serves requests, and that this is the state the system of \<open>System\<close> starts in. The environment is the
  one after \<open>dotenvy\<close> has loaded its file; the enclave key pair is a parameter.
\<close>

section \<open>main\<close>




section \<open>The system it starts\<close>





section \<open>Properties\<close>


end
