(* ===== verification/Boot.thy ===== *)
theory Boot
  imports Prelude
begin

text \<open>
  The init process of the enclave image: \<open>src/init/init.rs\<close>, \<open>src/aws/src/lib.rs\<close> and \<open>src/system/src/lib.rs\<close>.
  It is a sequence of system calls whose failures are printed and otherwise ignored. What the kernel
  and the NSM device answer is the record \<open>os\<close>; a run is the list of what was attempted and printed.
\<close>

section \<open>The system\<close>

datatype mount_flag = MS_NODEV | MS_NOEXEC | MS_NOSUID

record os =
  os_exists :: "string \<Rightarrow> (string, bool) result"
  os_create_dir_all :: "string \<Rightarrow> (string, unit) result"
  os_mount :: "string \<Rightarrow> string \<Rightarrow> string \<Rightarrow> mount_flag set \<Rightarrow> string \<Rightarrow> int"
  os_freopen :: "string \<Rightarrow> string \<Rightarrow> nat \<Rightarrow> bool"
  os_open :: "string \<Rightarrow> (string, unit) result"
  os_finit_module :: "string \<Rightarrow> int"
  os_socket :: "nat \<Rightarrow> int"
  os_connect :: "int \<Rightarrow> nat \<Rightarrow> nat \<Rightarrow> nat \<Rightarrow> int"
  os_nsm_init :: int
  os_nsm_random :: "nat \<Rightarrow> bytes option"
  os_write_random :: "bytes \<Rightarrow> (string, unit) result"
  os_run_sh :: "(string, (string, string) result) result"

datatype boot_event =
    CreateDir string
  | Mount string string string "mount_flag set" string
  | Reopen string string nat
  | WriteBytes int bytes
  | ReadBytes int nat
  | CloseFd int
  | InsertModule string
  | SeedRandom bytes
  | SpawnRunSh
  | SetEnv string string
  | Reboot
  | Dmesg string
  | EprintSystem string  \<comment> \<open>a \<open>SystemError\<close>\<close>
  | Eprintln string  \<comment> \<open>any other error\<close>

section \<open>system/src/lib.rs\<close>

text \<open>
  \<open>boot_time\<close> prints seconds and microseconds since boot; \<open>{: >4}\<close> pads the seconds on the left to four
  characters, the microseconds are not padded. Every printed line starts with it, the messages of
  \<open>SystemError\<close> included.
\<close>

record timespec =
  tv_sec :: int
  tv_nsec :: int

definition boot_time :: "timespec \<Rightarrow> string" where
  "boot_time t = ''[ '' @ pad_left 4 (show_int (tv_sec t)) @ ''.'' @ show_int (tv_nsec t div 1000) @ '']''"

definition system_error_display :: "timespec \<Rightarrow> string \<Rightarrow> string" where
  "system_error_display t message = boot_time t @ '' '' @ message"

definition dmesg :: "timespec \<Rightarrow> string \<Rightarrow> string" where
  "dmesg t message = boot_time t @ '' '' @ message"

type_synonym 'a system_result = "(string, 'a) result"

text \<open>\<open>CString::new\<close> fails on a string with a NUL byte.\<close>

definition c_string :: "string \<Rightarrow> string \<Rightarrow> unit system_result" where
  "c_string what s =
     (if char_of (0 :: nat) \<in> set s
      then Inl (''Failed to create CString for '' @ what @ '': nul byte found in provided data at position: ''
        @ show_nat (length (takeWhile (\<lambda>c. c \<noteq> char_of (0 :: nat)) s)))
      else Inr ())"

definition mount :: "os \<Rightarrow> string \<Rightarrow> string \<Rightarrow> string \<Rightarrow> mount_flag set \<Rightarrow> string \<Rightarrow> unit system_result" where
  "mount S src target fstype flags data =
     bind_result (c_string ''src'' src) (\<lambda>_.
     bind_result (c_string ''fstype'' fstype) (\<lambda>_.
     bind_result (c_string ''data'' data) (\<lambda>_.
     bind_result (c_string ''target'' target) (\<lambda>_.
       if os_mount S src target fstype flags data \<noteq> 0 then Inl (''Failed to mount: '' @ target)
       else Inr ()))))"

definition freopen :: "os \<Rightarrow> string \<Rightarrow> string \<Rightarrow> nat \<Rightarrow> unit system_result" where
  "freopen S filename mode file =
     bind_result (c_string ''filename'' filename) (\<lambda>_.
     bind_result (c_string ''mode'' mode) (\<lambda>_.
       if \<not> os_freopen S filename mode file then Inl (''Failed to freopen: '' @ filename) else Inr ()))"

definition insmod :: "os \<Rightarrow> string \<Rightarrow> unit system_result" where
  "insmod S path =
     bind_result (map_err (\<lambda>e. ''Failed to open file: '' @ e) (os_open S path)) (\<lambda>_.
       if os_finit_module S path < 0 then Inl (''Failed to insert kernel module: '' @ path) else Inr ())"

text \<open>
  The descriptor that \<open>socket\<close> returns is not checked: after a failure \<open>connect\<close> is called on it. When
  \<open>connect\<close> fails, the descriptor stays open. \<open>AF_VSOCK\<close> is 40.
\<close>

definition socket_connect :: "os \<Rightarrow> nat \<Rightarrow> nat \<Rightarrow> nat \<Rightarrow> int system_result" where
  "socket_connect S family port cid =
     (let fd = os_socket S family
      in if os_connect S fd family port cid < 0
         then Inl (''Failed to connect to socket: '' @ show_nat family)
         else Inr fd)"

definition seed_entropy :: "os \<Rightarrow> nat \<Rightarrow> (nat \<Rightarrow> bytes system_result) \<Rightarrow> nat system_result \<times> boot_event list" where
  "seed_entropy S wanted source =
     (case source wanted of
        Inl e \<Rightarrow> (Inl e, [])
      | Inr entropy_sample \<Rightarrow>
          (case os_open S ''/dev/urandom'' of
             Inl _ \<Rightarrow> (Inl ''Failed to open /dev/urandom'', [])
           | Inr _ \<Rightarrow>
               (case os_write_random S entropy_sample of
                  Inl _ \<Rightarrow> (Inl ''Failed to write to /dev/urandom'', [SeedRandom entropy_sample])
                | Inr _ \<Rightarrow> (Inr (length entropy_sample), [SeedRandom entropy_sample]))))"

section \<open>aws/src/lib.rs\<close>

text \<open>
  The loop of \<open>get_entropy\<close>. \<open>os_nsm_random S k\<close> is the 256-byte buffer after the \<open>k\<close>-th call, \<open>None\<close> if the
  call did not succeed; the length the device reports in \<open>buf_len\<close> is not read by the code.
\<close>

definition nsm_buffer :: "bytes \<Rightarrow> bytes" where
  "nsm_buffer bs = take 256 (bs @ replicate 256 0)"

lemma length_nsm_buffer [simp]: "length (nsm_buffer bs) = 256"
  by (simp add: nsm_buffer_def)

function collect_entropy :: "(nat \<Rightarrow> bytes option) \<Rightarrow> nat \<Rightarrow> nat \<Rightarrow> bytes \<Rightarrow> bytes system_result" where
  "collect_entropy random wanted k dest =
     (if length dest < wanted then
        (case random k of
           Some buf \<Rightarrow> collect_entropy random wanted (Suc k) (dest @ nsm_buffer buf)
         | None \<Rightarrow> Inl ''Failed to get entropy from NSM device'')
      else Inr dest)"
  by pat_completeness auto
termination
  by (relation "measure (\<lambda>(random, wanted, k, dest). wanted - length dest)") auto

declare collect_entropy.simps [simp del]

definition get_entropy :: "os \<Rightarrow> nat \<Rightarrow> bytes system_result" where
  "get_entropy S wanted =
     (if os_nsm_init S < 0 then Inl ''Failed to connect to NSM device''
      else collect_entropy (os_nsm_random S) wanted 0 [])"

definition nitro_heartbeat :: "os \<Rightarrow> boot_event list" where
  "nitro_heartbeat S =
     (case socket_connect S 40 9000 3 of
        Inl e \<Rightarrow> [EprintSystem e]
      | Inr fd \<Rightarrow> [WriteBytes fd [183], ReadBytes fd 1, CloseFd fd, Dmesg ''Sent NSM heartbeat''])"

definition init_platform :: "os \<Rightarrow> boot_event list" where
  "init_platform S =
     nitro_heartbeat S @
     InsertModule ''/nsm.ko'' #
     (case insmod S ''/nsm.ko'' of
        Inr _ \<Rightarrow> [Dmesg ''Loaded nsm.ko'']
      | Inl e \<Rightarrow> [EprintSystem e])"

section \<open>init/init.rs\<close>

type_synonym mount_spec = "string \<times> string \<times> string \<times> mount_flag set \<times> string"

definition rootfs_mounts :: "mount_spec list" where
  "rootfs_mounts =
     (let no_dse = {MS_NODEV, MS_NOSUID, MS_NOEXEC}; no_se = {MS_NOSUID, MS_NOEXEC} in
      [(''devtmpfs'', ''/dev'', ''devtmpfs'', no_se, ''mode=0755''),
       (''devpts'', ''/dev/pts'', ''devpts'', no_se, ''''),
       (''shm'', ''/dev/shm'', ''tmpfs'', no_dse, ''mode=0755''),
       (''proc'', ''/proc'', ''proc'', no_dse, ''hidepid=2''),
       (''tmpfs'', ''/run'', ''tmpfs'', no_dse, ''mode=0755''),
       (''tmpfs'', ''/tmp'', ''tmpfs'', no_dse, ''''),
       (''sysfs'', ''/sys'', ''sysfs'', no_dse, ''''),
       (''cgroup_root'', ''/sys/fs/cgroup'', ''tmpfs'', no_dse, ''mode=0755'')])"

definition mount_one :: "os \<Rightarrow> mount_spec \<Rightarrow> boot_event list" where
  "mount_one S spec =
     (case spec of (src, target, fstype, flags, data) \<Rightarrow>
        (if unwrap_or False (ok (os_exists S target)) then
           CreateDir target #
           (case os_create_dir_all S target of
              Inr _ \<Rightarrow> [Dmesg (''Created mount point '' @ target)]
            | Inl e \<Rightarrow> [Eprintln e])
         else []) @
        Mount src target fstype flags data #
        (case mount S src target fstype flags data of
           Inr _ \<Rightarrow> [Dmesg (''Mounted '' @ target)]
         | Inl e \<Rightarrow> [EprintSystem e]))"

definition init_rootfs :: "os \<Rightarrow> boot_event list" where
  "init_rootfs S = concat (map (mount_one S) rootfs_mounts)"

definition init_console :: "os \<Rightarrow> boot_event list" where
  "init_console S =
     concat (map (\<lambda>(filename, mode, file).
       Reopen filename mode file #
       (case freopen S filename mode file of Inr _ \<Rightarrow> [] | Inl e \<Rightarrow> [EprintSystem e]))
       [(''/dev/console'', ''r'', 0), (''/dev/console'', ''w'', 1), (''/dev/console'', ''w'', 2)])"

definition boot :: "os \<Rightarrow> boot_event list" where
  "boot S =
     init_rootfs S @ init_console S @ init_platform S @
     (case seed_entropy S 4096 (get_entropy S) of
        (Inr wanted, evs) \<Rightarrow> evs @ [Dmesg (''Seeded kernel with entropy: '' @ show_nat wanted)]
      | (Inl e, evs) \<Rightarrow> evs @ [EprintSystem e])"

definition init_main :: "os \<Rightarrow> boot_event list" where
  "init_main S =
     boot S @
     [Dmesg ''EnclaveOS Booted'', SetEnv ''SSL_CERT_FILE'' ''/ca-certificates.crt'',
      SetEnv ''PATH'' ''/bin:/sbin:/usr/bin:/usr/sbin:/'', SpawnRunSh] @
     (case os_run_sh S of
        Inr waited \<Rightarrow>
          Dmesg ''Spawned run.sh script'' #
          (case waited of
             Inr status \<Rightarrow> [Dmesg (''run.sh exited with status: '' @ status)]
           | Inl e \<Rightarrow> [Eprintln (''Error waiting for run.sh: '' @ e)])
      | Inl e \<Rightarrow> [Eprintln (''Failed to execute run.sh: '' @ e)]) @
     [Reboot]"

text \<open>What the events print, each at its time: \<open>println!\<close> and \<open>eprintln!\<close> both go to the console.\<close>

fun console_line :: "timespec \<Rightarrow> boot_event \<Rightarrow> string option" where
  "console_line t (Dmesg message) = Some (dmesg t message)"
| "console_line t (EprintSystem message) = Some (system_error_display t message)"
| "console_line t (Eprintln message) = Some message"
| "console_line t _ = None"

section \<open>Facts\<close>

lemma entropy_rounds: "(0 :: nat) < d \<Longrightarrow> (d + 255) div 256 = Suc ((d - 256 + 255) div 256)"
proof (cases "d \<le> 256")
  case True
  moreover assume "0 < d"
  ultimately have "(d - 1) div 256 = 0" and "d + 255 = (d - 1) + 256" by simp_all
  then show ?thesis using True by simp
next
  case False
  then obtain e where "d = e + 256" by (metis le_add_diff_inverse2 nat_le_linear)
  then show ?thesis by simp
qed

lemma collect_entropy_eq:
  "collect_entropy random wanted k dest =
     (let n = (wanted - length dest + 255) div 256
      in if \<forall>i\<in>{k..<k + n}. random i \<noteq> None
         then Inr (dest @ concat (map (\<lambda>i. nsm_buffer (the (random i))) [k..<k + n]))
         else Inl ''Failed to get entropy from NSM device'')"
proof (induction random wanted k dest rule: collect_entropy.induct)
  case (1 random wanted k dest)
  let ?n = "(wanted - length dest + 255) div 256"
  let ?n' = "(wanted - (length dest + 256) + 255) div 256"
  show ?case
  proof (cases "length dest < wanted")
    case False
    then show ?thesis by (simp add: collect_entropy.simps [of random wanted k dest])
  next
    case True
    then have n: "?n = Suc ?n'" using entropy_rounds [of "wanted - length dest"] by simp
    have upt: "[k..<k + Suc ?n'] = k # [Suc k..<Suc k + ?n']" by (simp add: upt_rec)
    have calls: "(\<forall>i\<in>{k..<k + Suc ?n'}. random i \<noteq> None) \<longleftrightarrow>
        random k \<noteq> None \<and> (\<forall>i\<in>{Suc k..<Suc k + ?n'}. random i \<noteq> None)"
      by (auto simp: Ball_def) (metis Suc_leI le_neq_implies_less)
    show ?thesis
    proof (cases "random k")
      case None
      then show ?thesis
        using True unfolding n Let_def calls by (simp add: collect_entropy.simps [of random wanted k dest])
    next
      case (Some buf)
      with "1.IH" [OF True Some] True show ?thesis
        unfolding n Let_def calls upt by (simp add: collect_entropy.simps [of random wanted k dest])
    qed
  qed
qed

lemma collect_entropy_Inr:
  "collect_entropy random wanted k dest = Inr bs \<Longrightarrow>
     \<exists>n. bs = dest @ concat (map (\<lambda>i. nsm_buffer (the (random i))) [k..<k + n]) \<and>
       (\<forall>i\<in>{k..<k + n}. random i \<noteq> None) \<and> wanted \<le> length bs \<and>
       (n = 0 \<or> length bs < wanted + 256)"
proof (induction random wanted k dest rule: collect_entropy.induct)
  case (1 random wanted k dest)
  show ?case
  proof (cases "length dest < wanted")
    case False
    with "1.prems" show ?thesis
      by (intro exI [of _ 0]) (simp add: collect_entropy.simps [of random wanted k dest])
  next
    case True
    then obtain buf where buf: "random k = Some buf"
      and rest: "collect_entropy random wanted (Suc k) (dest @ nsm_buffer buf) = Inr bs"
      using "1.prems" by (auto simp: collect_entropy.simps [of random wanted k dest] split: option.splits)
    from "1.IH" [OF True buf rest] obtain n where
      n: "bs = (dest @ nsm_buffer buf) @ concat (map (\<lambda>i. nsm_buffer (the (random i))) [Suc k..<Suc k + n])"
        "\<forall>i\<in>{Suc k..<Suc k + n}. random i \<noteq> None" "wanted \<le> length bs" "n = 0 \<or> length bs < wanted + 256"
      by blast
    have upt: "[k..<k + Suc n] = k # [Suc k..<Suc k + n]" by (simp add: upt_rec)
    have all: "bs = dest @ concat (map (\<lambda>i. nsm_buffer (the (random i))) [k..<k + Suc n])"
      using n(1) buf by (simp only: upt list.map concat.simps append_assoc option.sel)
    have got: "\<forall>i\<in>{k..<k + Suc n}. random i \<noteq> None"
    proof
      fix i
      assume "i \<in> {k..<k + Suc n}"
      then show "random i \<noteq> None" using n(2) buf by (cases "i = k") auto
    qed
    have "length bs < wanted + 256"
    proof (cases "n = 0")
      case False
      with n(4) show ?thesis by simp
    next
      case None: True
      with n(1) True show ?thesis by simp
    qed
    with all got n(3) show ?thesis by blast
  qed
qed

lemma collect_entropy_Inl:
  "collect_entropy random wanted k dest = Inl e \<Longrightarrow> \<exists>i\<ge>k. random i = None"
proof (induction random wanted k dest rule: collect_entropy.induct)
  case (1 random wanted k dest)
  then show ?case
    by (cases "length dest < wanted"; cases "random k")
      (auto simp: collect_entropy.simps [of random wanted k dest] dest: Suc_leD)
qed

lemma entropy_not_short:
  "(\<forall>bs. get_entropy S wanted = Inr bs \<longrightarrow>
      (\<exists>n. bs = concat (map (\<lambda>i. nsm_buffer (the (os_nsm_random S i))) [0..<n]) \<and>
        (\<forall>i<n. os_nsm_random S i \<noteq> None) \<and> wanted \<le> length bs \<and> length bs < wanted + 256)) \<and>
   (\<forall>e. get_entropy S wanted = Inl e \<longrightarrow> os_nsm_init S < 0 \<or> (\<exists>i. os_nsm_random S i = None))"
proof (intro conjI allI impI)
  fix bs
  assume "get_entropy S wanted = Inr bs"
  then have "collect_entropy (os_nsm_random S) wanted 0 [] = Inr bs"
    by (simp add: get_entropy_def split: if_splits)
  from collect_entropy_Inr [OF this] obtain n where
    n: "bs = concat (map (\<lambda>i. nsm_buffer (the (os_nsm_random S i))) [0..<n])"
      "\<forall>i\<in>{0..<n}. os_nsm_random S i \<noteq> None" "wanted \<le> length bs" "n = 0 \<or> length bs < wanted + 256" by auto
  moreover from n(1,4) have "length bs < wanted + 256" by (cases "n = 0") auto
  ultimately show "\<exists>n. bs = concat (map (\<lambda>i. nsm_buffer (the (os_nsm_random S i))) [0..<n]) \<and>
        (\<forall>i<n. os_nsm_random S i \<noteq> None) \<and> wanted \<le> length bs \<and> length bs < wanted + 256" by auto
next
  fix e
  assume "get_entropy S wanted = Inl e"
  then show "os_nsm_init S < 0 \<or> (\<exists>i. os_nsm_random S i = None)"
    by (auto simp: get_entropy_def dest: collect_entropy_Inl split: if_splits)
qed

section \<open>Properties\<close>

text \<open>
  C38. Entropy collection always ends, after exactly as many device calls as the request needs: with \<open>n\<close> the
  number of 256-byte buffers that cover the \<open>wanted\<close> bytes, it returns the buffers of the first \<open>n\<close> calls
  in order, \<open>256 * n\<close> bytes, if all of them succeeded; otherwise, and when the device does not open, it
  ends with the error of that cause. No call after the \<open>n\<close>-th matters.
\<close>
theorem entropy_collected_in_rounds:
  "get_entropy S wanted =
     (if os_nsm_init S < 0 then Inl ''Failed to connect to NSM device''
      else if \<exists>i<(wanted + 255) div 256. os_nsm_random S i = None
      then Inl ''Failed to get entropy from NSM device''
      else Inr (concat (map (\<lambda>i. nsm_buffer (the (os_nsm_random S i))) [0..<(wanted + 255) div 256])))"
proof -
  let ?n = "(wanted + 255) div 256"
  have calls: "(\<forall>i\<in>{0..<0 + ?n}. os_nsm_random S i \<noteq> None) \<longleftrightarrow> \<not> (\<exists>i<?n. os_nsm_random S i = None)"
    by auto
  show ?thesis
    unfolding get_entropy_def collect_entropy_eq Let_def list.size diff_zero calls
    by (simp only: append_Nil add_0 split: if_split) blast
qed

text \<open>Texts without a NUL byte, as all those of \<open>init_rootfs\<close> are, reach the kernel.\<close>

fun nul_free :: "mount_spec \<Rightarrow> bool" where
  "nul_free (src, target, fstype, flags, data) \<longleftrightarrow>
     list_all (\<lambda>x. char_of (0 :: nat) \<notin> set x) [src, target, fstype, data]"

lemma rootfs_nul_free: "list_all nul_free rootfs_mounts"
  by (simp add: rootfs_mounts_def Let_def char_of_def)

lemma mount_nul_free:
  "nul_free (src, target, fstype, flags, data) \<Longrightarrow> mount S src target fstype flags data =
    (if os_mount S src target fstype flags data \<noteq> 0 then Inl (''Failed to mount: '' @ target) else Inr ())"
  by (simp add: mount_def c_string_def)

lemma mount_one_errors:
  "nul_free (src, target, fstype, flags, data) \<Longrightarrow>
     filter (\<lambda>e. case e of EprintSystem _ \<Rightarrow> True | _ \<Rightarrow> False) (mount_one S (src, target, fstype, flags, data)) =
       (if os_mount S src target fstype flags data \<noteq> 0 then [EprintSystem (''Failed to mount: '' @ target)] else [])"
  by (simp add: mount_one_def mount_nul_free del: nul_free.simps split: sum.split)

lemma mount_errors:
  "list_all nul_free specs \<Longrightarrow>
     filter (\<lambda>e. case e of EprintSystem _ \<Rightarrow> True | _ \<Rightarrow> False) (concat (map (mount_one S) specs)) =
       map (\<lambda>(src, target, fstype, flags, data). EprintSystem (''Failed to mount: '' @ target))
         (filter (\<lambda>(src, target, fstype, flags, data). os_mount S src target fstype flags data \<noteq> 0) specs)"
proof (induction specs)
  case (Cons spec specs)
  obtain src target fstype flags data where spec: "spec = (src, target, fstype, flags, data)"
    by (cases spec) auto
  with Cons.prems have "nul_free (src, target, fstype, flags, data)" by simp
  from mount_one_errors [OF this, of S] Cons show ?case by (simp add: spec del: nul_free.simps)
qed simp

text \<open>
  C39. The check for a missing mount point is inverted: a directory is created for a mount exactly when
  the path is already there, never when it is missing. The mount itself is attempted in any case, for
  each of the eight file systems in order; each one that fails prints its error, with the boot time in
  front, and whatever fails the boot goes on to the end, where the system reboots.
\<close>
theorem mount_points_created_only_if_present:
  "(CreateDir t \<in> set (init_rootfs S) \<longleftrightarrow>
      t \<in> (\<lambda>(src, target, fstype, flags, data). target) ` set rootfs_mounts \<and> os_exists S t = Inr True) \<and>
   filter (\<lambda>e. case e of Mount _ _ _ _ _ \<Rightarrow> True | _ \<Rightarrow> False) (init_rootfs S) =
     map (\<lambda>(src, target, fstype, flags, data). Mount src target fstype flags data) rootfs_mounts \<and>
   filter (\<lambda>e. case e of EprintSystem _ \<Rightarrow> True | _ \<Rightarrow> False) (init_rootfs S) =
     map (\<lambda>(src, target, fstype, flags, data). EprintSystem (''Failed to mount: '' @ target))
       (filter (\<lambda>(src, target, fstype, flags, data). os_mount S src target fstype flags data \<noteq> 0) rootfs_mounts) \<and>
   console_line now (EprintSystem e) = Some (boot_time now @ '' '' @ e) \<and>
   SpawnRunSh \<in> set (init_main S) \<and> last (init_main S) = Reboot"
proof -
  have one: "CreateDir t \<in> set (mount_one S spec) \<longleftrightarrow>
      t = (case spec of (src, target, fstype, flags, data) \<Rightarrow> target) \<and> os_exists S t = Inr True" for spec
    by (cases "os_exists S t"; cases spec)
      (auto simp: mount_one_def split: sum.splits if_splits)
  have "filter (\<lambda>e. case e of Mount _ _ _ _ _ \<Rightarrow> True | _ \<Rightarrow> False) (mount_one S spec) =
      [case spec of (src, target, fstype, flags, data) \<Rightarrow> Mount src target fstype flags data]" for spec
    by (cases spec) (auto simp: mount_one_def split: sum.splits if_splits)
  then have "filter (\<lambda>e. case e of Mount _ _ _ _ _ \<Rightarrow> True | _ \<Rightarrow> False) (concat (map (mount_one S) specs)) =
      map (\<lambda>(src, target, fstype, flags, data). Mount src target fstype flags data) specs" for specs
    by (induction specs) simp_all
  moreover have "CreateDir t \<in> set (init_rootfs S) \<longleftrightarrow>
      t \<in> (\<lambda>(src, target, fstype, flags, data). target) ` set rootfs_mounts \<and> os_exists S t = Inr True"
    unfolding init_rootfs_def image_iff by (simp only: set_concat set_map UN_iff one bex_simps)
  ultimately show ?thesis
    using mount_errors [OF rootfs_nul_free, of S]
    by (simp add: init_rootfs_def init_main_def system_error_display_def)
qed

end
