(* ===== verification/Storage_Tests.thy ===== *)
theory Storage_Tests
  imports Pagination
begin

text \<open>
  The unit tests of \<open>src/relayer/src/storage/memory.rs\<close>, as predicates over the model: a test holds when
  no \<open>unwrap\<close> of it panics and every assertion of it is true. \<open>u k\<close> is the \<open>k\<close>-th identifier that
  \<open>Uuid::new_v4\<close> returns in the test, \<open>now k\<close> the \<open>k\<close>-th time it reads, and \<open>order_of\<close> the iteration order
  of the hash map. The tests are proved for every supply of distinct identifiers, every clock and every
  iteration order.
\<close>

section \<open>Unwrapping\<close>

definition unwrap_then :: "'a storage_result \<times> 's \<Rightarrow> ('a \<Rightarrow> 's \<Rightarrow> bool) \<Rightarrow> bool" where
  "unwrap_then r rest = (case r of (Inl _, _) \<Rightarrow> False | (Inr a, s) \<Rightarrow> rest a s)"

definition unwrap_read :: "'a storage_result \<Rightarrow> ('a \<Rightarrow> bool) \<Rightarrow> bool" where
  "unwrap_read r rest = (case r of Inl _ \<Rightarrow> False | Inr a \<Rightarrow> rest a)"

lemma unwrap_simps [simp]:
  "unwrap_then (Inl e, s) rest = False" "unwrap_then (Inr a, s) rest = rest a s"
  "unwrap_read (Inl e) f = False" "unwrap_read (Inr a) f = f a"
  by (simp_all add: unwrap_then_def unwrap_read_def)

text \<open>The loops that create one message after the other, each with an \<open>unwrap\<close>.\<close>

fun create_each ::
  "'s storage_adapter \<Rightarrow> message list \<Rightarrow> 's \<Rightarrow> ('s \<Rightarrow> bool) \<Rightarrow> bool" where
  "create_each SA [] storage rest = rest storage"
| "create_each SA (msg # msgs) storage rest =
     unwrap_then (sa_create_message SA msg storage) (\<lambda>_ storage. create_each SA msgs storage rest)"

section \<open>Helpers of the tests\<close>

definition unique_nonce :: "u8 \<Rightarrow> bytes" where
  "unique_nonce i = (replicate 12 0)[0 := i]"

definition sample_attachment :: "string \<Rightarrow> attachment" where
  "sample_attachment ident =
     \<lparr> att_storage_id = ''patch-'' @ ident,
       att_nonce = replicate 12 0xaa,
       att_encrypted_metadata = [0xca, 0xfe],
       att_metadata_nonce = replicate 12 0xdd \<rparr>"

text \<open>Every message of the tests is built with key version 0, a zero signature and a zero public key.\<close>

abbreviation made ::
  "(nat \<Rightarrow> uuid) \<Rightarrow> (nat \<Rightarrow> datetime) \<Rightarrow> nat \<Rightarrow> string \<Rightarrow> string \<Rightarrow> bytes \<Rightarrow> bytes \<Rightarrow> attachment list
   \<Rightarrow> message" where
  "made u now k group_id sender encrypted_msg nonce attachments \<equiv>
     message_new (now k) (u k) group_id sender encrypted_msg nonce 0 attachments
       (replicate 64 0) (replicate 33 0)"

section \<open>The tests\<close>

definition test_create_message_assigns_order ::
  "(mem_storage \<Rightarrow> uuid list) \<Rightarrow> (nat \<Rightarrow> uuid) \<Rightarrow> (nat \<Rightarrow> datetime) \<Rightarrow> bool" where
  "test_create_message_assigns_order order_of u now =
     (let SA = in_memory_storage order_of; storage = new_storage in
      let msg = made u now 0 ''group_1'' ''0xabc'' [1, 2, 3] (unique_nonce 0) [] in
      unwrap_then (sa_create_message SA msg storage) (\<lambda>created storage.
        msg_order created = Some 1 \<and> msg_group_id created = ''group_1''))"

definition test_create_multiple_messages_increments_order ::
  "(mem_storage \<Rightarrow> uuid list) \<Rightarrow> (nat \<Rightarrow> uuid) \<Rightarrow> (nat \<Rightarrow> datetime) \<Rightarrow> bool" where
  "test_create_multiple_messages_increments_order order_of u now =
     (let SA = in_memory_storage order_of; storage = new_storage in
      let msg1 = made u now 0 ''group_1'' ''0xabc'' [1] (unique_nonce 1) [] in
      let msg2 = made u now 1 ''group_1'' ''0xdef'' [2] (unique_nonce 2) [] in
      let msg3 = made u now 2 ''group_1'' ''0x123'' [3] (unique_nonce 3) [] in
      unwrap_then (sa_create_message SA msg1 storage) (\<lambda>created1 storage.
      unwrap_then (sa_create_message SA msg2 storage) (\<lambda>created2 storage.
      unwrap_then (sa_create_message SA msg3 storage) (\<lambda>created3 storage.
        msg_order created1 = Some 1 \<and> msg_order created2 = Some 2 \<and> msg_order created3 = Some 3))))"

definition test_create_message_rejects_duplicate_nonce ::
  "(mem_storage \<Rightarrow> uuid list) \<Rightarrow> (nat \<Rightarrow> uuid) \<Rightarrow> (nat \<Rightarrow> datetime) \<Rightarrow> bool" where
  "test_create_message_rejects_duplicate_nonce order_of u now =
     (let SA = in_memory_storage order_of; storage = new_storage in
      let msg1 = made u now 0 ''group_1'' ''0xabc'' [1] (unique_nonce 99) [] in
      let msg2 = made u now 1 ''group_1'' ''0xdef'' [2] (unique_nonce 99) [] in
      unwrap_then (sa_create_message SA msg1 storage) (\<lambda>_ storage.
        fst (sa_create_message SA msg2 storage) = Inl DuplicateNonce))"

definition test_get_message ::
  "(mem_storage \<Rightarrow> uuid list) \<Rightarrow> (nat \<Rightarrow> uuid) \<Rightarrow> (nat \<Rightarrow> datetime) \<Rightarrow> bool" where
  "test_get_message order_of u now =
     (let SA = in_memory_storage order_of; storage = new_storage in
      let msg = made u now 0 ''group_1'' ''0xabc'' [1] (unique_nonce 0) [] in
      let mid = msg_id msg in
      unwrap_then (sa_create_message SA msg storage) (\<lambda>_ storage.
      unwrap_read (sa_get_message SA mid storage) (\<lambda>fetched.
        msg_id fetched = mid)))"

definition test_get_message_not_found ::
  "(mem_storage \<Rightarrow> uuid list) \<Rightarrow> (nat \<Rightarrow> uuid) \<Rightarrow> (nat \<Rightarrow> datetime) \<Rightarrow> bool" where
  "test_get_message_not_found order_of u now =
     (let SA = in_memory_storage order_of; storage = new_storage in
      (case sa_get_message SA (u 0) storage of Inl (NotFound _) \<Rightarrow> True | _ \<Rightarrow> False))"

definition test_get_messages_by_group ::
  "(mem_storage \<Rightarrow> uuid list) \<Rightarrow> (nat \<Rightarrow> uuid) \<Rightarrow> (nat \<Rightarrow> datetime) \<Rightarrow> bool" where
  "test_get_messages_by_group order_of u now =
     (let SA = in_memory_storage order_of; storage = new_storage in
      create_each SA (map (\<lambda>i. made u now i ''group_1'' (''0x'' @ show_nat i) [of_nat i]
          (unique_nonce (of_nat i)) []) [0..<5]) storage (\<lambda>storage.
      create_each SA (map (\<lambda>i. made u now (5 + i) ''group_2'' (''0x'' @ show_nat i) [of_nat i]
          (unique_nonce (10 + of_nat i)) []) [0..<3]) storage (\<lambda>storage.
      unwrap_read (sa_get_messages_by_group SA ''group_1'' None None 10 storage) (\<lambda>group1_messages.
      unwrap_read (sa_get_messages_by_group SA ''group_2'' None None 10 storage) (\<lambda>group2_messages.
        length group1_messages = 5 \<and> length group2_messages = 3)))))"

definition test_get_messages_by_group_pagination_after ::
  "(mem_storage \<Rightarrow> uuid list) \<Rightarrow> (nat \<Rightarrow> uuid) \<Rightarrow> (nat \<Rightarrow> datetime) \<Rightarrow> bool" where
  "test_get_messages_by_group_pagination_after order_of u now =
     (let SA = in_memory_storage order_of; storage = new_storage in
      create_each SA (map (\<lambda>i. made u now i ''group_1'' (''0x'' @ show_nat i) [of_nat i]
          (unique_nonce (of_nat i)) []) [0..<5]) storage (\<lambda>storage.
      unwrap_read (sa_get_messages_by_group SA ''group_1'' (Some 2) None 10 storage) (\<lambda>messages.
        length messages = 3 \<and> msg_order (messages ! 0) = Some 3 \<and> msg_order (messages ! 1) = Some 4 \<and>
        msg_order (messages ! 2) = Some 5)))"

definition test_get_messages_by_group_pagination_before ::
  "(mem_storage \<Rightarrow> uuid list) \<Rightarrow> (nat \<Rightarrow> uuid) \<Rightarrow> (nat \<Rightarrow> datetime) \<Rightarrow> bool" where
  "test_get_messages_by_group_pagination_before order_of u now =
     (let SA = in_memory_storage order_of; storage = new_storage in
      create_each SA (map (\<lambda>i. made u now i ''group_1'' (''0x'' @ show_nat i) [of_nat i]
          (unique_nonce (of_nat i)) []) [0..<5]) storage (\<lambda>storage.
      unwrap_read (sa_get_messages_by_group SA ''group_1'' None (Some 4) 10 storage) (\<lambda>messages.
        length messages = 3 \<and> msg_order (messages ! 0) = Some 1 \<and> msg_order (messages ! 1) = Some 2 \<and>
        msg_order (messages ! 2) = Some 3)))"

definition test_delete_message_sets_status ::
  "(mem_storage \<Rightarrow> uuid list) \<Rightarrow> (nat \<Rightarrow> uuid) \<Rightarrow> (nat \<Rightarrow> datetime) \<Rightarrow> bool" where
  "test_delete_message_sets_status order_of u now =
     (let SA = in_memory_storage order_of; storage = new_storage in
      let msg = made u now 0 ''group_1'' ''0xabc'' [1] (unique_nonce 0) [] in
      let mid = msg_id msg in
      unwrap_then (sa_create_message SA msg storage) (\<lambda>_ storage.
      unwrap_then (sa_delete_message SA (now 1) mid storage) (\<lambda>deleted storage.
        msg_sync_status deleted = DeletePending)))"

definition test_update_sync_status ::
  "(mem_storage \<Rightarrow> uuid list) \<Rightarrow> (nat \<Rightarrow> uuid) \<Rightarrow> (nat \<Rightarrow> datetime) \<Rightarrow> bool" where
  "test_update_sync_status order_of u now =
     (let SA = in_memory_storage order_of; storage = new_storage in
      let msg = made u now 0 ''group_1'' ''0xabc'' [1] (unique_nonce 0) [] in
      let mid = msg_id msg in
      unwrap_then (sa_create_message SA msg storage) (\<lambda>_ storage.
      unwrap_then (sa_update_sync_status SA (now 1) mid Synced (Some ''quilt_123'') storage) (\<lambda>updated storage.
        msg_sync_status updated = Synced \<and> msg_quilt_patch_id updated = Some ''quilt_123'')))"

definition test_get_messages_by_sync_status ::
  "(mem_storage \<Rightarrow> uuid list) \<Rightarrow> (nat \<Rightarrow> uuid) \<Rightarrow> (nat \<Rightarrow> datetime) \<Rightarrow> bool" where
  "test_get_messages_by_sync_status order_of u now =
     (let SA = in_memory_storage order_of; storage = new_storage in
      create_each SA (map (\<lambda>i. made u now i ''group_1'' (''0x'' @ show_nat i) [of_nat i]
          (unique_nonce (of_nat i)) []) [0..<3]) storage (\<lambda>storage.
      unwrap_read (sa_get_messages_by_sync_status SA SyncPending 10 storage) (\<lambda>pending.
        length pending = 3)))"

definition test_create_message_with_attachments ::
  "(mem_storage \<Rightarrow> uuid list) \<Rightarrow> (nat \<Rightarrow> uuid) \<Rightarrow> (nat \<Rightarrow> datetime) \<Rightarrow> bool" where
  "test_create_message_with_attachments order_of u now =
     (let SA = in_memory_storage order_of; storage = new_storage in
      let attachments = [sample_attachment ''1'', sample_attachment ''2''] in
      let msg = made u now 0 ''group_1'' ''0xabc'' [1, 2, 3] (unique_nonce 50) attachments in
      let mid = msg_id msg in
      unwrap_then (sa_create_message SA msg storage) (\<lambda>_ storage.
      unwrap_read (sa_get_message SA mid storage) (\<lambda>fetched.
        length (msg_attachments fetched) = 2 \<and> msg_attachments fetched = attachments)))"

definition test_update_message_replaces_attachments ::
  "(mem_storage \<Rightarrow> uuid list) \<Rightarrow> (nat \<Rightarrow> uuid) \<Rightarrow> (nat \<Rightarrow> datetime) \<Rightarrow> bool" where
  "test_update_message_replaces_attachments order_of u now =
     (let SA = in_memory_storage order_of; storage = new_storage in
      let msg = made u now 0 ''group_1'' ''0xabc'' [1] (unique_nonce 60) [sample_attachment ''original''] in
      let mid = msg_id msg in
      unwrap_then (sa_create_message SA msg storage) (\<lambda>_ storage.
      let new_attachments = [sample_attachment ''a'', sample_attachment ''b''] in
      unwrap_then (sa_update_message SA (now 1) mid [2] (unique_nonce 61) 1 new_attachments
          (replicate 64 0) (replicate 33 0) storage) (\<lambda>updated storage.
        msg_attachments updated = new_attachments \<and> msg_sync_status updated = UpdatePending \<and>
      unwrap_read (sa_get_message SA mid storage) (\<lambda>fetched.
        msg_attachments fetched = new_attachments))))"

section \<open>Evaluation\<close>

lemma unique_nonce_inject [simp]: "unique_nonce i = unique_nonce j \<longleftrightarrow> i = j"
  by (simp add: unique_nonce_def numeral_eq_Suc)

lemmas storage_eval = in_memory_storage_def mem_create_message_def next_order_def create_insert_def
  new_storage_def Let_def message_new_def mem_get_message_def
  mem_delete_message_def mem_update_message_def mem_update_sync_status_def set_order_def

text \<open>The messages of a group as a loop stores them: numbered upwards.\<close>

fun numbered :: "i64 \<Rightarrow> message list \<Rightarrow> message list" where
  "numbered k [] = []"
| "numbered k (m # ms) = set_order k m # numbered (k + 1) ms"

lemma mem_create_fresh:
  assumes "unwrap_or 1 (map_option (\<lambda>k. k + 1) (st_group_orders s (msg_group_id m))) = k"
    and "st_messages s (msg_id m) = None" and "msg_nonce m \<notin> st_nonces s"
  shows "mem_create_message m s =
    (Inr (set_order k m),
     s\<lparr>st_group_orders := (st_group_orders s)(msg_group_id m \<mapsto> k),
       st_nonces := insert (msg_nonce m) (st_nonces s),
       st_messages := (st_messages s)(msg_id m \<mapsto> set_order k m)\<rparr>)"
  using assms by (simp add: mem_create_message_def next_order_def create_insert_def Let_def)

lemma create_each_group:
  assumes "keys_ok s"
    and "unwrap_or 1 (map_option (\<lambda>k. k + 1) (st_group_orders s g)) = k"
    and "\<forall>m\<in>set ms. msg_group_id m = g \<and> st_messages s (msg_id m) = None \<and> msg_nonce m \<notin> st_nonces s"
    and "distinct (map msg_id ms)" and "distinct (map msg_nonce ms)"
  shows "\<exists>s'. (\<forall>rest. create_each (in_memory_storage order_of) ms s rest = rest s') \<and>
    keys_ok s' \<and>
    ran (st_messages s') = ran (st_messages s) \<union> set (numbered k ms) \<and>
    dom (st_messages s') = dom (st_messages s) \<union> msg_id ` set ms \<and>
    st_nonces s' = st_nonces s \<union> msg_nonce ` set ms \<and>
    (\<forall>h. h \<noteq> g \<longrightarrow> st_group_orders s' h = st_group_orders s h)"
  using assms
proof (induction ms arbitrary: s k)
  case Nil
  then show ?case by auto
next
  case (Cons m ms)
  let ?s = "s\<lparr>st_group_orders := (st_group_orders s)(g \<mapsto> k),
       st_nonces := insert (msg_nonce m) (st_nonces s),
       st_messages := (st_messages s)(msg_id m \<mapsto> set_order k m)\<rparr>"
  have made: "mem_create_message m s = (Inr (set_order k m), ?s)"
    using mem_create_fresh [of s m k] Cons.prems(2,3) by simp
  have others: "msg_id n \<noteq> msg_id m" "msg_nonce n \<noteq> msg_nonce m" if "n \<in> set ms" for n
    using Cons.prems(4,5) that by (auto simp: image_iff)
  have next_state: "unwrap_or 1 (map_option (\<lambda>k. k + 1) (st_group_orders ?s g)) = k + 1"
      "keys_ok ?s" "distinct (map msg_id ms)" "distinct (map msg_nonce ms)"
    using Cons.prems(1,4,5) by (simp_all add: keys_ok_def)
  have fresh: "\<forall>n\<in>set ms. msg_group_id n = g \<and> st_messages ?s (msg_id n) = None \<and> msg_nonce n \<notin> st_nonces ?s"
    using Cons.prems(3) others by simp
  obtain s' where s': "\<forall>rest. create_each (in_memory_storage order_of) ms ?s rest = rest s'"
      "keys_ok s'" "ran (st_messages s') = ran (st_messages ?s) \<union> set (numbered (k + 1) ms)"
      "dom (st_messages s') = dom (st_messages ?s) \<union> msg_id ` set ms"
      "st_nonces s' = st_nonces ?s \<union> msg_nonce ` set ms"
      "\<forall>h. h \<noteq> g \<longrightarrow> st_group_orders s' h = st_group_orders ?s h"
    using Cons.IH [OF next_state(2,1) fresh next_state(3,4)]
    by (elim exE conjE) (rule that, assumption+)
  have ran: "ran (st_messages ?s) = insert (set_order k m) (ran (st_messages s))"
    using Cons.prems(3) by (simp add: ran_map_upd)
  have "create_each (in_memory_storage order_of) (m # ms) s rest = rest s'" for rest
    using made s'(1) by simp
  then show ?case
    using s'(2,3,4,5,6) unfolding ran by (intro exI [of _ s'] conjI allI) simp_all
qed

text \<open>A listing, whatever order the map iterates in, is the one list in ascending order.\<close>

lemma distinct_hm_values:
  assumes "keys_ok s" and "lists_keys keys (st_messages s)"
  shows "distinct (hm_values keys (st_messages s))"
  using assms distinct_ids_hm_values [of keys "st_messages s"]
  by (simp add: lists_keys_def keys_ok_def distinct_map)

context hash_order
begin

lemma listing_by_group:
  assumes inv: "keys_ok s"
    and found: "set xs = {m \<in> ran (st_messages s). msg_group_id m = g \<and> in_page aft bef m}"
    and sorted: "sorted_wrt (<) (map order_key xs)"
  shows "sa_get_messages_by_group (in_memory_storage order_of) g aft bef limit s = Inr (take limit xs)"
proof -
  have keys: "lists_keys (order_of s) (st_messages s)"
    using inv by (intro lists) (simp add: keys_ok_def)
  let ?fs = "filter (in_page aft bef) (filter (\<lambda>m. msg_group_id m = g)
      (hm_values (order_of s) (st_messages s)))"
  have same: "set ?fs = set xs" using found set_hm_values [OF keys] by auto
  have "distinct ?fs" using distinct_hm_values [OF inv keys] by simp
  moreover have "inj_on order_key (set ?fs)"
    using sorted unfolding same by (simp add: strict_sorted_iff distinct_map)
  ultimately have "sort_key order_key ?fs = xs"
    using sorted same by (intro strict_key_unique [of order_key] sort_key_strict) (simp_all add: distinct_map)
  then show ?thesis
    using inv unfolding in_memory_storage_def mem_get_messages_by_group_def page_filter_eq
    by (simp add: order_key_def [abs_def])
qed

lemma listing_by_status:
  assumes inv: "keys_ok s"
    and found: "set xs = {m \<in> ran (st_messages s). msg_sync_status m = st}" and "distinct xs"
  shows "\<exists>ys. sa_get_messages_by_sync_status (in_memory_storage order_of) st limit s = Inr (take limit ys) \<and>
    length ys = length xs"
proof -
  have keys: "lists_keys (order_of s) (st_messages s)"
    using inv by (intro lists) (simp add: keys_ok_def)
  let ?fs = "filter (\<lambda>m. msg_sync_status m = st) (hm_values (order_of s) (st_messages s))"
  have "set ?fs = set xs" using found set_hm_values [OF keys] by auto
  moreover have "distinct ?fs" using distinct_hm_values [OF inv keys] by simp
  ultimately have "length ?fs = length xs"
    using \<open>distinct xs\<close> by (metis distinct_card)
  then show ?thesis
    using inv by (intro exI [of _ ?fs])
      (simp add: in_memory_storage_def mem_get_messages_by_sync_status_def)
qed

end

section \<open>The tests hold\<close>

lemma single_message_tests:
  "test_create_message_assigns_order order_of u now"
  "test_get_message order_of u now"
  "test_get_message_not_found order_of u now"
  "test_delete_message_sets_status order_of u now"
  "test_update_sync_status order_of u now"
  "test_create_message_with_attachments order_of u now"
  "test_update_message_replaces_attachments order_of u now"
  by (simp_all add: test_create_message_assigns_order_def test_get_message_def test_get_message_not_found_def
      test_delete_message_sets_status_def test_update_sync_status_def test_create_message_with_attachments_def
      test_update_message_replaces_attachments_def mark_for_deletion_def update_content_def storage_eval)

text \<open>\<open>Uuid::new_v4\<close> yields no identifier twice; no test asks for more than eight.\<close>

definition fresh_ids :: "(nat \<Rightarrow> uuid) \<Rightarrow> bool" where
  "fresh_ids u \<longleftrightarrow> inj_on u {..<8}"

lemma fresh_ids_eq: "fresh_ids u \<Longrightarrow> i < 8 \<Longrightarrow> j < 8 \<Longrightarrow> u i = u j \<longleftrightarrow> i = j"
  by (auto simp: fresh_ids_def inj_on_def)

lemma several_message_tests:
  assumes "fresh_ids u"
  shows "test_create_multiple_messages_increments_order order_of u now"
    and "test_create_message_rejects_duplicate_nonce order_of u now"
  using assms
  by (simp_all add: test_create_multiple_messages_increments_order_def fresh_ids_eq
      test_create_message_rejects_duplicate_nonce_def storage_eval)

lemma upt_3_5: "[0..<3] = [0, 1, 2]" "[0..<5] = [0, 1, 2, 3, 4]"
  by (simp_all add: upt_rec)

lemma made_sel:
  "msg_id (made u now k g a e n atts) = u k" "msg_nonce (made u now k g a e n atts) = n"
  "msg_group_id (made u now k g a e n atts) = g"
  "msg_sync_status (made u now k g a e n atts) = SyncPending"
  by (simp_all add: message_new_def default_sync_status_def)

lemma order_key_made: "order_key (set_order k m) = sint k"
  by (simp add: order_key_def set_order_def)

lemma set_order_sel:
  "msg_group_id (set_order k m) = msg_group_id m" "msg_sync_status (set_order k m) = msg_sync_status m"
  "msg_order (set_order k m) = Some k" "msg_id (set_order k m) = msg_id m"
  by (simp_all add: set_order_def)

text \<open>The five messages that most of the tests start from, in their order.\<close>

abbreviation five :: "(nat \<Rightarrow> uuid) \<Rightarrow> (nat \<Rightarrow> datetime) \<Rightarrow> message list" where
  "five u now \<equiv> map (\<lambda>i. set_order (of_nat i + 1)
     (made u now i ''group_1'' (''0x'' @ show_nat i) [of_nat i] (unique_nonce (of_nat i)) [])) [0, 1, 2, 3, 4]"

abbreviation three :: "(nat \<Rightarrow> uuid) \<Rightarrow> (nat \<Rightarrow> datetime) \<Rightarrow> message list" where
  "three u now \<equiv> map (\<lambda>i. set_order (of_nat i + 1) (made u now (5 + i) ''group_2''
     (''0x'' @ show_nat i) [of_nat i] (unique_nonce (10 + of_nat i)) [])) [0, 1, 2]"

lemma created_five:
  assumes "fresh_ids u"
  obtains s where "\<And>rest. create_each (in_memory_storage order_of) (map (\<lambda>i. made u now i ''group_1''
        (''0x'' @ show_nat i) [of_nat i] (unique_nonce (of_nat i)) []) [0..<5]) new_storage rest = rest s"
    and "keys_ok s" and "ran (st_messages s) = set (five u now)"
    and "\<And>k. 5 \<le> k \<Longrightarrow> k < 8 \<Longrightarrow> st_messages s (u k) = None" and "st_nonces s = unique_nonce ` {0, 1, 2, 3, 4}"
    and "st_group_orders s ''group_2'' = None"
proof -
  let ?ms = "map (\<lambda>i. made u now i ''group_1'' (''0x'' @ show_nat i) [of_nat i] (unique_nonce (of_nat i)) []) [0..<5]"
  have "keys_ok new_storage" using mem_inv_new by (simp add: mem_inv_def)
  moreover have "distinct (map msg_id ?ms)" "distinct (map msg_nonce ?ms)"
    using assms by (simp_all add: upt_3_5 made_sel fresh_ids_eq)
  ultimately have "\<exists>s. (\<forall>rest. create_each (in_memory_storage order_of) ?ms new_storage rest = rest s) \<and>
      keys_ok s \<and> ran (st_messages s) = set (numbered 1 ?ms) \<and>
      dom (st_messages s) = msg_id ` set ?ms \<and> st_nonces s = msg_nonce ` set ?ms \<and>
      (\<forall>h. h \<noteq> ''group_1'' \<longrightarrow> st_group_orders s h = None)"
    using create_each_group [of new_storage "''group_1''" 1 ?ms order_of]
    by (simp add: made_sel) (simp add: new_storage_def)
  then obtain s where s: "\<forall>rest. create_each (in_memory_storage order_of) ?ms new_storage rest = rest s"
      "keys_ok s" "ran (st_messages s) = set (numbered 1 ?ms)"
      "dom (st_messages s) = msg_id ` set ?ms" "st_nonces s = msg_nonce ` set ?ms"
      "\<forall>h. h \<noteq> ''group_1'' \<longrightarrow> st_group_orders s h = None"
    by (elim exE conjE) (rule that, assumption+)
  have "msg_id ` set ?ms = u ` {0, 1, 2, 3, 4}" "msg_nonce ` set ?ms = unique_nonce ` {0, 1, 2, 3, 4}"
    "numbered 1 ?ms = five u now"
    by (simp_all add: upt_3_5 made_sel)
  note five = this
  show ?thesis
  proof (rule that [of s])
    show "st_messages s (u k) = None" if "5 \<le> k" "k < 8" for k
    proof -
      have "u k \<notin> dom (st_messages s)"
        unfolding s(4) five using \<open>fresh_ids u\<close> that by (auto simp: fresh_ids_eq)
      then show ?thesis by (simp add: domIff)
    qed
    show "st_group_orders s ''group_2'' = None" using s(6) by simp
  qed (use s five in simp_all)
qed

lemma page_tests:
  assumes "fresh_ids u" and keys: "hash_order order_of"
  shows "test_get_messages_by_group_pagination_after order_of u now"
    and "test_get_messages_by_group_pagination_before order_of u now"
proof -
  obtain s where s: "\<And>rest. create_each (in_memory_storage order_of) (map (\<lambda>i. made u now i ''group_1''
        (''0x'' @ show_nat i) [of_nat i] (unique_nonce (of_nat i)) []) [0..<5]) new_storage rest = rest s"
      "keys_ok s" "ran (st_messages s) = set (five u now)"
    by (rule created_five [OF \<open>fresh_ids u\<close>, of order_of now]) (rule that)
  have "sa_get_messages_by_group (in_memory_storage order_of) ''group_1'' (Some 2) None 10 s =
      Inr (take 10 (drop 2 (five u now)))"
    by (rule hash_order.listing_by_group [OF keys s(2)])
      (auto simp: s(3) in_page_def order_key_made set_order_sel made_sel simp del: message.simps)
  then show "test_get_messages_by_group_pagination_after order_of u now"
    unfolding test_get_messages_by_group_pagination_after_def Let_def s(1) by (simp add: set_order_sel)
  have "sa_get_messages_by_group (in_memory_storage order_of) ''group_1'' None (Some 4) 10 s =
      Inr (take 10 (take 3 (five u now)))"
    by (rule hash_order.listing_by_group [OF keys s(2)])
      (auto simp: s(3) in_page_def order_key_made set_order_sel made_sel simp del: message.simps)
  then show "test_get_messages_by_group_pagination_before order_of u now"
    unfolding test_get_messages_by_group_pagination_before_def Let_def s(1) by (simp add: set_order_sel)
qed

lemma group_test:
  assumes "fresh_ids u" and keys: "hash_order order_of"
  shows "test_get_messages_by_group order_of u now"
proof -
  let ?more = "map (\<lambda>i. made u now (5 + i) ''group_2'' (''0x'' @ show_nat i) [of_nat i]
      (unique_nonce (10 + of_nat i)) []) [0..<3]"
  obtain s where s: "\<And>rest. create_each (in_memory_storage order_of) (map (\<lambda>i. made u now i ''group_1''
        (''0x'' @ show_nat i) [of_nat i] (unique_nonce (of_nat i)) []) [0..<5]) new_storage rest = rest s"
      "keys_ok s" "ran (st_messages s) = set (five u now)"
      "\<And>k. 5 \<le> k \<Longrightarrow> k < 8 \<Longrightarrow> st_messages s (u k) = None" "st_nonces s = unique_nonce ` {0, 1, 2, 3, 4}"
      "st_group_orders s ''group_2'' = None"
    by (rule created_five [OF \<open>fresh_ids u\<close>, of order_of now]) (rule that)
  obtain t where t: "\<forall>rest. create_each (in_memory_storage order_of) ?more s rest = rest t"
      "keys_ok t" "ran (st_messages t) = set (five u now) \<union> set (three u now)"
    using create_each_group [of s "''group_2''" 1 ?more order_of] s(2-6) \<open>fresh_ids u\<close>
    by (auto simp: upt_3_5 made_sel fresh_ids_eq)
  have "sa_get_messages_by_group (in_memory_storage order_of) ''group_1'' None None 10 t =
      Inr (take 10 (five u now))"
    by (rule hash_order.listing_by_group [OF keys t(2)])
      (auto simp: t(3) in_page_def order_key_made set_order_sel made_sel simp del: message.simps)
  moreover have "sa_get_messages_by_group (in_memory_storage order_of) ''group_2'' None None 10 t =
      Inr (take 10 (three u now))"
    by (rule hash_order.listing_by_group [OF keys t(2)])
      (auto simp: t(3) in_page_def order_key_made set_order_sel made_sel simp del: message.simps)
  ultimately show ?thesis
    unfolding test_get_messages_by_group_def Let_def s(1) t(1) [rule_format] by simp
qed

lemma status_test:
  assumes "fresh_ids u" and keys: "hash_order order_of"
  shows "test_get_messages_by_sync_status order_of u now"
proof -
  let ?ms = "map (\<lambda>i. made u now i ''group_1'' (''0x'' @ show_nat i) [of_nat i] (unique_nonce (of_nat i)) []) [0..<3]"
  let ?xs = "numbered 1 ?ms"
  have "keys_ok new_storage" using mem_inv_new by (simp add: mem_inv_def)
  moreover have "distinct (map msg_id ?ms)" "distinct (map msg_nonce ?ms)"
    using assms by (simp_all add: upt_3_5 made_sel fresh_ids_eq)
  ultimately obtain s where s: "\<forall>rest. create_each (in_memory_storage order_of) ?ms new_storage rest = rest s"
      "keys_ok s" "ran (st_messages s) = set ?xs"
    using create_each_group [of new_storage "''group_1''" 1 ?ms order_of]
    by (simp add: upt_3_5 made_sel) (auto simp add: new_storage_def)
  have "distinct (map msg_id ?xs)"
    using \<open>fresh_ids u\<close> by (simp add: upt_3_5 set_order_sel made_sel fresh_ids_eq)
  then have "distinct ?xs" by (rule distinct_map [THEN iffD1, THEN conjunct1])
  moreover have "set ?xs = {m \<in> ran (st_messages s). msg_sync_status m = SyncPending}"
    by (auto simp: s(3) upt_3_5 set_order_sel made_sel simp del: message.simps)
  ultimately obtain ys where "sa_get_messages_by_sync_status (in_memory_storage order_of) SyncPending 10 s =
      Inr (take 10 ys)" "length ys = length ?xs"
    using hash_order.listing_by_status [OF keys s(2), of ?xs SyncPending 10] by blast
  then show ?thesis
    unfolding test_get_messages_by_sync_status_def Let_def s(1) [rule_format] by (simp add: upt_3_5)
qed

end
