(* ===== verification/Unit_Tests.thy ===== *)
theory Unit_Tests
  imports Storage_Tests Membership Signature Config
begin

text \<open>
  The unit tests of \<open>src/relayer/src/auth\<close> (\<open>membership.rs\<close>, \<open>permissions.rs\<close>, \<open>schemes.rs\<close>,
  \<open>signature.rs\<close>) and \<open>config.rs\<close>, as predicates over the model, written as in \<open>Storage_Tests\<close>. The tests
  of the address derivation and of the signature check run third-party cryptography: what they assert is
  reduced here to the published vectors and to the contract of the signer.
\<close>

section \<open>membership.rs\<close>

text \<open>\<open>unwrap_unit r rest\<close> goes on with the new state when the update succeeded, and panics otherwise.\<close>

definition unwrap_unit :: "('e, unit) result \<times> 'm \<Rightarrow> ('m \<Rightarrow> bool) \<Rightarrow> bool" where
  "unwrap_unit r rest = (case r of (Inl _, _) \<Rightarrow> False | (Inr _, m) \<Rightarrow> rest m)"

lemma unwrap_unit_simps [simp]:
  "unwrap_unit (Inl e, m) rest = False" "unwrap_unit (Inr u, m) rest = rest m"
  by (simp_all add: unwrap_unit_def)

definition test_grant_and_check_permission :: "messaging_permission list \<Rightarrow> bool" where
  "test_grant_and_check_permission iter_order =
     (let MS = in_memory_membership iter_order; store = new_members; group_id = ''group-123'' in
      let address = ''0xaabbccddeeff1122'' in
      \<not> ms_has_permission MS store group_id address MessagingSender \<and>
      (let store = ms_add_member MS group_id address [] store in
       unwrap_unit (ms_grant_permissions MS group_id address [MessagingSender] store) (\<lambda>store.
         ms_has_permission MS store group_id address MessagingSender \<and>
         \<not> ms_has_permission MS store group_id address MessagingEditor)))"

definition test_grant_permissions_fails_if_member_not_found :: "messaging_permission list \<Rightarrow> bool" where
  "test_grant_permissions_fails_if_member_not_found iter_order =
     (let MS = in_memory_membership iter_order; store = new_members; group_id = ''group-123'' in
      let address = ''0xaabbccddeeff1122'' in
      \<not> is_ok (fst (ms_grant_permissions MS group_id address [MessagingSender] store)))"

definition test_is_member :: "messaging_permission list \<Rightarrow> bool" where
  "test_is_member iter_order =
     (let MS = in_memory_membership iter_order; store = new_members; group_id = ''group-123'' in
      let address = ''0xaabbccddeeff1122'' in
      \<not> ms_is_member MS store group_id address \<and>
      (let store = ms_add_member MS group_id address [MessagingReader] store in
       ms_is_member MS store group_id address))"

definition test_revoke_permissions :: "messaging_permission list \<Rightarrow> bool" where
  "test_revoke_permissions iter_order =
     (let MS = in_memory_membership iter_order; store = new_members; group_id = ''group-123'' in
      let address = ''0xaabbccddeeff1122'' in
      let store = ms_add_member MS group_id address [MessagingSender, MessagingEditor] store in
      unwrap_unit (ms_revoke_permissions MS group_id address [MessagingSender] store) (\<lambda>store.
        \<not> ms_has_permission MS store group_id address MessagingSender \<and>
        ms_has_permission MS store group_id address MessagingEditor))"

definition test_remove_member :: "messaging_permission list \<Rightarrow> bool" where
  "test_remove_member iter_order =
     (let MS = in_memory_membership iter_order; store = new_members; group_id = ''group-123'' in
      let address = ''0xaabbccddeeff1122'' in
      let store = ms_add_member MS group_id address [MessagingSender] store in
      ms_is_member MS store group_id address \<and>
      (let store = ms_remove_member MS group_id address store in
       \<not> ms_is_member MS store group_id address))"

definition test_get_permissions :: "messaging_permission list \<Rightarrow> bool" where
  "test_get_permissions iter_order =
     (let MS = in_memory_membership iter_order; store = new_members; group_id = ''group-123'' in
      let address = ''0xabc123'' in
      ms_get_permissions MS store group_id address = [] \<and>
      (let store = ms_add_member MS group_id address [MessagingSender, MessagingReader] store;
           perms = ms_get_permissions MS store group_id address in
       length perms = 2 \<and> MessagingSender \<in> set perms \<and> MessagingReader \<in> set perms))"

definition test_set_group_members :: "messaging_permission list \<Rightarrow> bool" where
  "test_set_group_members iter_order =
     (let MS = in_memory_membership iter_order; store = new_members; group_id = ''group-123'' in
      let store = ms_set_group_members MS group_id
            [(''0xuser1'', [MessagingSender]), (''0xuser2'', [MessagingSender, MessagingEditor])] store in
      ms_has_permission MS store group_id ''0xuser1'' MessagingSender \<and>
      \<not> ms_has_permission MS store group_id ''0xuser1'' MessagingEditor \<and>
      ms_has_permission MS store group_id ''0xuser2'' MessagingSender \<and>
      ms_has_permission MS store group_id ''0xuser2'' MessagingEditor)"

definition test_factory_creates_in_memory_store :: "messaging_permission list \<Rightarrow> bool" where
  "test_factory_creates_in_memory_store iter_order =
     (case create_membership_store iter_order InMemoryMembership of (MS, store) \<Rightarrow>
        (let group_id = ''test-group''; address = ''0xtest''; store = ms_add_member MS group_id address [] store in
         unwrap_unit (ms_grant_permissions MS group_id address [MessagingSender] store) (\<lambda>store.
           ms_has_permission MS store group_id address MessagingSender)))"

section \<open>permissions.rs, schemes.rs and config.rs\<close>

definition test_from_type_name_valid :: bool where
  "test_from_type_name_valid \<longleftrightarrow>
     from_type_name ''0x123aabbcc::messaging::MessagingSender'' = Some MessagingSender \<and>
     from_type_name ''0x123aabbcc::messaging::MessagingReader'' = Some MessagingReader \<and>
     from_type_name ''0x123aabbcc::messaging::MessagingEditor'' = Some MessagingEditor \<and>
     from_type_name ''0x123aabbcc::messaging::MessagingDeleter'' = Some MessagingDeleter"

definition test_from_type_name_non_messaging :: bool where
  "test_from_type_name_non_messaging \<longleftrightarrow>
     from_type_name ''0x123aabbcc::permissioned_group::Administrator'' = None"

definition test_from_type_name_invalid :: bool where
  "test_from_type_name_invalid \<longleftrightarrow>
     from_type_name [] = None \<and> from_type_name ''InvalidPermission'' = None"

definition test_from_flag :: bool where
  "test_from_flag \<longleftrightarrow>
     from_flag 0x00 = Some Ed25519 \<and> from_flag 0x01 = Some Secp256k1 \<and>
     from_flag 0x02 = Some Secp256r1 \<and> from_flag 0x03 = None \<and> from_flag 0xFF = None"

definition test_flag :: bool where
  "test_flag \<longleftrightarrow>
     scheme_flag Ed25519 = 0x00 \<and> scheme_flag Secp256k1 = 0x01 \<and> scheme_flag Secp256r1 = 0x02"

definition test_public_key_length :: bool where
  "test_public_key_length \<longleftrightarrow>
     public_key_length Ed25519 = 32 \<and> public_key_length Secp256k1 = 33 \<and>
     public_key_length Secp256r1 = 33"

definition test_default_config :: bool where
  "test_default_config \<longleftrightarrow>
     (let config = default_config in cf_port config = 3000 \<and> cf_request_ttl_seconds config = 900)"

definition test_walrus_defaults :: bool where
  "test_walrus_defaults \<longleftrightarrow>
     (let config = default_config in
      str_contains (cf_walrus_publisher_url config) ''testnet'' \<and>
      str_contains (cf_walrus_aggregator_url config) ''testnet'' \<and>
      cf_walrus_storage_epochs config = 5)"

section \<open>signature.rs\<close>

text \<open>
  The tests of the replay window read the clock themselves, and \<open>validate_timestamp\<close> reads it again at
  each call: \<open>now\<close> is the test's reading and \<open>later k\<close> the \<open>k\<close>-th call's.
\<close>

definition test_validate_timestamp_valid :: "i64 \<Rightarrow> (nat \<Rightarrow> i64) \<Rightarrow> bool" where
  "test_validate_timestamp_valid now later =
     (let ttl = 300 in
      is_ok (validate_timestamp (later 0) now ttl) \<and>
      is_ok (validate_timestamp (later 1) (now - 60) ttl) \<and>
      is_ok (validate_timestamp (later 2) (now + 60) ttl))"

definition test_validate_timestamp_expired :: "i64 \<Rightarrow> (nat \<Rightarrow> i64) \<Rightarrow> bool" where
  "test_validate_timestamp_expired now later =
     (let ttl = 300 in
      \<not> is_ok (validate_timestamp (later 0) (now - 600) ttl) \<and>
      \<not> is_ok (validate_timestamp (later 1) (now + 600) ttl))"

subsection \<open>Addresses\<close>

definition test_derive_sui_address_ed25519 :: "'us externs \<Rightarrow> bool" where
  "test_derive_sui_address_ed25519 X =
     (case x_hex_decode X ''dec9c24a98da1187e30a5824ca2ee1e91e956b7dd6970590651d7d46c5e2ed41'' of
        Inl _ \<Rightarrow> False
      | Inr public_key_bytes \<Rightarrow>
          derive_sui_address X public_key_bytes Ed25519 =
            Inr ''0xc45d73cf687682db23be0ebdef5bc203585315b2d6a5a6a613b941e4d4a6a0e7'')"

definition test_verify_address_matches_ed25519 :: "'us externs \<Rightarrow> bool" where
  "test_verify_address_matches_ed25519 X =
     (case x_hex_decode X ''dec9c24a98da1187e30a5824ca2ee1e91e956b7dd6970590651d7d46c5e2ed41'' of
        Inl _ \<Rightarrow> False
      | Inr public_key_bytes \<Rightarrow>
          is_ok (verify_address_matches_pubkey X
            ''0xc45d73cf687682db23be0ebdef5bc203585315b2d6a5a6a613b941e4d4a6a0e7''
            public_key_bytes Ed25519))"

definition test_derive_sui_address_secp256k1 :: "'us externs \<Rightarrow> bool" where
  "test_derive_sui_address_secp256k1 X =
     (case x_hex_decode X ''024324a9c68113352194ff0b8bca673e6d01f67e97f80a827ee9ce898119da9f86'' of
        Inl _ \<Rightarrow> False
      | Inr public_key_bytes \<Rightarrow>
          derive_sui_address X public_key_bytes Secp256k1 =
            Inr ''0x87ee5d74c3e7ae5145072943685451dfd71a8e911c04f0d90e636ec7d6483543'')"

definition test_verify_address_matches_secp256k1 :: "'us externs \<Rightarrow> bool" where
  "test_verify_address_matches_secp256k1 X =
     (case x_hex_decode X ''024324a9c68113352194ff0b8bca673e6d01f67e97f80a827ee9ce898119da9f86'' of
        Inl _ \<Rightarrow> False
      | Inr public_key_bytes \<Rightarrow>
          is_ok (verify_address_matches_pubkey X
            ''0x87ee5d74c3e7ae5145072943685451dfd71a8e911c04f0d90e636ec7d6483543''
            public_key_bytes Secp256k1))"

definition test_derive_sui_address_secp256r1 :: "'us externs \<Rightarrow> bool" where
  "test_derive_sui_address_secp256r1 X =
     (case x_hex_decode X ''027951b52f60955a34eaac3bb75d086d1c431e45a9b44d0730d29db84ec148511e'' of
        Inl _ \<Rightarrow> False
      | Inr public_key_bytes \<Rightarrow>
          derive_sui_address X public_key_bytes Secp256r1 =
            Inr ''0x1f4283b353e5d5086bff6b7b68c4149a8c284fa53b0ca34a48cdfb407c6c2c09'')"

definition test_verify_address_matches_secp256r1 :: "'us externs \<Rightarrow> bool" where
  "test_verify_address_matches_secp256r1 X =
     (case x_hex_decode X ''027951b52f60955a34eaac3bb75d086d1c431e45a9b44d0730d29db84ec148511e'' of
        Inl _ \<Rightarrow> False
      | Inr public_key_bytes \<Rightarrow>
          is_ok (verify_address_matches_pubkey X
            ''0x1f4283b353e5d5086bff6b7b68c4149a8c284fa53b0ca34a48cdfb407c6c2c09''
            public_key_bytes Secp256r1))"

definition test_verify_address_mismatch :: "'us externs \<Rightarrow> bool" where
  "test_verify_address_mismatch X =
     (case x_hex_decode X ''dec9c24a98da1187e30a5824ca2ee1e91e956b7dd6970590651d7d46c5e2ed41'' of
        Inl _ \<Rightarrow> False
      | Inr public_key_bytes \<Rightarrow>
          \<not> is_ok (verify_address_matches_pubkey X
            ''0x1f4283b353e5d5086bff6b7b68c4149a8c284fa53b0ca34a48cdfb407c6c2c10''
            public_key_bytes Ed25519))"

subsection \<open>Signatures\<close>

text \<open>
  The signing keys of \<open>sui_crypto\<close>, as parameters: \<open>sg_sign\<close> signs a personal message and yields the bytes of
  the user signature, \<open>sg_public\<close> is the public key. \<open>new\<close> makes a key from 32 bytes; for \<open>Secp256k1\<close> it can
  fail.
\<close>

record 'k signer =
  sg_sign :: "'k \<Rightarrow> bytes \<Rightarrow> (string, bytes) result"
  sg_public :: "'k \<Rightarrow> bytes"

text \<open>The slice \<open>user_sig_bytes[1..65]\<close> panics when there are fewer bytes.\<close>

definition extract_signature_bytes :: "bytes \<Rightarrow> bytes option" where
  "extract_signature_bytes user_sig_bytes =
     (if length user_sig_bytes < 65 then None else Some (take 64 (drop 1 user_sig_bytes)))"

text \<open>The common end of the three tests: sign \<open>test message\<close>, cut the signature out, verify it.\<close>

definition signs_and_verifies ::
  "'us externs \<Rightarrow> 'k signer \<Rightarrow> 'k \<Rightarrow> bytes \<Rightarrow> signature_scheme \<Rightarrow> bool" where
  "signs_and_verifies X S signing_key public_key_bytes scheme =
     (let message = as_bytes ''test message'' in
      case sg_sign S signing_key message of
        Inl _ \<Rightarrow> False
      | Inr user_signature \<Rightarrow>
          (case extract_signature_bytes user_signature of
             None \<Rightarrow> False
           | Some signature_bytes \<Rightarrow>
               is_ok (verify_signature X message signature_bytes public_key_bytes scheme)))"

definition test_verify_signature_ed25519 :: "'us externs \<Rightarrow> (bytes \<Rightarrow> 'k) \<Rightarrow> 'k signer \<Rightarrow> bool" where
  "test_verify_signature_ed25519 X new S =
     (case x_hex_decode X ''4ac9bd5399f7b41da4f00ec612c4e6521a1c756c41578ed5c15133f96ab9ea78'' of
        Inl _ \<Rightarrow> False
      | Inr private_key_bytes \<Rightarrow>
          length private_key_bytes = 32 \<and>
          (case x_hex_decode X ''dec9c24a98da1187e30a5824ca2ee1e91e956b7dd6970590651d7d46c5e2ed41'' of
             Inl _ \<Rightarrow> False
           | Inr public_key_bytes \<Rightarrow>
               signs_and_verifies X S (new private_key_bytes) public_key_bytes Ed25519))"

definition test_verify_signature_secp256k1 :: "'us externs \<Rightarrow> (bytes \<Rightarrow> (string, 'k) result) \<Rightarrow> 'k signer \<Rightarrow> bool" where
  "test_verify_signature_secp256k1 X new S =
     (case x_hex_decode X ''6ae98ba75c281c5ea3fb80f06f5f1afd8a6b69ec2a02186c73c928d67c96cd4b'' of
        Inl _ \<Rightarrow> False
      | Inr private_key_bytes \<Rightarrow>
          length private_key_bytes = 32 \<and>
          (case new private_key_bytes of
             Inl _ \<Rightarrow> False
           | Inr signing_key \<Rightarrow>
               signs_and_verifies X S signing_key (sg_public S signing_key) Secp256k1))"

definition test_verify_signature_secp256r1 :: "'us externs \<Rightarrow> (bytes \<Rightarrow> 'k) \<Rightarrow> 'k signer \<Rightarrow> bool" where
  "test_verify_signature_secp256r1 X new S =
     (case x_hex_decode X ''7e944e7562603f3a6a0d799ca760d9e113de997da5b6915f70716fb371efae90'' of
        Inl _ \<Rightarrow> False
      | Inr private_key_bytes \<Rightarrow>
          length private_key_bytes = 32 \<and>
          (let signing_key = new private_key_bytes in
           signs_and_verifies X S signing_key (sg_public S signing_key) Secp256r1))"

section \<open>The tests hold\<close>

lemma membership_tests:
  assumes "distinct iter_order" and "set iter_order = UNIV"
  shows "test_grant_and_check_permission iter_order"
    and "test_grant_permissions_fails_if_member_not_found iter_order"
    and "test_is_member iter_order"
    and "test_revoke_permissions iter_order"
    and "test_remove_member iter_order"
    and "test_get_permissions iter_order"
    and "test_set_group_members iter_order"
    and "test_factory_creates_in_memory_store iter_order"
proof -
  note evaluate = in_memory_membership_def new_members_def has_permission_def is_member_def lookup_member_def
    add_member_def grant_permissions_def revoke_permissions_def remove_member_def set_group_members_def
    get_permissions_def create_membership_store_def Let_def
  have "set (filter (\<lambda>p. p = MessagingSender \<or> p = MessagingReader) iter_order) =
      {MessagingSender, MessagingReader}"
    using assms(2) by auto
  then have "length (filter (\<lambda>p. p = MessagingSender \<or> p = MessagingReader) iter_order) = 2"
    using distinct_card [OF distinct_filter [OF assms(1)], of "\<lambda>p. p = MessagingSender \<or> p = MessagingReader"]
    by simp
  then show "test_get_permissions iter_order"
    using assms by (simp add: test_get_permissions_def evaluate)
  show "test_grant_and_check_permission iter_order" "test_is_member iter_order"
    "test_grant_permissions_fails_if_member_not_found iter_order" "test_revoke_permissions iter_order"
    "test_remove_member iter_order" "test_set_group_members iter_order"
    "test_factory_creates_in_memory_store iter_order"
    by (simp_all add: test_grant_and_check_permission_def test_is_member_def test_remove_member_def
        test_grant_permissions_fails_if_member_not_found_def test_revoke_permissions_def
        test_set_group_members_def test_factory_creates_in_memory_store_def evaluate)
qed

lemma data_tests:
  "test_from_type_name_valid" "test_from_type_name_non_messaging" "test_from_type_name_invalid"
  "test_from_flag" "test_flag" "test_public_key_length"
  "test_default_config" "test_walrus_defaults"
  by code_simp+

text \<open>The clock may move on between the test's reading and the calls by up to four minutes.\<close>

lemma timestamp_tests:
  assumes "600 \<le> sint now" and "sint now < 2 ^ 61"
    and "\<forall>k. sint now \<le> sint (later k) \<and> sint (later k) \<le> sint now + 240"
  shows "test_validate_timestamp_valid now later" and "test_validate_timestamp_expired now later"
proof -
  have window: "is_ok (validate_timestamp (later k) ts 300) \<longleftrightarrow> \<bar>sint (later k) - sint ts\<bar> \<le> 300"
    if "0 \<le> sint ts" for k ts
    using validate_timestamp_iff [of "later k" 300 ts] assms(1,2) assms(3) [rule_format, of k] that
    by (cases "validate_timestamp (later k) ts 300") auto
  have moved: "sint (now - 60) = sint now - 60" "sint (now + 60) = sint now + 60"
    "sint (now - 600) = sint now - 600" "sint (now + 600) = sint now + 600"
    using assms(1,2) by (simp_all add: sint_word_ariths signed_take_bit_63 Let_def)
  show "test_validate_timestamp_valid now later" "test_validate_timestamp_expired now later"
    using assms by (simp_all add: test_validate_timestamp_valid_def test_validate_timestamp_expired_def window
        moved Let_def) (smt (verit, best) assms(3))+
qed

text \<open>An address test passes exactly when the hash gives the published address.\<close>

lemma verify_address_is_ok:
  "is_ok (verify_address_matches_pubkey X a pk scheme) \<longleftrightarrow> derive_sui_address X pk scheme = Inr a"
  by (auto simp: verify_address_matches_pubkey_def split: sum.splits)

lemma address_tests:
  "test_verify_address_matches_ed25519 X \<longleftrightarrow> test_derive_sui_address_ed25519 X"
  "test_verify_address_matches_secp256k1 X \<longleftrightarrow> test_derive_sui_address_secp256k1 X"
  "test_verify_address_matches_secp256r1 X \<longleftrightarrow> test_derive_sui_address_secp256r1 X"
  "test_derive_sui_address_ed25519 X \<Longrightarrow> test_verify_address_mismatch X"
  by (auto simp: test_verify_address_matches_ed25519_def test_derive_sui_address_ed25519_def
      test_verify_address_matches_secp256k1_def test_derive_sui_address_secp256k1_def
      test_verify_address_matches_secp256r1_def test_derive_sui_address_secp256r1_def
      test_verify_address_mismatch_def verify_address_is_ok split: sum.splits)

text \<open>What the tests rely on: a user signature is the flag, the signature and the key, and it verifies.\<close>

definition signs_validly :: "'us externs \<Rightarrow> 'k signer \<Rightarrow> signature_scheme \<Rightarrow> bool" where
  "signs_validly X S scheme \<longleftrightarrow>
     (\<forall>k m. \<exists>sg. sg_sign S k m = Inr (scheme_flag scheme # sg @ sg_public S k) \<and>
        signature_valid X m sg (sg_public S k) scheme)"

lemma signed_text_verifies:
  assumes "signs_validly X S scheme"
  shows "signs_and_verifies X S k (sg_public S k) scheme"
proof -
  obtain sg where sg: "sg_sign S k (as_bytes ''test message'') = Inr (scheme_flag scheme # sg @ sg_public S k)"
      "signature_valid X (as_bytes ''test message'') sg (sg_public S k) scheme"
    using assms unfolding signs_validly_def by blast
  then have "length sg = 64" by (simp add: signature_valid_def)
  with sg show ?thesis
    by (simp add: signs_and_verifies_def extract_signature_bytes_def Let_def verify_signature_Inr_iff [symmetric])
qed

lemma signature_tests:
  assumes "x_hex_decode X ''4ac9bd5399f7b41da4f00ec612c4e6521a1c756c41578ed5c15133f96ab9ea78'' = Inr ke" "length ke = 32" "signs_validly X Se Ed25519"
    and "x_hex_decode X ''dec9c24a98da1187e30a5824ca2ee1e91e956b7dd6970590651d7d46c5e2ed41'' = Inr (sg_public Se (new_e ke))"
    and "x_hex_decode X ''6ae98ba75c281c5ea3fb80f06f5f1afd8a6b69ec2a02186c73c928d67c96cd4b'' = Inr kk" "length kk = 32" "new_k kk = Inr sk" "signs_validly X Sk Secp256k1"
    and "x_hex_decode X ''7e944e7562603f3a6a0d799ca760d9e113de997da5b6915f70716fb371efae90'' = Inr kr" "length kr = 32" "signs_validly X Sr Secp256r1"
  shows "test_verify_signature_ed25519 X new_e Se" and "test_verify_signature_secp256k1 X new_k Sk"
    and "test_verify_signature_secp256r1 X new_r Sr"
  using assms
  by (simp_all add: test_verify_signature_ed25519_def test_verify_signature_secp256k1_def
      test_verify_signature_secp256r1_def signed_text_verifies Let_def)

lemma storage_tests:
  assumes "fresh_ids u" and "hash_order order_of"
  shows "test_create_message_assigns_order order_of u now \<and>
    test_create_multiple_messages_increments_order order_of u now \<and>
    test_create_message_rejects_duplicate_nonce order_of u now \<and>
    test_get_message order_of u now \<and> test_get_message_not_found order_of u now \<and>
    test_get_messages_by_group order_of u now \<and>
    test_get_messages_by_group_pagination_after order_of u now \<and>
    test_get_messages_by_group_pagination_before order_of u now \<and>
    test_delete_message_sets_status order_of u now \<and> test_update_sync_status order_of u now \<and>
    test_get_messages_by_sync_status order_of u now \<and>
    test_create_message_with_attachments order_of u now \<and>
    test_update_message_replaces_attachments order_of u now"
  using assms by (simp add: single_message_tests several_message_tests group_test page_tests status_test)

text \<open>
  The tests of the storage hold for every iteration order of its hash map, every clock and every supply
  of distinct identifiers; those of the membership store for every order in which a set is read out;
  those of the permissions, the schemes and the configuration as they are; and those of the replay
  window while the clock moves on by at most four minutes. The tests of the address check pass exactly
  when the three of the address derivation do; the remaining two kinds, signature verification and the
  mismatching address, are reduced to the signer and the hash by \<open>signature_tests\<close> and \<open>address_tests\<close>.
\<close>
lemma unit_tests_hold:
  assumes "fresh_ids u" and "hash_order order_of"
    and "distinct iter_order" and "set iter_order = UNIV"
    and "600 \<le> sint clock" and "sint clock < 2 ^ 61"
    and "\<forall>k. sint clock \<le> sint (later k) \<and> sint (later k) \<le> sint clock + 240"
  shows "(test_create_message_assigns_order order_of u now \<and>
      test_create_multiple_messages_increments_order order_of u now \<and>
      test_create_message_rejects_duplicate_nonce order_of u now \<and>
      test_get_message order_of u now \<and> test_get_message_not_found order_of u now \<and>
      test_get_messages_by_group order_of u now \<and>
      test_get_messages_by_group_pagination_after order_of u now \<and>
      test_get_messages_by_group_pagination_before order_of u now \<and>
      test_delete_message_sets_status order_of u now \<and> test_update_sync_status order_of u now \<and>
      test_get_messages_by_sync_status order_of u now \<and>
      test_create_message_with_attachments order_of u now \<and>
      test_update_message_replaces_attachments order_of u now) \<and>
    (test_grant_and_check_permission iter_order \<and>
      test_grant_permissions_fails_if_member_not_found iter_order \<and>
      test_is_member iter_order \<and> test_revoke_permissions iter_order \<and>
      test_remove_member iter_order \<and> test_get_permissions iter_order \<and>
      test_set_group_members iter_order \<and> test_factory_creates_in_memory_store iter_order) \<and>
    (test_from_type_name_valid \<and> test_from_type_name_non_messaging \<and> test_from_type_name_invalid \<and>
      test_from_flag \<and> test_flag \<and> test_public_key_length \<and>
      test_default_config \<and> test_walrus_defaults) \<and>
    test_validate_timestamp_valid clock later \<and> test_validate_timestamp_expired clock later \<and>
    (test_verify_address_matches_ed25519 X = test_derive_sui_address_ed25519 X) \<and>
    (test_verify_address_matches_secp256k1 X = test_derive_sui_address_secp256k1 X) \<and>
    (test_verify_address_matches_secp256r1 X = test_derive_sui_address_secp256r1 X)"
  using membership_tests [OF assms(3,4)] timestamp_tests [OF assms(5,6,7)]
  by (simp only: storage_tests [OF assms(1,2)] data_tests address_tests simp_thms)

lemma fresh_of_nat: "fresh_ids of_nat"
  by (auto simp: fresh_ids_def inj_on_def word_of_nat_eq_iff take_bit_nat_eq_self)

lemma unit_tests_hold_witness:
  "test_get_messages_by_group ascending of_nat (\<lambda>_. 0) \<and>
   test_get_permissions [MessagingSender, MessagingReader, MessagingEditor, MessagingDeleter] \<and>
   test_validate_timestamp_valid 1000 (\<lambda>_. 1001)"
  using unit_tests_hold [OF fresh_of_nat asc.hash_order_axioms,
      of "[MessagingSender, MessagingReader, MessagingEditor, MessagingDeleter]" 1000 "\<lambda>_. 1001" "\<lambda>_. 0"
      ref_externs]
  by (simp add: UNIV_messaging_permission)

end
