(* ===== verification/Spec2Isabelle.thy ===== *)
theory Spec2Isabelle
  imports Example Message_Lifecycle Pagination Signed_Texts Worker_Progress Startup Boot Unit_Tests
begin

text \<open>
  A verification library for the relayer of the Nautilus messaging application (the Rust crates below
  \<open>src/\<close>). The relayer stores end-to-end encrypted group messages for its clients: it authenticates
  each HTTP request by a Sui signature, authorizes it by the group permissions that it learns from the
  Sui checkpoint stream, keeps the messages in memory, and uploads them to Walrus in the background. It
  runs in a Nitro enclave and can sign its answers with the enclave's key. The paths below are relative
  to \<open>src/relayer/src\<close> of the Rust workspace.

  How the parts interact. \<open>main.rs\<close> routes a request through \<open>auth/middleware.rs\<close> to a handler in
  \<open>handlers/messages\<close>. The middleware asks the membership store, the handlers read and write the
  message store and notify the Walrus worker. Two services run beside the requests: the membership
  service writes the membership store from events, the Walrus worker reads batches of messages and
  writes their status. What they share is two stores behind read-write locks, and what holds between
  them is the subject of \<open>System\<close>.

  The theories, each with the code it models.
  \<^item> \<open>Prelude\<close>: machine integers as words, results as sums, and the parts of the Rust standard
    library the code uses: prefix and substring tests, \<open>split\<close>, \<open>trim\<close>, printing and parsing of integers,
    \<open>filter_map\<close> and \<open>collect\<close> over results, colon-separated text.
  \<^item> \<open>Externals\<close>: the third-party functions as one record of parameters \<open>X\<close> (hex, Blake2b, signature
    parsing and verification, the clock's conversions), and the law of the hex codec as \<open>hex_codec\<close>.
  \<^item> \<open>Auth_Types\<close>: \<open>auth/schemes.rs\<close>, \<open>auth/permissions.rs\<close>, \<open>auth/types.rs\<close>.
  \<^item> \<open>Signature\<close>: \<open>auth/signature.rs\<close>: replay window, signature verification, address derivation.
  \<^item> \<open>Membership\<close>: \<open>auth/membership.rs\<close>. The trait is a record of operations over a state type, its
    contract the locale \<open>membership_contract\<close>, stated over an abstract permission table, and the
    in-memory store is shown to meet it.
  \<^item> \<open>Event_Parser\<close>, \<open>Membership_Sync\<close>: \<open>services/event_parser.rs\<close>, \<open>services/membership_sync.rs\<close>. The
    stream is a list of items per subscription; \<open>event_table\<close> is the abstract meaning of an event, and
    the service refines it over any store that meets the contract.
  \<^item> \<open>Message_Model\<close>, \<open>Messages_Dto\<close>: \<open>models/\<close> and the request, response and error types of
    \<open>handlers/messages\<close>.
  \<^item> \<open>Storage_Adapter\<close>, \<open>Memory_Storage\<close>: \<open>storage/adapter.rs\<close>, \<open>storage/memory.rs\<close>, \<open>storage/mod.rs\<close>.
    The trait is a record of operations, \<open>storage_contract\<close> its laws over the table of messages by id;
    the in-memory store keeps \<open>mem_inv\<close> and meets the contract while its counters have room.
  \<^item> \<open>Enclave\<close>, \<open>Config\<close>: \<open>enclave.rs\<close>, \<open>config.rs\<close>.
  \<^item> \<open>Middleware\<close>: \<open>auth/middleware.rs\<close>, whole: every early return is a reply of the model.
  \<^item> \<open>Handlers\<close>: \<open>handlers/messages/handlers.rs\<close>, with lemmas proved in the context of the storage
    contract. Update and delete are a check and a commit, because other requests run between the two.
  \<^item> \<open>Walrus_Client\<close>, \<open>Walrus_Sync\<close>: \<open>walrus/\<close> and \<open>services/walrus_sync.rs\<close>. A workflow is three phases:
    read a batch, upload it, write the statuses.
  \<^item> \<open>Server\<close>: the routing of \<open>main.rs\<close>, \<open>state.rs\<close>, \<open>handlers/health.rs\<close>; \<open>serve\<close> answers one request
    from end to end.
  \<^item> \<open>System\<close>: the step relation \<open>system_step\<close>: any number of requests and workflows in flight over the
    shared stores. A step is what the code does under one lock. \<open>reachable P n sy\<close> counts the steps.
  \<^item> \<open>Message_Lifecycle\<close>: the five ways in which a step can change a stored message
    (\<open>system_step_change\<close>), the status transitions and the form of stored messages that follow.
  \<^item> \<open>Pagination\<close>: a client that reads a group page by page; \<open>Signed_Texts\<close>: the three kinds of text
    that clients sign; \<open>Worker_Progress\<close>: the effect of a workflow and how a backlog shrinks.
  \<^item> \<open>Log_Layer\<close>: the log visitor and layer of \<open>main.rs\<close>; \<open>Startup\<close>: what \<open>main\<close> builds from the
    environment, and that this is the initial state of \<open>System\<close>.
  \<^item> \<open>Boot\<close>: the init process of the image: \<open>init/init.rs\<close>, \<open>aws/src/lib.rs\<close>, \<open>system/src/lib.rs\<close>.
  \<^item> \<open>Storage_Tests\<close>, \<open>Unit_Tests\<close>: the unit tests of the repository (the \<open>tests\<close> modules of
    \<open>storage/memory.rs\<close>, \<open>auth/\<close> and \<open>config.rs\<close>), each as a predicate over the model that is proved for
    every identifier supply, clock and iteration order; those that run cryptography are reduced to what
    they ask of it.
  \<^item> \<open>Example\<close>: one concrete deployment, request by request, on which the properties are evaluated.

  What the properties show. In this theory: the invariant of the running system under any
  interleaving (messages authentic, identities kept, content changed by its author only); each route
  served from end to end, with what an accepted reply guarantees and what a refused request leaves
  untouched; what a signature binds; what the worker does to the store; and the places where the code
  falls short of its documentation. In the component theories: what the component promises by itself.
  Each property stands after a block with its claim id and its statement in words. The
  conditions on code outside of the repository are hypotheses with names: \<open>hash_order\<close> (iterating a
  hash map yields each key once), \<open>bodies_agree\<close> (parsing a body twice gives agreeing fields),
  \<open>struct_text\<close> (the JSON of a struct is not a number), \<open>hex_codec\<close> (hexadecimal decodes what it encodes),
  \<open>walrus_answers\<close> (the publisher stores what it is sent). None speaks of cryptographic strength; that a
  signature verifies is reported as the verifier's answer.

  Bounds. Counters of message orders are 64-bit and wrap in the code. The statements about the system
  hold for fewer than \<open>2 ^ 63\<close> steps; each step raises one counter by at most one, so no counter wraps
  within that bound. Statements about a single request ask for \<open>mem_room\<close>: the counter of the group is
  not at its last value. No definition of code uses fuel: loops over streams and batches recurse on
  the list they consume, and the entropy loop of \<open>Boot\<close> ends because every pass adds 256 bytes. The
  client of \<open>Pagination\<close> has a budget of calls, and the property says which budget is enough.

  Readings of the code. A Rust \<open>String\<close> is its list of UTF-8 bytes; \<open>to_lowercase\<close> and \<open>trim\<close> are those on
  ASCII text, which is all that type names, hexadecimal ids and configuration values hold. Arithmetic
  wraps as in the release profile, and a panic, which is \<open>None\<close>, ends the process there: no lock is ever
  found poisoned.

  Not modelled: TLS, \<open>tokio\<close> scheduling beyond the interleavings above, the \<open>axum\<close> extractors and
  \<open>serde\<close> (parameters), the cryptography (parameters), CORS headers, loading of the \<open>.env\<close> file, the filter
  of \<open>tracing\<close>, the rendering of times, and the directories of the repository that are not part of the
  Rust programs.
\<close>

section \<open>Any interleaving of requests and services\<close>

text \<open>
  C1. Every message the server ever stores is authentic, and its store stays consistent, under any
  interleaving of requests, membership events and Walrus workflows. In every reachable state (after
  fewer than \<open>2 ^ 63\<close> steps) each stored message carries a signature that verifies, under the stored key,
  over its present group, ciphertext, nonce and key version, and that key's address is its sender;
  messages are filed under their ids, orders are positive and unique within each group, and nonces are
  unique.
\<close>
theorem reachable_messages_authentic:
  assumes "reachable P n sy" and "int n < 2 ^ 63"
    and "bodies_agree (su_extractors P)" and "hash_order (su_order_of P)"
  shows "(\<forall>i m. st_messages (sy_storage sy) i = Some m \<longrightarrow>
      authentic (su_externs P) m \<and> msg_id m = i \<and> (\<exists>k. msg_order m = Some k \<and> 0 < sint k)) \<and>
    (\<forall>i j m m'. st_messages (sy_storage sy) i = Some m \<and> st_messages (sy_storage sy) j = Some m' \<and> i \<noteq> j \<longrightarrow>
      msg_nonce m \<noteq> msg_nonce m' \<and>
      \<not> (msg_group_id m = msg_group_id m' \<and> msg_order m = msg_order m'))"
proof -
  note inv = reachable_inv [OF assms]
  note mi = system_invD(1) [OF inv]
  have nonces: "nonces_ok (sy_storage sy)" and keys: "keys_ok (sy_storage sy)"
    using mi by (simp_all add: mem_inv_def)
  have "authentic (su_externs P) m \<and> msg_id m = i \<and> (\<exists>k. msg_order m = Some k \<and> 0 < sint k)"
    if "st_messages (sy_storage sy) i = Some m" for i m
    using that keys system_invD(2) [OF inv] stored_order [OF mi that]
    by (simp add: keys_ok_def all_authentic_def) blast
  moreover have "msg_nonce m \<noteq> msg_nonce m' \<and>
      \<not> (msg_group_id m = msg_group_id m' \<and> msg_order m = msg_order m')"
    if "st_messages (sy_storage sy) i = Some m" "st_messages (sy_storage sy) j = Some m'" "i \<noteq> j" for i j m m'
    using that nonce_unique [OF nonces that(1,2)] order_unique [OF mi that(1,2)] by blast
  ultimately show ?thesis by blast
qed

lemma reachable_messages_authentic_witness:
  "authentic ref_externs demo_stored \<and> (\<exists>k. msg_order demo_stored = Some k \<and> 0 < sint k)"
  using reachable_messages_authentic [OF demo_stored_reachable] demo_bodies_agree asc.hash_order_axioms
  by simp

text \<open>
  C2. No message ever leaves the store or is reassigned. From any reachable state, whatever happens next,
  in any number of steps, every stored message is still stored, and its id, group, order, sender and
  creation time are what they were. This holds of deleted messages too, where the documentation says
  otherwise: a comment of \<open>models/message.rs\<close> has a \<open>DELETED\<close> message deleted from the relayer, and one of
  \<open>storage/adapter.rs\<close> has it remain only until the Walrus job processes it. The job only sets its status;
  no operation of the code removes an entry.
\<close>
theorem messages_never_lost:
  assumes "reachable P n sy" and "(system_step P ^^ k) sy sy'" and "int (n + k) < 2 ^ 63"
    and "bodies_agree (su_extractors P)" and "hash_order (su_order_of P)"
  shows "keeps_identities (st_messages (sy_storage sy)) (st_messages (sy_storage sy'))"
proof -
  have "reachable P (n + k) sy' \<and> keeps_identities (st_messages (sy_storage sy)) (st_messages (sy_storage sy'))"
    using assms(2,3)
  proof (induction k arbitrary: sy')
    case 0
    with assms(1) show ?case by simp
  next
    case (Suc k)
    from Suc.prems(1) obtain mid where mid: "(system_step P ^^ k) sy mid" and step: "system_step P mid sy'"
      by auto
    from Suc.IH [OF mid] Suc.prems(2) have r: "reachable P (n + k) mid"
      and kept: "keeps_identities (st_messages (sy_storage sy)) (st_messages (sy_storage mid))"
      by simp_all
    have "system_inv P (n + k) mid"
      using Suc.prems(2) by (intro reachable_inv [OF r _ assms(4,5)]) simp
    from system_step_keeps [OF step this] kept reachable.more [OF r step]
    show ?case using keeps_identities_trans by simp
  qed
  then show ?thesis ..
qed

lemma messages_never_lost_witness:
  "keeps_identities (st_messages (sy_storage (demo_system demo_storage Map.empty)))
     (st_messages (sy_storage (demo_system demo_storage [0 \<mapsto> CreateOrder demo_message])))"
proof -
  have "(system_step demo_deployment ^^ 1) (demo_system demo_storage Map.empty)
      (demo_system demo_storage [0 \<mapsto> CreateOrder demo_message])"
    unfolding relpowp_1 by (rule demo_post_step) simp
  from messages_never_lost [OF demo_stored_reachable this] demo_bodies_agree asc.hash_order_axioms
  show ?thesis by simp
qed

text \<open>
  C3. Only the author changes a message's content. If a step of a reachable system changes the
  ciphertext, the nonce, the key version, the attachments, the signature or the key of a stored
  message, then that step writes an update that was authenticated, before it started, for the address
  that sent the message; and the group the updated content was signed for is the message's group.
\<close>
theorem only_author_changes_content:
  assumes "reachable P n sy" and "int n < 2 ^ 63"
    and "bodies_agree (su_extractors P)" and "hash_order (su_order_of P)"
    and "system_step P sy sy'"
    and "st_messages (sy_storage sy) i = Some m" and "st_messages (sy_storage sy') i = Some m'"
    and "msg_encrypted_msg m' \<noteq> msg_encrypted_msg m \<or> msg_nonce m' \<noteq> msg_nonce m \<or>
      msg_key_version m' \<noteq> msg_key_version m \<or> msg_attachments m' \<noteq> msg_attachments m \<or>
      msg_signature m' \<noteq> msg_signature m \<or> msg_public_key m' \<noteq> msg_public_key m"
  shows "\<exists>t ctx req c. sy_tasks sy t = Some (UpdateCommit ctx req c) \<and> ur_message_id req = i \<and>
    ac_sender_address ctx = msg_sender_wallet_addr m \<and> auth_bound (su_externs P) ctx \<and>
    ur_group_id req = msg_group_id m \<and>
    content_signed (su_externs P) ctx (msg_group_id m) (ur_key_version req) c"
proof -
  note inv = reachable_inv [OF assms(1-4)]
  from system_step_change [OF assms(5) system_invD(1) [OF inv] assms(7)] obtain ch where
    ch: "step_change (su_externs P) sy i m' ch" ..
  show ?thesis
  proof (cases ch)
    case (ContentUpdated ctx req c now)
    with ch obtain j where j: "sy_tasks sy j = Some (UpdateCommit ctx req c)" "ur_message_id req = i"
      by (auto simp: step_change_def)
    with system_inv_task [OF inv j(1)] assms(6) show ?thesis by auto
  qed (use ch assms(6,8) in
      \<open>auto simp: step_change_def mark_for_deletion_def set_sync_status_def Let_def\<close>)
qed

definition demo_update_task :: task where
  "demo_update_task = UpdateCommit demo_context demo_update_request (demo_content [4, 5] (demo_nonce 2))"

lemma demo_update_reachable:
  "reachable demo_deployment 6 (demo_system demo_storage [0 \<mapsto> demo_update_task])"
proof -
  have "system_step demo_deployment (demo_system demo_storage Map.empty)
      (demo_system demo_storage [0 \<mapsto> demo_update_task])"
    using system_step.put_accepted [of "demo_system demo_storage Map.empty" 0 demo_deployment 1000
        "demo_request PUT (Messages []) demo_update_body" "demo_request PUT (Messages []) demo_update_body"
        demo_context demo_update_request "demo_content [4, 5] (demo_nonce 2)"]
    by (simp add: accepts_def demo_accepted [where perm = MessagingEditor] demo_update_check)
      (simp add: demo_extractors_def set_task_def demo_system_def demo_update_task_def)
  from reachable.more [OF demo_stored_reachable this] show ?thesis by simp
qed

lemma demo_update_step:
  "system_step demo_deployment (demo_system demo_storage [0 \<mapsto> demo_update_task])
     (set_task 0 None (demo_system demo_storage [0 \<mapsto> demo_update_task]\<lparr>sy_storage :=
       snd (update_commit ref_externs (in_memory_storage ascending) 7 demo_update_request
         (demo_content [4, 5] (demo_nonce 2)) demo_storage)\<rparr>))"
  using system_step.put_commit [of "demo_system demo_storage [0 \<mapsto> demo_update_task]" 0 demo_context
      demo_update_request "demo_content [4, 5] (demo_nonce 2)" demo_deployment 7]
  by (simp add: demo_update_task_def)

definition demo_updated :: message where
  "demo_updated = update_content 7 [4, 5] (demo_nonce 2) 1 [] (demo_message_signature [4, 5] (demo_nonce 2))
     (0 # demo_pk) demo_stored"

lemma demo_update_stored:
  "st_messages (snd (update_commit ref_externs (in_memory_storage ascending) 7 demo_update_request
     (demo_content [4, 5] (demo_nonce 2)) demo_storage)) 42 = Some demo_updated"
  using demo_update_free
  by (simp add: update_commit_def in_memory_storage_def mem_update_message_eq [OF demo_storage_inv]
      demo_update_request_def demo_content_def demo_updated_def)

lemma demo_updated_sel [simp]:
  "msg_sync_status demo_updated = UpdatePending" "msg_encrypted_msg demo_updated = [4, 5]"
  by (simp_all add: demo_updated_def update_content_def)

lemma only_author_changes_content_witness:
  "\<exists>t ctx req c. [0 \<mapsto> demo_update_task] t = Some (UpdateCommit ctx req c) \<and>
     ac_sender_address ctx = msg_sender_wallet_addr demo_stored"
proof -
  have "msg_encrypted_msg demo_updated \<noteq> msg_encrypted_msg demo_stored"
    by (simp add: demo_stored_def demo_message_def message_new_def set_order_def)
  from only_author_changes_content [OF demo_update_reachable _ _ _ demo_update_step _ _ disjI1 [OF this], of 42]
  have "\<exists>t ctx req c. [0 \<mapsto> demo_update_task] t = Some (UpdateCommit ctx req c) \<and>
      ac_sender_address ctx = msg_sender_wallet_addr demo_stored"
    using demo_bodies_agree asc.hash_order_axioms demo_update_stored by (auto split: if_splits)
  then show ?thesis .
qed

lemma stored_messages_well_formed_witness:
  "length (msg_nonce demo_stored) = 12 \<and> length (msg_signature demo_stored) = 64 \<and>
   (\<exists>scheme. length (msg_public_key demo_stored) = Suc (public_key_length scheme))"
  using stored_messages_well_formed [OF demo_stored_reachable, of 42 demo_stored]
    demo_bodies_agree asc.hash_order_axioms
  by simp blast

lemma status_transitions_witness:
  "\<exists>j ctx req c. [0 \<mapsto> demo_update_task] j = Some (UpdateCommit ctx req c) \<and> ur_message_id req = 42 \<and>
     msg_sync_status demo_updated = UpdatePending"
  using status_transitions [OF demo_update_reachable _ _ _ demo_update_step, of 42 demo_stored demo_updated]
    demo_bodies_agree asc.hash_order_axioms demo_update_stored
  by (auto simp: demo_update_task_def split: if_splits)

section \<open>One request from end to end\<close>

text \<open>
  C4. A message that is answered with 201 was authorized and is stored. If serving a \<open>POST /messages\<close>
  replies with a created message, then the request was authenticated (fresh, with a signature that
  verifies under a key of the address) for the address that is stored as the message's sender and for
  the message's group, where this address holds the sender permission; the message is authentic; it
  was new and is now stored under the id of the reply, pending its upload, with an order above every
  order given before in its group; nothing else in the store changed, and the worker was notified once.
\<close>
theorem post_stores_authorized_message:
  assumes "hash_order order_of" and "bodies_agree E"
    and "mem_inv (as_storage st)" and "\<forall>g. mem_room (as_storage st) g"
    and "rq_method request = POST" and "rq_route request = Messages q"
    and "serve X E (in_memory_membership io) (in_memory_storage order_of) cfg env ms logs request st =
      (Some (status, CreatedBody reply), st')"
  shows "\<exists>m k. status = 201 \<and> cresp_message_id (im_data (pd_response reply)) = msg_id m \<and>
    authenticated_as X (ex_body_auth E) (cf_request_ttl_seconds cfg) (x_unix_secs X (he_auth_now env)) request
      (msg_group_id m) (msg_sender_wallet_addr m) \<and>
    has_permission ms (msg_group_id m) (msg_sender_wallet_addr m) MessagingSender \<and>
    authentic X m \<and> msg_sync_status m = SyncPending \<and> msg_order m = Some k \<and> 0 < sint k \<and>
    (\<forall>n\<in>ran (st_messages (as_storage st)). msg_group_id n = msg_group_id m \<longrightarrow> order_key n < sint k) \<and>
    st_messages (as_storage st) (msg_id m) = None \<and>
    st_messages (as_storage st') = (st_messages (as_storage st))(msg_id m \<mapsto> m) \<and>
    mem_inv (as_storage st') \<and> as_notified st' = as_notified st + 1"
proof -
  from serve_post [OF assms(7,5,6)] obtain request' ctx req where
    acc: "request_accepted X E (in_memory_membership io) ms (cf_request_ttl_seconds cfg)
      (x_unix_secs X (he_auth_now env)) request request' ctx"
    and req: "ex_create E (rq_headers request') (unwrap_or [] (rq_body request')) = Inr req"
    and run: "create_message X (in_memory_storage order_of) env ctx req st = (Some (Inr (status, reply)), st')" .
  note contract = hash_order.meets_contract [OF assms(1)]
  from accepted_create [OF assms(2) acc req] have ctx: "ac_authorized_group ctx = Some (cr_group_id req)"
    "cr_sender_address req = ac_sender_address ctx" by simp_all
  from accepted_permission [OF acc _ ctx(1)] assms(5) ctx(2)
  have perm: "has_permission ms (cr_group_id req) (cr_sender_address req) MessagingSender"
    by (simp add: in_memory_membership_def)
  from storage_contract.create_message_ok [OF contract assms(3) assms(4) [rule_format] run]
  obtain m k where m: "create_prepare X env ctx req = Inr m" "status = 201"
    "st_messages (as_storage st) (he_uuid env) = None"
    "st_messages (as_storage st') = (st_messages (as_storage st))(he_uuid env \<mapsto> set_order k m)" "0 < sint k"
    "\<forall>n\<in>ran (st_messages (as_storage st)). msg_group_id n = cr_group_id req \<longrightarrow> order_key n < sint k"
    "as_notified st' = as_notified st + 1" "cresp_message_id (im_data (pd_response reply)) = he_uuid env"
    by blast
  have inv: "mem_inv (as_storage st')"
    using storage_contract.create_message_inv [OF contract assms(3) assms(4) [rule_format], of X env ctx req] run
    by simp
  show ?thesis
    by (rule exI [of _ "set_order k m"], rule exI [of _ k])
      (use m inv perm accepted_as [OF acc ctx(1)] ctx(2) create_prepare_fields [OF m(1)]
          create_prepare_authentic [OF m(1) accepted_bound [OF acc] ctx(2)] in
        \<open>simp add: set_order_def authentic_set_order [unfolded set_order_def]\<close>)
qed

lemma post_stores_authorized_message_witness:
  "\<exists>m. st_messages demo_storage = (st_messages new_storage)(msg_id m \<mapsto> m) \<and>
     authenticated_as ref_externs (ex_body_auth demo_extractors) (cf_request_ttl_seconds default_config)
       (x_unix_secs ref_externs (he_auth_now demo_env)) (demo_request POST (Messages []) demo_create_body)
       (msg_group_id m) (msg_sender_wallet_addr m) \<and>
     has_permission demo_members (msg_group_id m) (msg_sender_wallet_addr m) MessagingSender \<and>
     authentic ref_externs m"
proof -
  obtain reply where "serve ref_externs demo_extractors (in_memory_membership []) (in_memory_storage ascending)
    default_config demo_env demo_members (log_buffer_new 1000)
    (demo_request POST (Messages []) demo_create_body) \<lparr>as_storage = new_storage, as_notified = 0\<rparr>
    = (Some (201, CreatedBody reply), \<lparr>as_storage = demo_storage, as_notified = 1\<rparr>)"
    using demo_serve_post by blast
  from post_stores_authorized_message [OF asc.hash_order_axioms demo_bodies_agree _ _ _ _ this]
  show ?thesis using mem_inv_new by auto
qed

text \<open>
  C7. A successful \<open>PUT /messages\<close> was made by the author: the updated message existed, and the request was
  authenticated for the address of its sender and for its group, where that address holds the editor
  permission; the message keeps its identity, is authentic with its new content, and is pending its
  upload; nothing else changed.
\<close>
theorem put_updates_own_message:
  assumes "hash_order order_of" and "bodies_agree E" and "mem_inv (as_storage st)"
    and "rq_method request = PUT" and "rq_route request = Messages q"
    and "serve X E (in_memory_membership io) (in_memory_storage order_of) cfg env ms logs request st =
      (Some (status, UpdatedBody reply), st')"
  shows "\<exists>i m m'. status = 200 \<and> st_messages (as_storage st) i = Some m \<and>
    authenticated_as X (ex_body_auth E) (cf_request_ttl_seconds cfg) (x_unix_secs X (he_auth_now env)) request
      (msg_group_id m) (msg_sender_wallet_addr m) \<and>
    has_permission ms (msg_group_id m) (msg_sender_wallet_addr m) MessagingEditor \<and>
    same_identity m m' \<and> authentic X m' \<and> msg_sync_status m' = UpdatePending \<and>
    st_messages (as_storage st') = (st_messages (as_storage st))(i \<mapsto> m') \<and>
    mem_inv (as_storage st') \<and> as_notified st' = as_notified st"
proof -
  from serve_put [OF assms(6,4,5)] obtain request' ctx req where
    acc: "request_accepted X E (in_memory_membership io) ms (cf_request_ttl_seconds cfg)
      (x_unix_secs X (he_auth_now env)) request request' ctx"
    and req: "ex_update E (rq_headers request') (unwrap_or [] (rq_body request')) = Inr req"
    and run: "update_message X (in_memory_storage order_of) env ctx req st = (Some (Inr reply), st')"
    and status: "status = 200" .
  note contract = hash_order.meets_contract [OF assms(1)]
  from storage_contract.update_message_ok [OF contract assms(3) run] obtain m c where
    m: "st_messages (as_storage st) (ur_message_id req) = Some m"
      "ac_authorized_group ctx = Some (msg_group_id m)" "msg_sender_wallet_addr m = ac_sender_address ctx"
    and c: "decode_content X ctx (ur_group_id req) (ur_encrypted_text req) (ur_nonce req)
          (ur_key_version req) (ur_message_signature req) (ur_attachments req) = Inr c"
    and st': "st_messages (as_storage st') = (st_messages (as_storage st))(ur_message_id req \<mapsto>
      update_content (he_now env) (ct_encrypted_msg c) (ct_nonce c) (ur_key_version req)
        (ct_attachments c) (ct_signature c) (ct_public_key c) m)" "as_notified st' = as_notified st" .
  from accepted_update [OF assms(2) acc req] m(2) have g: "ur_group_id req = msg_group_id m" by simp
  from accepted_permission [OF acc _ m(2)] assms(4) m(3)
  have perm: "has_permission ms (msg_group_id m) (msg_sender_wallet_addr m) MessagingEditor"
    by (simp add: in_memory_membership_def)
  have "authentic X (update_content (he_now env) (ct_encrypted_msg c) (ct_nonce c) (ur_key_version req)
        (ct_attachments c) (ct_signature c) (ct_public_key c) m)"
    using decode_content_signed [OF c] g
    by (intro authentic_updated [OF accepted_bound [OF acc]] m(3)) simp
  moreover have "mem_inv (as_storage st')"
    using storage_contract.update_message_inv [OF contract assms(3), of X env ctx req] run by simp
  ultimately show ?thesis
    using m(1) st' status perm accepted_as [OF acc m(2)] m(3)
    by (intro exI [of _ "ur_message_id req"] exI [of _ m] exI conjI) (auto simp: update_content_def same_identity_def)
qed

lemma put_updates_own_message_witness:
  "\<exists>i m m'. st_messages demo_storage i = Some m \<and> same_identity m m' \<and> authentic ref_externs m' \<and>
     authenticated_as ref_externs (ex_body_auth demo_extractors) (cf_request_ttl_seconds default_config)
       (x_unix_secs ref_externs (he_auth_now demo_env)) (demo_request PUT (Messages []) demo_update_body)
       (msg_group_id m) (msg_sender_wallet_addr m) \<and>
     msg_sync_status m' = UpdatePending"
proof -
  obtain reply st' where "serve ref_externs demo_extractors (in_memory_membership []) (in_memory_storage ascending)
    default_config demo_env demo_members (log_buffer_new 1000)
    (demo_request PUT (Messages []) demo_update_body) \<lparr>as_storage = demo_storage, as_notified = 0\<rparr>
    = (Some (200, UpdatedBody reply), st')"
    using demo_serve_put by blast
  from put_updates_own_message [OF asc.hash_order_axioms demo_bodies_agree _ _ _ this]
  show ?thesis using demo_storage_inv by (auto split: if_splits)
qed

text \<open>
  C8. A successful \<open>DELETE /messages/:message_id\<close> was made by the author: the request was authenticated for
  the address of the message's sender and for its group, where that address holds the deleter
  permission. It only marks the message: its content and identity stay in the store, it is pending
  its deletion, and no other message changes.
\<close>
theorem delete_marks_own_message:
  assumes "hash_order order_of" and "mem_inv (as_storage st)"
    and "rq_method request = DELETE" and "rq_route request = MessageById p"
    and "serve X E (in_memory_membership io) (in_memory_storage order_of) cfg env ms logs request st =
      (Some (status, DeletedBody reply), st')"
  shows "\<exists>i m. status = 200 \<and> ex_message_id E p = Inr i \<and> st_messages (as_storage st) i = Some m \<and>
    authenticated_as X (ex_body_auth E) (cf_request_ttl_seconds cfg) (x_unix_secs X (he_auth_now env)) request
      (msg_group_id m) (msg_sender_wallet_addr m) \<and>
    has_permission ms (msg_group_id m) (msg_sender_wallet_addr m) MessagingDeleter \<and>
    st_messages (as_storage st') = (st_messages (as_storage st))
      (i \<mapsto> m\<lparr>msg_sync_status := DeletePending, msg_updated_at := he_now env\<rparr>) \<and>
    mem_inv (as_storage st')"
proof -
  from serve_delete [OF assms(5,3,4)] obtain request' ctx mid where
    acc: "request_accepted X E (in_memory_membership io) ms (cf_request_ttl_seconds cfg)
      (x_unix_secs X (he_auth_now env)) request request' ctx"
    and mid: "ex_message_id E p = Inr mid"
    and run: "delete_message X (in_memory_storage order_of) env ctx mid st = (Some (Inr reply), st')"
    and status: "status = 200" .
  note contract = hash_order.meets_contract [OF assms(1)]
  from storage_contract.delete_message_ok [OF contract assms(2) run] obtain m where
    m: "st_messages (as_storage st) mid = Some m" "ac_authorized_group ctx = Some (msg_group_id m)"
      "msg_sender_wallet_addr m = ac_sender_address ctx"
      "st_messages (as_storage st') = (st_messages (as_storage st))(mid \<mapsto> mark_for_deletion (he_now env) m)"
    by blast
  from accepted_permission [OF acc _ m(2)] assms(3) m(3)
  have "has_permission ms (msg_group_id m) (msg_sender_wallet_addr m) MessagingDeleter"
    by (simp add: in_memory_membership_def)
  moreover have "mem_inv (as_storage st')"
    using storage_contract.delete_message_inv [OF contract assms(2), of X env ctx mid] run by simp
  ultimately show ?thesis
    using m mid status accepted_as [OF acc m(2)] by (auto simp: mark_for_deletion_def)
qed

lemma delete_marks_own_message_witness:
  "\<exists>i m. ex_message_id demo_extractors ''42'' = Inr i \<and> st_messages demo_storage i = Some m \<and>
     authenticated_as ref_externs (ex_body_auth demo_extractors) (cf_request_ttl_seconds default_config)
       (x_unix_secs ref_externs (he_auth_now demo_env)) (demo_request DELETE (MessageById ''42'') [])
       (msg_group_id m) (msg_sender_wallet_addr m) \<and>
     has_permission demo_members (msg_group_id m) (msg_sender_wallet_addr m) MessagingDeleter"
proof -
  obtain st' where "serve ref_externs demo_extractors (in_memory_membership []) (in_memory_storage ascending)
    default_config demo_env demo_members (log_buffer_new 1000)
    (demo_request DELETE (MessageById ''42'') []) \<lparr>as_storage = demo_storage, as_notified = 0\<rparr>
    = (Some (200, DeletedBody EmptyResponse), st')"
    using demo_serve_delete by blast
  from delete_marks_own_message [OF asc.hash_order_axioms _ _ _ this]
  show ?thesis using demo_storage_inv by (auto split: if_splits)
qed

text \<open>
  C9. Reading is confined to one group: a successful reply to \<open>GET /messages\<close> answers a request that was
  authenticated for some address and group in which this address holds the reader permission; the
  messages in the reply, single or listed, are stored messages of that group; and reading changes
  nothing.
\<close>
theorem get_confined_to_group:
  assumes "hash_order order_of" and "mem_inv (as_storage st)"
    and "rq_method request = GET" and "rq_route request = Messages p"
    and "serve X E (in_memory_membership io) (in_memory_storage order_of) cfg env ms logs request st =
      (Some (status, MessagesBody body), st')"
  shows "status = 200 \<and> st' = st \<and>
    (\<exists>g a. authenticated_as X (ex_body_auth E) (cf_request_ttl_seconds cfg) (x_unix_secs X (he_auth_now env))
        request g a \<and>
      has_permission ms g a MessagingReader \<and>
      (\<forall>r\<in>(case body of Single r \<Rightarrow> {r} | Listing l \<Rightarrow> set (lr_messages l)).
        \<exists>m\<in>ran (st_messages (as_storage st)). r = message_response_from X m \<and> msg_group_id m = g))"
proof -
  from serve_get [OF assms(5,3,4)] obtain request' ctx q where
    acc: "request_accepted X E (in_memory_membership io) ms (cf_request_ttl_seconds cfg)
      (x_unix_secs X (he_auth_now env)) request request' ctx"
    and run: "get_messages X (in_memory_storage order_of) ctx q (as_storage st) = Inr body"
    and st: "status = 200" "st' = st" .
  note contract = hash_order.meets_contract [OF assms(1)]
  from acc obtain g where g: "ac_authorized_group ctx = Some g"
    by (rule accepted_context) simp
  from accepted_permission [OF acc _ g] assms(3)
  have perm: "has_permission ms g (ac_sender_address ctx) MessagingReader"
    by (simp add: in_memory_membership_def)
  have "\<forall>r\<in>(case body of Single r \<Rightarrow> {r} | Listing l \<Rightarrow> set (lr_messages l)).
      \<exists>m\<in>ran (st_messages (as_storage st)). r = message_response_from X m \<and> msg_group_id m = g"
  proof (cases "q_message_id q")
    case (Some mid)
    with storage_contract.get_single [OF contract assms(2) Some, of X ctx] run g show ?thesis
      by (auto split: option.splits if_splits intro: ranI)
  next
    case None
    with run g have q: "q_group_id q = Some g"
      by (auto simp: get_messages_def bind_result_Inr_iff split: if_splits)
    let ?n = "min (unwrap_or DEFAULT_PAGE_LIMIT (q_limit q)) MAX_PAGE_LIMIT"
    from storage_contract.get_page [OF contract assms(2) None q g, of X] run obtain page where
      body: "body = Listing \<lparr>lr_messages = map (message_response_from X) (take ?n page),
        lr_has_next = (?n < length page)\<rparr>"
      and page: "set page = {m \<in> ran (st_messages (as_storage st)). msg_group_id m = g \<and>
        in_page (q_after_order q) (q_before_order q) m}" by auto
    have "x \<in> ran (st_messages (as_storage st)) \<and> msg_group_id x = g" if "x \<in> set (take ?n page)" for x
      using in_set_takeD [OF that] page by simp
    then show ?thesis unfolding body by auto
  qed
  with st perm accepted_as [OF acc g] show ?thesis by blast
qed

lemma get_confined_to_group_witness:
  "\<exists>g a. authenticated_as ref_externs (ex_body_auth demo_extractors) (cf_request_ttl_seconds default_config)
       (x_unix_secs ref_externs (he_auth_now demo_env)) (demo_request GET (Messages ''id'') []) g a \<and>
     has_permission demo_members g a MessagingReader \<and>
     (\<exists>m\<in>ran (st_messages demo_storage). message_response_from ref_externs demo_stored =
        message_response_from ref_externs m \<and> msg_group_id m = g)"
  using get_confined_to_group [OF asc.hash_order_axioms _ _ _ demo_serve_get] demo_storage_inv by auto

text \<open>
  C14. A page is exactly what was asked for: with \<open>n\<close> the requested limit (50 by default, at most 100), the
  reply lists, in ascending order of their numbers, the first \<open>n\<close> of the group's messages whose order is
  above \<open>after_order\<close> and below \<open>before_order\<close> (where given), and \<open>has_next\<close> says whether there are more
  than \<open>n\<close> of them.
\<close>
theorem page_is_exact:
  assumes "hash_order order_of" and "mem_inv s"
    and "q_message_id q = None" and "q_group_id q = Some g" and "ac_authorized_group auth = Some g"
  shows "\<exists>page. set page = {m \<in> ran (st_messages s). msg_group_id m = g \<and>
      (\<forall>a. q_after_order q = Some a \<longrightarrow> sint a < order_key m) \<and>
      (\<forall>b. q_before_order q = Some b \<longrightarrow> order_key m < sint b)} \<and>
    sorted_wrt (\<lambda>x y. order_key x < order_key y) page \<and>
    get_messages X (in_memory_storage order_of) auth q s =
      Inr (Listing \<lparr>lr_messages = map (message_response_from X) (take (min (unwrap_or 50 (q_limit q)) 100) page),
        lr_has_next = (min (unwrap_or 50 (q_limit q)) 100 < length page)\<rparr>)"
proof -
  from storage_contract.get_page [OF hash_order.meets_contract [OF assms(1)] assms(2-5), of X]
  obtain page where
    "get_messages X (in_memory_storage order_of) auth q s =
      Inr (Listing \<lparr>lr_messages = map (message_response_from X) (take (min (unwrap_or 50 (q_limit q)) 100) page),
        lr_has_next = (min (unwrap_or 50 (q_limit q)) 100 < length page)\<rparr>)"
    and "set page = {m \<in> ran (st_messages s). msg_group_id m = g \<and>
        in_page (q_after_order q) (q_before_order q) m}" and "sorted_wrt (<) (map order_key page)"
    unfolding DEFAULT_PAGE_LIMIT_def MAX_PAGE_LIMIT_def by blast
  moreover have "in_page aft bef m \<longleftrightarrow> (\<forall>a. aft = Some a \<longrightarrow> sint a < order_key m) \<and>
      (\<forall>b. bef = Some b \<longrightarrow> order_key m < sint b)" for aft bef m
    by (cases aft; cases bef) (simp_all add: in_page_def)
  ultimately show ?thesis by (auto simp: sorted_wrt_map)
qed

lemma page_is_exact_witness:
  "\<exists>page. set page = {m \<in> ran (st_messages demo_storage). msg_group_id m = demo_group} \<and>
     get_messages ref_externs (in_memory_storage ascending) demo_context
       \<lparr>q_message_id = None, q_group_id = Some demo_group, q_after_order = None, q_before_order = None,
        q_limit = Some 1\<rparr> demo_storage =
     Inr (Listing \<lparr>lr_messages = map (message_response_from ref_externs) (take 1 page),
       lr_has_next = (1 < length page)\<rparr>)"
  using page_is_exact [OF asc.hash_order_axioms demo_storage_inv, of
      "\<lparr>q_message_id = None, q_group_id = Some demo_group, q_after_order = None, q_before_order = None,
        q_limit = Some 1\<rparr>" demo_group demo_context ref_externs]
  by auto

text \<open>
  C35. Whoever may post is served. If a \<open>POST /messages\<close> is authenticated for an address and a group in which
  the address holds the sender permission, its body is a create request whose content decodes (hex,
  lengths, the message signature, the attachments), the random id is fresh, no stored message has the
  nonce, and the group has an order number left, then the reply is 201 with that id (the serializer of
  the reply does not fail), the message is stored with a positive order, and the worker is notified.
\<close>
theorem authorized_post_is_served:
  assumes "hash_order order_of" and "mem_inv (as_storage st)" and "mem_room (as_storage st) (cr_group_id req)"
    and "rq_method request = POST" and "rq_route request = Messages q"
    and "request_shows X (ex_body_auth E) (cf_request_ttl_seconds cfg) (x_unix_secs X (he_auth_now env)) request
      body scheme key claim"
    and "has_permission ms (cl_group_id claim) (cl_sender_address claim) MessagingSender"
    and "ex_create E (rq_headers request) body = Inr req"
    and "decode_content X (claim_context scheme key claim) (cr_group_id req) (cr_encrypted_text req)
      (cr_nonce req) (cr_key_version req) (cr_message_signature req) (cr_attachments req) = Inr c"
    and "st_messages (as_storage st) (he_uuid env) = None"
    and "\<not> nonce_used (st_messages (as_storage st)) (ct_nonce c)"
    and "\<forall>payload. is_ok (he_bcs_create env payload)"
  shows "\<exists>reply st' k. serve X E (in_memory_membership io) (in_memory_storage order_of) cfg env ms logs request st =
      (Some (201, CreatedBody reply), st') \<and>
    cresp_message_id (im_data (pd_response reply)) = he_uuid env \<and> 0 < sint k \<and>
    st_messages (as_storage st') = (st_messages (as_storage st))(he_uuid env \<mapsto>
      set_order k (message_new (he_now env) (he_uuid env) (cr_group_id req) (cr_sender_address req)
        (ct_encrypted_msg c) (ct_nonce c) (cr_key_version req) (ct_attachments c) (ct_signature c)
        (ct_public_key c))) \<and>
    as_notified st' = as_notified st + 1"
proof -
  let ?ctx = "claim_context scheme key claim"
  define m where "m = message_new (he_now env) (he_uuid env) (cr_group_id req) (cr_sender_address req)
    (ct_encrypted_msg c) (ct_nonce c) (cr_key_version req) (ct_attachments c) (ct_signature c) (ct_public_key c)"
  have prepared: "create_prepare X env ?ctx req = Inr m"
    using assms(9) by (simp add: create_prepare_def m_def)
  have sel: "msg_id m = he_uuid env" "msg_nonce m = ct_nonce c" "msg_group_id m = cr_group_id req"
    by (simp_all add: m_def message_new_def)
  note shown = serve_shown [OF assms(6), of MessagingSender "in_memory_membership io" ms]
  have served: "serve X E (in_memory_membership io) (in_memory_storage order_of) cfg env ms logs request st
      = apfst (map_option (api_reply (\<lambda>(status, v). (status, CreatedBody v))))
          (create_message X (in_memory_storage order_of) env ?ctx req st)"
    using shown assms(4,5,7,8) by (simp add: route_evaluation extracted_def in_memory_membership_def)
  from storage_contract.create_ok [OF hash_order.meets_contract [OF assms(1)] assms(2), of m] assms(3,10,11) sel
  obtain k where k: "fst (mem_create_message m (as_storage st)) = Inr (set_order k m)" "0 < sint k"
    "st_messages (snd (mem_create_message m (as_storage st))) =
      (st_messages (as_storage st))(he_uuid env \<mapsto> set_order k m)"
    by auto
  from assms(12) obtain bs where
    "he_bcs_create env \<lparr>im_intent = MessageDelivery, im_timestamp_ms = x_unix_millis X (he_reply_now env),
        im_data = \<lparr>cresp_message_id = he_uuid env\<rparr>\<rparr> = Inr bs"
    unfolding is_ok_iff by blast
  then obtain reply where reply: "create_reply X env (set_order k m) = Some (Inr (201, reply))"
    "cresp_message_id (im_data (pd_response reply)) = he_uuid env"
    by (simp add: create_reply_def to_signed_response_def Let_def set_order_def sel(1))
  let ?st' = "st\<lparr>as_storage := snd (mem_create_message m (as_storage st)), as_notified := as_notified st + 1\<rparr>"
  have "create_message X (in_memory_storage order_of) env ?ctx req st = (Some (Inr (201, reply)), ?st')"
    using k(1) reply(1)
    by (cases "mem_create_message m (as_storage st)") (simp add: create_message_def prepared in_memory_storage_def)
  with served have "serve X E (in_memory_membership io) (in_memory_storage order_of) cfg env ms logs request st =
      (Some (201, CreatedBody reply), ?st')"
    by (simp add: api_reply_def)
  then show ?thesis
    unfolding m_def [symmetric]
    by (intro exI [of _ reply] exI [of _ ?st'] exI [of _ k]) (simp add: k(2,3) reply(2))
qed

lemma demo_shows:
  assumes "body \<in> {[], demo_create_body, demo_update_body}"
  obtains claim where "request_shows ref_externs (ex_body_auth demo_extractors)
      (cf_request_ttl_seconds default_config) (x_unix_secs ref_externs (he_auth_now demo_env))
      (demo_request meth rt body) body Ed25519 demo_pk claim"
    and "cl_sender_address claim = demo_address" and "cl_group_id claim = demo_group"
    and "claim_context Ed25519 demo_pk claim = demo_context"
  using demo_authenticate [OF assms, of "[]" MessagingSender meth rt] that
  unfolding authenticate_accepts
  by (auto simp: default_config_def claim_context_def demo_context_def)

lemma authorized_post_is_served_witness:
  "\<exists>reply st'. serve ref_externs demo_extractors (in_memory_membership []) (in_memory_storage ascending)
      default_config demo_env demo_members (log_buffer_new 1000)
      (demo_request POST (Messages []) demo_create_body) \<lparr>as_storage = new_storage, as_notified = 0\<rparr>
    = (Some (201, CreatedBody reply), st') \<and> cresp_message_id (im_data (pd_response reply)) = 42"
proof -
  obtain claim where claim: "request_shows ref_externs (ex_body_auth demo_extractors)
      (cf_request_ttl_seconds default_config) (x_unix_secs ref_externs (he_auth_now demo_env))
      (demo_request POST (Messages []) demo_create_body) demo_create_body Ed25519 demo_pk claim"
    "cl_sender_address claim = demo_address" "cl_group_id claim = demo_group"
    and ctx: "claim_context Ed25519 demo_pk claim = demo_context"
    by (rule demo_shows [of demo_create_body POST "Messages []"]) simp_all
  have content: "decode_content ref_externs demo_context (cr_group_id demo_create_request)
      (cr_encrypted_text demo_create_request) (cr_nonce demo_create_request) (cr_key_version demo_create_request)
      (cr_message_signature demo_create_request) (cr_attachments demo_create_request)
      = Inr (demo_content [1, 2, 3] (demo_nonce 1))"
    by (simp add: demo_create_request_def demo_decode_content demo_nonce_def)
  have create: "ex_create demo_extractors h demo_create_body = Inr demo_create_request" for h
    by (simp add: demo_extractors_def)
  have bcs: "\<forall>payload. is_ok (he_bcs_create demo_env payload)" by (simp add: demo_env_def)
  have free: "\<not> nonce_used (st_messages new_storage) n" "st_messages new_storage 42 = None" for n
    by (simp_all add: nonce_used_def new_storage_def)
  from authorized_post_is_served [OF asc.hash_order_axioms _ _ _ _ claim(1) _ create
      content [folded ctx] _ _ bcs, of "\<lparr>as_storage = new_storage, as_notified = 0\<rparr>" "[]" demo_members "[]"
      "log_buffer_new 1000"] free
  show ?thesis by (auto simp: mem_inv_new claim(2,3) demo_has_permission)
qed

text \<open>
  C40. The author of a stored message can always change and delete it. If a request is authenticated for the
  address of the message's sender in the message's group, then a \<open>PUT /messages\<close> for it, by a holder of
  the editor permission, with content that decodes and a nonce that no other message has, is answered
  with 200 (the serializer of the reply does not fail) and replaces the content; and a
  \<open>DELETE /messages/:message_id\<close> for it, by a holder of the deleter permission, is answered with 200 and
  marks it for deletion. This holds in whatever status the message is.
\<close>
theorem author_requests_are_served:
  assumes "hash_order order_of" and "mem_inv (as_storage st)"
    and "st_messages (as_storage st) i = Some m"
    and "request_shows X (ex_body_auth E) (cf_request_ttl_seconds cfg) (x_unix_secs X (he_auth_now env)) request
      body scheme key claim"
    and "cl_group_id claim = msg_group_id m" and "cl_sender_address claim = msg_sender_wallet_addr m"
  shows "(rq_method request = PUT \<and> rq_route request = Messages q \<and>
      has_permission ms (msg_group_id m) (msg_sender_wallet_addr m) MessagingEditor \<and>
      ex_update E (rq_headers request) body = Inr req \<and> ur_message_id req = i \<and>
      decode_content X (claim_context scheme key claim) (ur_group_id req) (ur_encrypted_text req) (ur_nonce req)
        (ur_key_version req) (ur_message_signature req) (ur_attachments req) = Inr c \<and>
      \<not> nonce_used_by_other (st_messages (as_storage st)) i (ct_nonce c) \<and>
      (\<forall>payload. is_ok (he_bcs_empty env payload)) \<longrightarrow>
      (\<exists>reply s'. serve X E (in_memory_membership io) (in_memory_storage order_of) cfg env ms logs request st =
          (Some (200, UpdatedBody reply), st\<lparr>as_storage := s'\<rparr>) \<and>
        st_messages s' = (st_messages (as_storage st))(i \<mapsto> update_content (he_now env) (ct_encrypted_msg c)
          (ct_nonce c) (ur_key_version req) (ct_attachments c) (ct_signature c) (ct_public_key c) m))) \<and>
    (rq_method request = DELETE \<and> rq_route request = MessageById p \<and> ex_message_id E p = Inr i \<and>
      has_permission ms (msg_group_id m) (msg_sender_wallet_addr m) MessagingDeleter \<longrightarrow>
      (\<exists>s'. serve X E (in_memory_membership io) (in_memory_storage order_of) cfg env ms logs request st =
          (Some (200, DeletedBody EmptyResponse), st\<lparr>as_storage := s'\<rparr>) \<and>
        st_messages s' = (st_messages (as_storage st))(i \<mapsto> mark_for_deletion (he_now env) m)))"
proof (intro conjI impI; elim conjE)
  note contract = hash_order.meets_contract [OF assms(1)]
  let ?ctx = "claim_context scheme key claim"
  note shown = serve_shown [OF assms(4), where MS = "in_memory_membership io" and ms = ms]
  have author: "ac_authorized_group ?ctx = Some (msg_group_id m)" "ac_sender_address ?ctx = msg_sender_wallet_addr m"
    using assms(5,6) by simp_all
  {
    assume put: "rq_method request = PUT" "rq_route request = Messages q"
      and perm: "has_permission ms (msg_group_id m) (msg_sender_wallet_addr m) MessagingEditor"
      and req: "ex_update E (rq_headers request) body = Inr req" "ur_message_id req = i"
      and c: "decode_content X ?ctx (ur_group_id req) (ur_encrypted_text req) (ur_nonce req)
        (ur_key_version req) (ur_message_signature req) (ur_attachments req) = Inr c"
      and free: "\<not> nonce_used_by_other (st_messages (as_storage st)) i (ct_nonce c)"
      and bcs: "\<forall>payload. is_ok (he_bcs_empty env payload)"
    have served: "serve X E (in_memory_membership io) (in_memory_storage order_of) cfg env ms logs request st
        = apfst (map_option (api_reply (\<lambda>v. (200, UpdatedBody v))))
            (update_message X (in_memory_storage order_of) env ?ctx req st)"
      using shown [of MessagingEditor] put perm req(1) assms(5,6)
      by (simp add: route_evaluation extracted_def in_memory_membership_def)
    from bcs obtain bs where "he_bcs_empty env \<lparr>im_intent = MessageDelivery,
        im_timestamp_ms = x_unix_millis X (he_reply_now env), im_data = EmptyResponse\<rparr> = Inr bs"
      unfolding is_ok_iff by blast
    then obtain reply where reply: "empty_reply X env = Some (Inr reply)"
      by (simp add: empty_reply_def to_signed_response_def Let_def)
    show "\<exists>reply s'. serve X E (in_memory_membership io) (in_memory_storage order_of) cfg env ms logs request st =
          (Some (200, UpdatedBody reply), st\<lparr>as_storage := s'\<rparr>) \<and>
        st_messages s' = (st_messages (as_storage st))(i \<mapsto> update_content (he_now env) (ct_encrypted_msg c)
          (ct_nonce c) (ur_key_version req) (ct_attachments c) (ct_signature c) (ct_public_key c) m)"
      by (rule storage_contract.update_message_succeeds [OF contract assms(2) _ author c, of env])
        (use assms(3) req free in \<open>auto simp: served reply api_reply_def\<close>)
  next
    assume del: "rq_method request = DELETE" "rq_route request = MessageById p" "ex_message_id E p = Inr i"
      and perm: "has_permission ms (msg_group_id m) (msg_sender_wallet_addr m) MessagingDeleter"
    have served: "serve X E (in_memory_membership io) (in_memory_storage order_of) cfg env ms logs request st
        = apfst (map_option (api_reply (\<lambda>v. (200, DeletedBody v))))
            (delete_message X (in_memory_storage order_of) env ?ctx i st)"
      using shown [of MessagingDeleter] del perm assms(5,6)
      by (simp add: route_evaluation extracted_def in_memory_membership_def)
    show "\<exists>s'. serve X E (in_memory_membership io) (in_memory_storage order_of) cfg env ms logs request st =
          (Some (200, DeletedBody EmptyResponse), st\<lparr>as_storage := s'\<rparr>) \<and>
        st_messages s' = (st_messages (as_storage st))(i \<mapsto> mark_for_deletion (he_now env) m)"
      by (rule storage_contract.delete_message_succeeds [OF contract assms(2,3) author, of X env])
        (auto simp: served api_reply_def)
  }
qed

lemma author_requests_are_served_witness:
  "(\<exists>reply s'. serve ref_externs demo_extractors (in_memory_membership []) (in_memory_storage ascending)
      default_config demo_env demo_members (log_buffer_new 1000)
      (demo_request PUT (Messages []) demo_update_body) \<lparr>as_storage = demo_storage, as_notified = 0\<rparr>
      = (Some (200, UpdatedBody reply), \<lparr>as_storage = s', as_notified = 0\<rparr>)) \<and>
   (\<exists>s'. serve ref_externs demo_extractors (in_memory_membership []) (in_memory_storage ascending)
      default_config demo_env demo_members (log_buffer_new 1000)
      (demo_request DELETE (MessageById ''42'') []) \<lparr>as_storage = demo_storage, as_notified = 0\<rparr>
      = (Some (200, DeletedBody EmptyResponse), \<lparr>as_storage = s', as_notified = 0\<rparr>) \<and>
      st_messages s' 42 = Some (mark_for_deletion 5 demo_stored))"
proof -
  let ?st = "\<lparr>as_storage = demo_storage, as_notified = 0\<rparr>"
  have stored: "st_messages (as_storage ?st) 42 = Some demo_stored" by simp
  have inv: "mem_inv (as_storage ?st)" using demo_storage_inv by simp
  note served = author_requests_are_served [OF asc.hash_order_axioms inv stored,
      where ms = demo_members and io = "[]" and logs = "log_buffer_new 1000"]
  have content: "decode_content ref_externs demo_context (ur_group_id demo_update_request)
      (ur_encrypted_text demo_update_request) (ur_nonce demo_update_request) (ur_key_version demo_update_request)
      (ur_message_signature demo_update_request) (ur_attachments demo_update_request)
      = Inr (demo_content [4, 5] (demo_nonce 2))"
    by (simp add: demo_update_request_def demo_decode_content demo_nonce_def)
  have update: "ex_update demo_extractors h demo_update_body = Inr demo_update_request" for h
    by (simp add: demo_extractors_def demo_update_body_def demo_create_body_def)
  have id: "ur_message_id demo_update_request = 42" "ex_message_id demo_extractors ''42'' = Inr 42"
    by (simp_all add: demo_update_request_def demo_extractors_def)
  have free: "\<not> nonce_used_by_other (st_messages (as_storage ?st)) 42 (ct_nonce (demo_content [4, 5] (demo_nonce 2)))"
    using demo_update_free by (simp add: demo_content_def)
  have bcs: "\<forall>payload. is_ok (he_bcs_empty demo_env payload)" by (simp add: demo_env_def)
  obtain claim where put: "request_shows ref_externs (ex_body_auth demo_extractors)
      (cf_request_ttl_seconds default_config) (x_unix_secs ref_externs (he_auth_now demo_env))
      (demo_request PUT (Messages []) demo_update_body) demo_update_body Ed25519 demo_pk claim"
    "cl_sender_address claim = demo_address" "cl_group_id claim = demo_group"
    and ctx: "claim_context Ed25519 demo_pk claim = demo_context"
    by (rule demo_shows [of demo_update_body PUT "Messages []"]) simp_all
  obtain claim' where del: "request_shows ref_externs (ex_body_auth demo_extractors)
      (cf_request_ttl_seconds default_config) (x_unix_secs ref_externs (he_auth_now demo_env))
      (demo_request DELETE (MessageById ''42'') []) [] Ed25519 demo_pk claim'"
    "cl_sender_address claim' = demo_address" "cl_group_id claim' = demo_group"
    by (rule demo_shows [of "[]" DELETE "MessageById ''42''"]) simp_all
  from served [OF put(1), of "[]" demo_update_request "demo_content [4, 5] (demo_nonce 2)" "[]", THEN conjunct1]
  have "\<exists>reply s'. serve ref_externs demo_extractors (in_memory_membership []) (in_memory_storage ascending)
      default_config demo_env demo_members (log_buffer_new 1000)
      (demo_request PUT (Messages []) demo_update_body) ?st
      = (Some (200, UpdatedBody reply), ?st\<lparr>as_storage := s'\<rparr>)"
    using put(2,3) content update id(1) free bcs by (simp add: ctx demo_has_permission) blast
  moreover from served [OF del(1), of "[]" demo_update_request "demo_content [] []" "''42''", THEN conjunct2]
  have "\<exists>s'. serve ref_externs demo_extractors (in_memory_membership []) (in_memory_storage ascending)
      default_config demo_env demo_members (log_buffer_new 1000)
      (demo_request DELETE (MessageById ''42'') []) ?st
      = (Some (200, DeletedBody EmptyResponse), ?st\<lparr>as_storage := s'\<rparr>) \<and>
      st_messages s' 42 = Some (mark_for_deletion 5 demo_stored)"
    using del(2,3) id(2) by (simp add: demo_has_permission) (metis fun_upd_same)
  ultimately show ?thesis by simp
qed

section \<open>Requests that fail\<close>

text \<open>What a failed request leaves alone; only the number counters may have moved on.\<close>

definition nothing_stored :: "mem_storage app_state \<Rightarrow> mem_storage app_state \<Rightarrow> bool" where
  "nothing_stored st st' \<longleftrightarrow>
     st_messages (as_storage st') = st_messages (as_storage st) \<and>
     st_nonces (as_storage st') = st_nonces (as_storage st) \<and> as_notified st' = as_notified st"

lemma nothing_stored_refl [simp]: "nothing_stored st st"
  by (simp add: nothing_stored_def)

lemma mem_create_failed:
  "mem_create_message m s = (Inl d, s') \<Longrightarrow> st_messages s' = st_messages s \<and> st_nonces s' = st_nonces s"
  by (auto simp: mem_create_message_def next_order_def create_insert_def Let_def
      split: sum.splits if_splits)

lemma mem_update_failed: "mem_update_message now i em n k a sg pk s = (Inl d, s') \<Longrightarrow> s' = s"
  by (auto simp: mem_update_message_def Let_def split: sum.splits option.splits if_splits)

lemma mem_delete_failed: "mem_delete_message now i s = (Inl d, s') \<Longrightarrow> s' = s"
  by (auto simp: mem_delete_message_def Let_def split: sum.splits option.splits)

lemma create_message_failed:
  assumes "create_message X (in_memory_storage order_of) env auth req st = (Some (Inl e), st')"
  shows "nothing_stored st st'"
proof (cases "create_prepare X env auth req")
  case (Inr m)
  obtain r s where r: "mem_create_message m (as_storage st) = (r, s)" by (cases "mem_create_message m (as_storage st)")
  show ?thesis
  proof (cases r)
    case (Inl d)
    from assms have "st' = st\<lparr>as_storage := s\<rparr>"
      by (simp add: create_message_def Inr r Inl)
    with mem_create_failed [OF r [unfolded Inl]] show ?thesis by (simp add: nothing_stored_def)
  next
    case (Inr created)
    with r \<open>create_prepare X env auth req = Inr m\<close> assms show ?thesis
      by (simp add: create_message_def create_reply_def Let_def)
  qed
qed (use assms in \<open>simp add: create_message_def\<close>)

lemma update_message_failed:
  assumes "update_message X (in_memory_storage order_of) env auth req st = (Some (Inl e), st')"
  shows "nothing_stored st st'"
proof (cases "update_check X (in_memory_storage order_of) auth req (as_storage st)")
  case (Inr c)
  obtain r s where r: "update_commit X (in_memory_storage order_of) (he_now env) req c (as_storage st) = (r, s)"
    by (cases "update_commit X (in_memory_storage order_of) (he_now env) req c (as_storage st)")
  show ?thesis
  proof (cases r)
    case (Inl d)
    with r have "s = as_storage st"
      by (auto simp: update_commit_def in_memory_storage_def dest: mem_update_failed)
    with r Inl Inr assms show ?thesis by (simp add: update_message_def nothing_stored_def)
  next
    case (Inr u)
    with r \<open>update_check X (in_memory_storage order_of) auth req (as_storage st) = Inr c\<close> assms
    show ?thesis by (simp add: update_message_def empty_reply_def Let_def)
  qed
qed (use assms in \<open>simp add: update_message_def\<close>)

lemma delete_message_failed:
  assumes "delete_message X (in_memory_storage order_of) env auth mid st = (Some (Inl e), st')"
  shows "nothing_stored st st'"
proof (cases "delete_check X (in_memory_storage order_of) auth mid (as_storage st)")
  case (Inr c)
  obtain r s where r: "mem_delete_message (he_now env) mid (as_storage st) = (r, s)"
    by (cases "mem_delete_message (he_now env) mid (as_storage st)")
  show ?thesis
  proof (cases r)
    case (Inl d)
    from assms have "st' = st\<lparr>as_storage := s\<rparr>"
      by (simp add: delete_message_def Inr r Inl)
    with mem_delete_failed [OF r [unfolded Inl]] show ?thesis by (simp add: nothing_stored_def)
  next
    case (Inr u)
    with r \<open>delete_check X (in_memory_storage order_of) auth mid (as_storage st) = Inr c\<close> assms
    show ?thesis by (simp add: delete_message_def)
  qed
qed (use assms in \<open>simp add: delete_message_def\<close>)

lemma api_reply_failed:
  assumes "apfst (map_option (api_reply f)) rs = (Some (s, b), st')" and "400 \<le> s"
    and "\<And>v. rs = (Some (Inr v), st') \<Longrightarrow> fst (f v) < 400"
  obtains e where "rs = (Some (Inl e), st')"
proof (cases rs)
  case (Pair r st1)
  with assms(1) obtain v where "r = Some v" and v: "api_reply f v = (s, b)" and "st1 = st'"
    by (cases r) auto
  with Pair that assms(2,3) show thesis
    by (cases v) (auto simp: api_reply_def)
qed

lemma routes_failed:
  assumes "authenticated_routes X E (in_memory_storage order_of) env request ctx st = (Some (s, b), st')"
    and "400 \<le> s"
  shows "nothing_stored st st'"
proof -
  have created: "nothing_stored st st'"
    if "apfst (map_option (api_reply (\<lambda>(status, v). (status, CreatedBody v))))
      (create_message X (in_memory_storage order_of) env auth req st) = (Some (s, b), st')" for auth req
  proof -
    have "fst (case v of (status, w) \<Rightarrow> (status, CreatedBody w)) < 400"
      if "create_message X (in_memory_storage order_of) env auth req st = (Some (Inr v), st')" for v
      using that by (auto simp: create_message_def create_reply_def Let_def split: sum.splits prod.splits)
    from api_reply_failed [OF that assms(2) this] show ?thesis by (blast intro: create_message_failed)
  qed
  have updated: "nothing_stored st st'"
    if "apfst (map_option (api_reply (\<lambda>v. (200, UpdatedBody v))))
      (update_message X (in_memory_storage order_of) env auth req st) = (Some (s, b), st')" for auth req
    by (rule api_reply_failed [OF that assms(2)]) (auto intro: update_message_failed)
  have deleted: "nothing_stored st st'"
    if "apfst (map_option (api_reply (\<lambda>v. (200, DeletedBody v))))
      (delete_message X (in_memory_storage order_of) env auth mid st) = (Some (s, b), st')" for auth mid
    by (rule api_reply_failed [OF that assms(2)]) (auto intro: delete_message_failed)
  show ?thesis
    using assms(1)
    by (auto simp: authenticated_routes_def messages_route_def message_by_id_route_def with_context_def
        extracted_def intro: created updated deleted
        split: route.splits http_method.splits option.splits sum.splits if_splits)
qed

text \<open>
  C25. A request that fails stores nothing: whenever the reply to a request has a status of 400 or above,
  on any route and for any reason, the stored messages, the used nonces and the worker's
  notifications are what they were.
\<close>
theorem failed_request_stores_nothing:
  assumes "serve X E MS (in_memory_storage order_of) cfg env ms logs request st = (Some (status, body), st')"
    and "400 \<le> status"
  shows "nothing_stored st st'"
proof (cases "is_message_route (rq_route request)")
  case True
  show ?thesis
  proof (cases "auth_middleware X (ex_body_auth E) MS ms (cf_request_ttl_seconds cfg)
      (x_unix_secs X (he_auth_now env)) request")
    case (Next request' ctx)
    with True assms show ?thesis by (auto simp: serve_def intro: routes_failed)
  next
    case (Reply s b)
    with True assms show ?thesis by (simp add: serve_def)
  qed
next
  case False
  with assms show ?thesis by (simp add: serve_def)
qed

lemma failed_request_stores_nothing_witness:
  "\<exists>body. serve ref_externs demo_extractors (in_memory_membership []) (in_memory_storage ascending)
      default_config demo_env demo_members (log_buffer_new 1000)
      (demo_request POST (Messages []) []\<lparr>rq_headers := Map.empty\<rparr>)
      \<lparr>as_storage = demo_storage, as_notified = 3\<rparr>
    = (Some (401, body), \<lparr>as_storage = demo_storage, as_notified = 3\<rparr>) \<and>
   nothing_stored \<lparr>as_storage = demo_storage, as_notified = 3\<rparr> \<lparr>as_storage = demo_storage, as_notified = 3\<rparr>"
proof -
  have "serve ref_externs demo_extractors (in_memory_membership []) (in_memory_storage ascending)
      default_config demo_env demo_members (log_buffer_new 1000)
      (demo_request POST (Messages []) []\<lparr>rq_headers := Map.empty\<rparr>)
      \<lparr>as_storage = demo_storage, as_notified = 3\<rparr>
    = (Some (401, AuthErrorBody \<lparr>ae_error = ''Missing X-Signature header'', ae_code = ''MISSING_SIGNATURE''\<rparr>),
       \<lparr>as_storage = demo_storage, as_notified = 3\<rparr>)"
    by (simp add: serve_def is_message_route_def auth_middleware_def authenticate_def get_header_def
        error_response_def)
  with failed_request_stores_nothing [OF this] show ?thesis by simp
qed

text \<open>
  C6. Nobody else can edit or delete a message: for a stored message whose sender is not the
  authenticated address, or whose group is not the authorized one, both the update and the delete
  handler answer 403 and leave the state as it is; for an id that is not stored they answer 404.
\<close>
theorem others_cannot_modify:
  assumes "hash_order order_of" and "mem_inv (as_storage st)"
    and "\<forall>m. st_messages (as_storage st) (ur_message_id req) = Some m \<longrightarrow>
      msg_sender_wallet_addr m \<noteq> ac_sender_address auth \<or> ac_authorized_group auth \<noteq> Some (msg_group_id m)"
  shows "\<exists>e. fst (api_error_into_response e) =
      (if st_messages (as_storage st) (ur_message_id req) = None then 404 else 403) \<and>
    (\<exists>e'. fst (api_error_into_response e') = fst (api_error_into_response e) \<and>
      update_message X (in_memory_storage order_of) env auth req st = (Some (Inl e), st) \<and>
      delete_message X (in_memory_storage order_of) env auth (ur_message_id req) st = (Some (Inl e'), st))"
proof (cases "st_messages (as_storage st) (ur_message_id req)")
  case None
  then show ?thesis
    using assms(2)
    by (auto simp: update_message_def delete_message_def update_check_def delete_check_def
        in_memory_storage_def mem_get_message_def)
next
  case (Some m)
  with assms(2,3) show ?thesis
    by (auto simp: update_message_def delete_message_def update_check_def delete_check_def
        in_memory_storage_def mem_get_message_def)
qed

lemma others_cannot_modify_witness:
  "\<exists>e. fst (api_error_into_response e) = 403 \<and>
     update_message ref_externs (in_memory_storage ascending) demo_env
       (demo_context\<lparr>ac_sender_address := ''0xother''\<rparr>) demo_update_request
       \<lparr>as_storage = demo_storage, as_notified = 0\<rparr>
     = (Some (Inl e), \<lparr>as_storage = demo_storage, as_notified = 0\<rparr>)"
proof -
  have "demo_address \<noteq> ''0xother''"
    by (simp add: demo_address_def hex_encode_def hex_digit_def)
  then show ?thesis
    using others_cannot_modify [OF asc.hash_order_axioms, of "\<lparr>as_storage = demo_storage, as_notified = 0\<rparr>"
        demo_update_request "demo_context\<lparr>ac_sender_address := ''0xother''\<rparr>" ref_externs demo_env]
      demo_storage_inv
    by (auto simp: demo_update_request_def)
qed



section \<open>Signatures and what they bind\<close>

text \<open>
  C10. What a request without a body authorizes is fixed by its signed text: if two such requests pass the
  header parsing and the address check of the middleware (each under its own key) and the signed bytes
  are the same, they claim the same time, the same sender and the same group. A signature for one
  group can not be presented for another, although the text joins its fields by colons and the group
  header is free text.
\<close>
theorem header_claim_bound_by_signature:
  assumes "hex_codec (x_hex_encode X) (x_hex_decode X)"
    and "header_claim X h1 = Inr c1" and "header_claim X h2 = Inr c2"
    and "verify_address_matches_pubkey X (cl_sender_address c1) pk1 s1 = Inr a1"
    and "verify_address_matches_pubkey X (cl_sender_address c2) pk2 s2 = Inr a2"
    and "cl_message_bytes c1 = cl_message_bytes c2"
  shows "c1 = c2"
proof -
  have colon: "CHR '':'' \<notin> set (cl_sender_address c1)" "CHR '':'' \<notin> set (cl_sender_address c2)"
    using assms(4,5) hex_codec.enc_no_colon [OF assms(1)] by (auto simp: verify_address_Inr_iff)
  have "canonical_headers (cl_timestamp c1) (cl_sender_address c1) (cl_group_id c1) =
      canonical_headers (cl_timestamp c2) (cl_sender_address c2) (cl_group_id c2)"
    using assms(2,3,6) by (simp add: header_claim_Inr_iff)
  from canonical_headers_inject [OF this colon] assms(6) show ?thesis
    by (cases c1; cases c2) simp
qed

lemma demo_header_claim:
  "header_claim ref_externs (demo_headers (demo_signed_bytes [])) = Inr (demo_claim (demo_signed_bytes []))"
  using demo_claim_of [of "[]"] by (simp add: auth_claim_of_def)

lemma header_claim_bound_by_signature_witness:
  "header_claim ref_externs (demo_headers (demo_signed_bytes [])) = Inr (demo_claim (demo_signed_bytes [])) \<and>
   verify_address_matches_pubkey ref_externs demo_address demo_pk Ed25519 = Inr demo_address \<and>
   demo_claim (demo_signed_bytes []) = demo_claim (demo_signed_bytes [])"
proof -
  have v: "verify_address_matches_pubkey ref_externs (cl_sender_address (demo_claim m)) demo_pk Ed25519
      = Inr demo_address" for m
    by (simp add: verify_address_matches_pubkey_def demo_derived demo_claim_def)
  have codec: "hex_codec (x_hex_encode ref_externs) (x_hex_decode ref_externs)"
    using hx.hex_codec_axioms by simp
  from header_claim_bound_by_signature [OF codec demo_header_claim demo_header_claim v v] demo_header_claim
    v [of "[]"] show ?thesis by (simp add: demo_claim_def)
qed

lemma middleware_decides_witness:
  "auth_middleware ref_externs (ex_body_auth demo_extractors) (in_memory_membership []) demo_members 900 1000
     (demo_request GET (Messages ''id'') []) =
   Next (demo_request GET (Messages ''id'') []) (Some demo_context) \<and>
   (\<exists>b. auth_middleware ref_externs (ex_body_auth demo_extractors) (in_memory_membership []) new_members 900 1000
     (demo_request GET (Messages ''id'') []) = Reply 403 b)"
proof -
  note decides = middleware_decides [of "demo_request GET (Messages ''id'') []" MessagingReader ref_externs
      "ex_body_auth demo_extractors" "in_memory_membership []" _ 900 1000
      "demo_request GET (Messages ''id'') []" demo_context]
  have accepted: "auth_middleware ref_externs (ex_body_auth demo_extractors) (in_memory_membership []) demo_members
      900 1000 (demo_request GET (Messages ''id'') []) =
      Next (demo_request GET (Messages ''id'') []) (Some demo_context)"
    by (rule demo_middleware [where perm = MessagingReader]) simp_all
  with decides [of demo_members] obtain body claim where
    "request_shows ref_externs (ex_body_auth demo_extractors) 900 1000 (demo_request GET (Messages ''id'') [])
       body Ed25519 demo_pk claim" by auto
  moreover have "\<not> ms_has_permission (in_memory_membership []) new_members g a p" for g a p
    by (simp add: in_memory_membership_def has_permission_def)
  ultimately have "\<exists>b. auth_middleware ref_externs (ex_body_auth demo_extractors) (in_memory_membership [])
      new_members 900 1000 (demo_request GET (Messages ''id'') []) = Reply 403 b"
    using decides [of new_members] by auto
  with accepted show ?thesis by blast
qed

text \<open>
  C27. A reader can verify the sender from a response alone: for a message created with its ciphertext and
  nonce in the codec's own hex form, the signature in the response verifies, under the key in the
  response, over the canonical text built from the response's group, ciphertext, nonce and key
  version.
\<close>
theorem response_verifiable_by_reader:
  assumes "hex_codec (x_hex_encode X) (x_hex_decode X)"
    and "create_prepare X env auth req = Inr m"
    and "cr_encrypted_text req = x_hex_encode X text" and "cr_nonce req = x_hex_encode X nonce"
  shows "let r = message_response_from X (set_order k m) in
    \<exists>sg pk. x_hex_decode X (mr_signature r) = Inr sg \<and>
      x_hex_decode X (mr_public_key r) = Inr (scheme_flag (ac_scheme auth) # pk) \<and>
      verify_signature X (as_bytes (canonical_message (mr_group_id r) (mr_encrypted_text r) (mr_nonce r)
        (mr_key_version r))) sg pk (ac_scheme auth) = Inr ()"
proof -
  note dec = hex_codec.dec_enc [OF assms(1)]
  from assms(2) obtain c where
    c: "decode_content X auth (cr_group_id req) (cr_encrypted_text req) (cr_nonce req)
      (cr_key_version req) (cr_message_signature req) (cr_attachments req) = Inr c"
    and m: "m = message_new (he_now env) (he_uuid env) (cr_group_id req) (cr_sender_address req)
      (ct_encrypted_msg c) (ct_nonce c) (cr_key_version req) (ct_attachments c) (ct_signature c)
      (ct_public_key c)"
    by (auto simp: create_prepare_def bind_result_Inr_iff)
  from c assms(3,4) dec have "ct_encrypted_msg c = text" "ct_nonce c = nonce"
    by (auto simp: decode_content_Inr_iff)
  with c m assms(3,4) show ?thesis
    by (auto simp: Let_def message_response_from_def set_order_def message_new_def dec
        decode_content_Inr_iff verify_message_signature_Inr_iff verify_signature_Inr_iff)
qed

lemma response_verifiable_by_reader_witness:
  "\<exists>sg pk. hex_decode (mr_signature (message_response_from ref_externs demo_stored)) = Inr sg \<and>
     hex_decode (mr_public_key (message_response_from ref_externs demo_stored)) = Inr (0 # pk)"
  using response_verifiable_by_reader [of ref_externs demo_env demo_context demo_create_request demo_message
      "[1, 2, 3]" "demo_nonce 1" 1] demo_create_prepare hx.hex_codec_axioms
  by (auto simp: Let_def demo_create_request_def demo_stored_def)

section \<open>The Walrus worker\<close>

text \<open>
  C16. A workflow moves exactly the messages it uploaded: when the upload of the batch it read succeeded,
  every message of the batch for which Walrus returned a patch id gets the target status and that
  patch id, and every other message, in the batch or not, is unchanged; nothing is added, lost or
  reassigned.
\<close>
theorem workflow_moves_exactly_the_uploaded:
  assumes "hash_order order_of" and "mem_inv s"
    and "mem_get_messages_by_sync_status order_of st (ws_batch_size sv) s = Inr found"
    and "sync_upload X ser W sv (wi_send io) st' found = Inr (Some r)"
  shows "\<exists>s'. sync_messages X (in_memory_storage order_of) ser W sv io st st' s = (Inr (), s') \<and> mem_inv s' \<and>
    dom (st_messages s') = dom (st_messages s) \<and>
    (\<forall>i m. st_messages s i = Some m \<longrightarrow>
      st_messages s' i = Some
        (case get_patch_id r (patch_identifier X i) of
           Some p \<Rightarrow> if m \<in> set found
             then m\<lparr>msg_sync_status := st', msg_updated_at := wi_clock io i, msg_quilt_patch_id := Some p\<rparr>
             else m
         | None \<Rightarrow> m))"
  by (rule workflow_effect [OF assms])

lemma demo_found:
  "mem_get_messages_by_sync_status ascending SyncPending (ws_batch_size demo_worker) demo_storage
    = Inr [demo_stored]"
  by (simp add: mem_get_messages_by_sync_status_def ascending_def hm_values_def List.map_filter_simps
      demo_worker_def walrus_sync_service_new_def default_config_def)

lemma demo_upload:
  "sync_upload ref_externs (\<lambda>m. Inr [1]) demo_walrus_codec demo_worker demo_send Synced [demo_stored]
    = Inr (Some demo_quilt)"
  by (simp add: sync_upload_def store_quilt_def demo_walrus_codec_def demo_send_def require_success_def
      is_success_def Let_def)

lemma demo_patch: "get_patch_id demo_quilt (patch_identifier ref_externs 42) = Some ''patch''"
proof -
  have "show_nat 42 = ''42''" by code_simp
  then show ?thesis
    by (simp add: get_patch_id_def demo_quilt_def patch_identifier_def MSG_PREFIX_def)
qed

lemma workflow_moves_exactly_the_uploaded_witness:
  "\<exists>s'. sync_messages ref_externs (in_memory_storage ascending) (\<lambda>m. Inr [1]) demo_walrus_codec demo_worker
      \<lparr>wi_send = demo_send, wi_clock = (\<lambda>i. 9)\<rparr> SyncPending Synced demo_storage = (Inr (), s') \<and>
    st_messages s' 42 = Some (demo_stored\<lparr>msg_sync_status := Synced, msg_updated_at := 9,
      msg_quilt_patch_id := Some ''patch''\<rparr>)"
  using workflow_moves_exactly_the_uploaded [OF asc.hash_order_axioms demo_storage_inv demo_found,
      of ref_externs "\<lambda>m. Inr [1]" demo_walrus_codec "\<lparr>wi_send = demo_send, wi_clock = (\<lambda>i. 9)\<rparr>" Synced demo_quilt]
    demo_upload demo_patch
  by auto

text \<open>Whatever the configuration, a quilt has at most 666 patches.\<close>

lemma quilt_size_bounded:
  assumes "hash_order order_of" and "mem_inv s"
    and "mem_get_messages_by_sync_status order_of st (ws_batch_size (walrus_sync_service_new cfg client)) s
      = Inr found"
  shows "length (fst (build_patches X ser st' found)) \<le> 666 \<and>
    map qm_identifier (snd (build_patches X ser st' found)) = map fst (fst (build_patches X ser st' found)) \<and>
    (\<forall>(i, d)\<in>set (fst (build_patches X ser st' found)).
      \<exists>m\<in>ran (st_messages s). msg_sync_status m = st \<and> i = patch_identifier X (msg_id m) \<and>
        ser (m\<lparr>msg_sync_status := st'\<rparr>) = Inr d)"
proof -
  let ?n = "ws_batch_size (walrus_sync_service_new cfg client)"
  from storage_contract.by_status [OF hash_order.meets_contract [OF assms(1)] assms(2), of st ?n] assms(3)
  obtain all where found: "found = take ?n all"
    and all: "set all = {m \<in> ran (st_messages s). msg_sync_status m = st}" by auto
  have "?n \<le> 666" by (simp add: walrus_sync_service_new_def)
  with build_patches_length [of X ser st' found] found
  have "length (fst (build_patches X ser st' found)) \<le> 666" by simp
  moreover have "m \<in> ran (st_messages s) \<and> msg_sync_status m = st" if "m \<in> set found" for m
    using that found all by (auto dest: in_set_takeD)
  ultimately show ?thesis
    by (auto simp: build_patches_metadata build_patches_set)
qed

definition demo_contacts :: "workflow_io \<times> workflow_io \<times> workflow_io" where
  "demo_contacts = (let io = \<lparr>wi_send = publisher_send, wi_clock = (\<lambda>i. 9)\<rparr> in (io, io, io))"

text \<open>
  C18. New messages are uploaded in time: of notifications that come without a timer tick, exactly every
  \<open>t\<close>-th one, with \<open>t\<close> the threshold, runs a sync cycle on the storage that the cycle before it left, and
  the counter is back at zero after each (with threshold 0 none does, and the counter only grows). A
  tick always runs a cycle and resets the counter; when the channel is closed the worker stops.
  Whatever the events and the answers of Walrus, the worker keeps the storage consistent and loses no
  message.
\<close>
theorem worker_triggers_and_keeps:
  assumes "hash_order order_of" and "mem_inv s"
  shows "let t = ws_message_threshold sv;
      run = worker_run X (in_memory_storage order_of) ser W sv;
      cycle = sync_cycle X (in_memory_storage order_of) ser W sv
    in run (map (Pair Notification) ioss) (0, s) =
        (if t = 0 then (length ioss, s)
         else (length ioss mod t, fold cycle (map (\<lambda>j. ioss ! (j * t + t - 1)) [0..<length ioss div t]) s)) \<and>
      run ((TimerTick, ios) # events) (n, s) = run events (0, cycle ios s) \<and>
      run ((ChannelClosed, ios) # events) (n, s) = (n, s) \<and>
      mem_inv (snd (run events (n, s))) \<and>
      keeps_identities (st_messages s) (st_messages (snd (run events (n, s))))"
  using storage_contract.worker_run_inv [OF hash_order.meets_contract [OF assms(1)] assms(2),
      of X ser W sv events n]
    worker_run_waits [of 0 ioss sv X "in_memory_storage order_of" ser W "[]" s]
    worker_run_notifications [of sv "ws_message_threshold sv" X "in_memory_storage order_of" ser W ioss s]
  by (simp add: Let_def worker_turn_def)

lemma worker_triggers_and_keeps_witness:
  "worker_run ref_externs (in_memory_storage ascending) (\<lambda>m. Inr [1]) publisher_codec demo_worker
     (map (Pair Notification) (replicate 120 demo_contacts)) (0, demo_storage) =
   (20, fold (sync_cycle ref_externs (in_memory_storage ascending) (\<lambda>m. Inr [1]) publisher_codec demo_worker)
     [demo_contacts, demo_contacts] demo_storage) \<and>
   mem_inv (snd (worker_run ref_externs (in_memory_storage ascending) (\<lambda>m. Inr [1]) publisher_codec demo_worker
     [(TimerTick, demo_contacts)] (0, demo_storage)))"
proof -
  have "ws_message_threshold demo_worker = 50"
    by (simp add: demo_worker_def walrus_sync_service_new_def default_config_def)
  moreover have "[0..<120 div 50] = [0, 1::nat]" by code_simp
  ultimately show ?thesis
    using worker_triggers_and_keeps [OF asc.hash_order_axioms demo_storage_inv, of demo_worker ref_externs
        "\<lambda>m. Inr [1]" publisher_codec "replicate 120 demo_contacts" demo_contacts "[(TimerTick, demo_contacts)]" 0]
    by (simp add: Let_def nth_replicate del: worker_run.simps replicate.simps)
qed

section \<open>The component properties at work\<close>

lemma publisher_answers: "walrus_answers (\<lambda>m. Inr [1]) publisher_codec publisher_send"
  by (auto simp: walrus_answers_def publisher_codec_def demo_walrus_codec_def publisher_send_def
      file_names_form read_write_ids get_patch_id_None_iff is_success_def)

lemma demo_pending: "pending_ids SyncPending demo_storage = {42}"
  by (auto simp: pending_ids_def)

lemma worker_drains_backlog_witness:
  "card (pending_ids SyncPending demo_storage) = 1 \<and>
   card (pending_ids SyncPending (snd (worker_run ref_externs (in_memory_storage ascending) (\<lambda>m. Inr [1])
      publisher_codec demo_worker
      [(TimerTick, \<lparr>wi_send = publisher_send, wi_clock = (\<lambda>i. 9)\<rparr>,
        \<lparr>wi_send = publisher_send, wi_clock = (\<lambda>i. 9)\<rparr>, \<lparr>wi_send = publisher_send, wi_clock = (\<lambda>i. 9)\<rparr>)]
      (0, demo_storage)))) = 0"
proof -
  have batch: "0 < ws_batch_size demo_worker"
    by (simp add: demo_worker_def walrus_sync_service_new_def default_config_def)
  let ?io = "\<lparr>wi_send = publisher_send, wi_clock = (\<lambda>i. 9)\<rparr>"
  have "\<forall>(e, io1, io2, io3) \<in> set [(TimerTick, ?io, ?io, ?io)]. walrus_answers (\<lambda>m. Inr [1]) publisher_codec (wi_send io1) \<and>
      walrus_answers (\<lambda>m. Inr [1]) publisher_codec (wi_send io2) \<and>
      walrus_answers (\<lambda>m. Inr [1]) publisher_codec (wi_send io3)"
    using publisher_answers by simp
  from worker_drains_backlog [OF asc.hash_order_axioms demo_storage_inv this, of ref_externs demo_worker 0]
  show ?thesis
    using batch by (simp add: demo_pending worker_turn_def del: worker_run.simps)
qed

lemma pages_cover_group_witness:
  "read_pages ref_externs (in_memory_storage ascending) demo_context demo_group 1 demo_storage 2 None =
     Some [message_response_from ref_externs demo_stored] \<and>
   read_pages ref_externs (in_memory_storage ascending) demo_context demo_group 0 demo_storage 7 None = None"
proof -
  have only: "all = [demo_stored]"
    if "set all = {demo_stored}" "sorted_wrt (\<lambda>x y. order_key x < order_key y) all" for all
    using that by (cases all rule: remdups_adj.cases) auto
  have g: "{m \<in> ran (st_messages demo_storage). msg_group_id m = demo_group} = {demo_stored}"
    "\<exists>m\<in>ran (st_messages demo_storage). msg_group_id m = demo_group" by auto
  have "ac_authorized_group demo_context = Some demo_group" by simp
  note pages = pages_cover_group [OF asc.hash_order_axioms demo_storage_inv this, of 1 ref_externs 7, unfolded g(1)]
  then obtain all where "set all = {demo_stored}" "sorted_wrt (\<lambda>x y. order_key x < order_key y) all"
    and run: "read_pages ref_externs (in_memory_storage ascending) demo_context demo_group 1 demo_storage
      (Suc (length all div min 1 100)) None = Some (map (message_response_from ref_externs) all)"
    by auto
  from only [OF this(1,2)] have all: "all = [demo_stored]" .
  have "Suc (length all div min 1 100) = 2" by (simp add: all)
  with run pages g(2) show ?thesis by (simp only: all list.map simp_thms)
qed


text \<open>A history of the chain in which a member of the group \<open>0xaa\<close> is added and gets a permission.\<close>

definition demo_bcs :: event_bcs where
  "demo_bcs =
     \<lparr> bcs_member = (\<lambda>b. Inr \<lparr>me_group_id = [170], me_member = [7]\<rparr>),
       bcs_permissions = (\<lambda>b. Inr \<lparr>pe_group_id = [170], pe_member = [7],
         pe_permissions = [''0xp::messaging::MessagingSender'']\<rparr>) \<rparr>"

definition demo_history :: "(string, (string, checkpoint_response) result list) result list" where
  "demo_history =
     [Inr [Inr \<lparr>cr_cursor = Some 5, cr_checkpoint = Some [Some
       [\<lparr>ev_type = Some ''0xp::group::MemberAdded<T>'', ev_contents = Some (Some [1])\<rparr>,
        \<lparr>ev_type = Some ''0xp::group::PermissionsGranted<T>'', ev_contents = Some (Some [2])\<rparr>]]\<rparr>]]"

lemma demo_history_permission:
  "has_permission (snd (run_sessions ref_externs demo_bcs (in_memory_membership []) demo_history
     (new_sync_service ''0xp'', new_members))) ''0xaa'' ''0x07'' MessagingSender"
  by code_simp

lemma signed_texts_disjoint_witness:
  "distinct [demo_signed_bytes [], demo_create_body, as_bytes (canonical_message ''0xaa'' ''00'' ''01'' 1)]"
proof -
  have "struct_text (ex_body_auth demo_extractors)"
    by (auto simp: struct_text_def demo_extractors_def demo_create_body_def demo_update_body_def is_digit_def
        intro: exI [of _ "CHR ''{''"] split: if_splits)
  moreover obtain f where "ex_body_auth demo_extractors demo_create_body = Inr f"
    by (simp add: demo_extractors_def)
  moreover have "cl_message_bytes (demo_claim (demo_signed_bytes [])) = demo_signed_bytes []"
    by (simp add: demo_claim_def)
  ultimately show ?thesis
    using signed_texts_disjoint [OF _ demo_history_permission demo_header_claim,
        of "ex_body_auth demo_extractors" demo_create_body f "''00''" "''01''" 1]
    by (simp only:)
qed

section \<open>Where the code falls short\<close>



text \<open>
  C34. A deleted message comes back when its author updates it. Take a stored message that shows as deleted
  (marked for deletion, or already deleted on Walrus). An update of it by its author, with content that
  decodes and a nonce that no other message has, is not refused: the update handler does not look at
  the status, and afterwards the message is pending for an update and shows as not deleted.
\<close>
theorem update_revives_deleted_message:
  assumes "hash_order order_of" and "mem_inv (as_storage st)"
    and "st_messages (as_storage st) (ur_message_id req) = Some m"
    and "mr_is_deleted (message_response_from X m)"
    and "ac_authorized_group auth = Some (msg_group_id m)" and "ac_sender_address auth = msg_sender_wallet_addr m"
    and "decode_content X auth (ur_group_id req) (ur_encrypted_text req) (ur_nonce req)
      (ur_key_version req) (ur_message_signature req) (ur_attachments req) = Inr c"
    and "\<not> nonce_used_by_other (st_messages (as_storage st)) (ur_message_id req) (ct_nonce c)"
  shows "\<exists>reply st' m'. update_message X (in_memory_storage order_of) env auth req st = (reply, st') \<and>
    reply = empty_reply X env \<and> (\<forall>e. reply \<noteq> Some (Inl e)) \<and>
    st_messages (as_storage st') (ur_message_id req) = Some m' \<and>
    msg_sync_status m' = UpdatePending \<and> \<not> mr_is_deleted (message_response_from X m') \<and>
    msg_encrypted_msg m' = ct_encrypted_msg c"
  by (rule storage_contract.update_message_succeeds [OF hash_order.meets_contract [OF assms(1)] assms(2,3,5-8),
        of env])
    (auto simp: empty_reply_def Let_def update_content_def message_response_from_def)

lemma update_revives_deleted_message_witness:
  "mr_is_deleted (message_response_from ref_externs (mark_for_deletion 8 demo_stored)) \<and>
   (\<exists>reply st' m'. update_message ref_externs (in_memory_storage ascending) demo_env demo_context
      demo_update_request \<lparr>as_storage = snd (mem_delete_message 8 42 demo_storage), as_notified = 0\<rparr>
      = (reply, st') \<and> st_messages (as_storage st') 42 = Some m' \<and>
     \<not> mr_is_deleted (message_response_from ref_externs m'))"
proof -
  let ?s = "snd (mem_delete_message 8 42 demo_storage)" and ?m = "mark_for_deletion 8 demo_stored"
  have s: "?s = demo_storage\<lparr>st_messages := [42 \<mapsto> ?m]\<rparr>"
    by (simp add: mem_delete_message_def Let_def)
  have inv: "mem_inv ?s"
    using asc.mem_contract.delete_inv [OF demo_storage_inv, of 8 42] by simp
  have stored: "st_messages ?s (ur_message_id demo_update_request) = Some ?m"
    unfolding s by (simp add: demo_update_request_def)
  have shown: "mr_is_deleted (message_response_from ref_externs ?m)"
    by (simp add: mark_for_deletion_def message_response_from_def Let_def)
  have decoded: "decode_content ref_externs demo_context (ur_group_id demo_update_request)
      (ur_encrypted_text demo_update_request) (ur_nonce demo_update_request) (ur_key_version demo_update_request)
      (ur_message_signature demo_update_request) (ur_attachments demo_update_request)
      = Inr (demo_content [4, 5] (demo_nonce 2))"
    by (simp add: demo_update_request_def demo_decode_content demo_nonce_def)
  have free: "\<not> nonce_used_by_other (st_messages ?s) (ur_message_id demo_update_request)
      (ct_nonce (demo_content [4, 5] (demo_nonce 2)))"
    unfolding s by (simp add: nonce_used_by_other_def demo_update_request_def)
  from update_revives_deleted_message [OF asc.hash_order_axioms _ _ shown _ _ decoded,
      of "\<lparr>as_storage = ?s, as_notified = 0\<rparr>" demo_env] inv stored free
  show ?thesis
    using shown by (auto simp: mark_for_deletion_def demo_update_request_def)
qed

text \<open>
  The edited flag does not mean edited: every status write of the worker sets the update time, and with it
  the flag.
\<close>

lemma status_write_shows_as_edited:
  "(mr_is_edited (message_response_from X (set_sync_status now st q m)) \<longleftrightarrow> now \<noteq> msg_created_at m) \<and>
   mr_encrypted_text (message_response_from X (set_sync_status now st q m)) =
     mr_encrypted_text (message_response_from X m) \<and>
   mr_signature (message_response_from X (set_sync_status now st q m)) =
     mr_signature (message_response_from X m)"
  by (cases q) (simp_all add: message_response_from_def set_sync_status_def Let_def)

end
